(* ===== verification/Prelude.thy ===== *)
theory Prelude
  imports Main "HOL-Library.AList" "HOL-Library.Multiset"
begin

text \<open>
  What the components share: the result of a Go call (a value, a returned error or a panic),
  Go maps as association lists, and the iteration order of \<open>range\<close> over a map.

  Go leaves the iteration order of a map unspecified and varies it from loop to loop. A loop over
  a map is therefore modelled as a loop over \<open>go_range ord m\<close>, the entries of the map in an
  order chosen by \<open>ord\<close>; every order is chosen by some \<open>ord\<close> (\<open>go_range_surj\<close>), so a theorem for
  all \<open>ord\<close> is a theorem about every execution of the loop.
\<close>

named_theorems go_map "lookup, key and well-formedness facts of Go maps"
named_theorems go_res "case analysis of Go results"

section \<open>Results of calls\<close>

text \<open>
  A Go function that returns \<open>(value, error)\<close> either returns a value, returns an error, or panics
  (index out of range, nil dereference). A panic is kept apart from an error: the callers handle
  errors, while a panic in a goroutine ends the process.
\<close>

datatype 'a res = Ok 'a | Err string | Panic string

primrec res_bind :: "'a res \<Rightarrow> ('a \<Rightarrow> 'b res) \<Rightarrow> 'b res" where
  "res_bind (Ok x) f = f x"
| "res_bind (Err e) f = Err e"
| "res_bind (Panic p) f = Panic p"

primrec is_panic :: "'a res \<Rightarrow> bool" where
  "is_panic (Ok x) = False"
| "is_panic (Err e) = False"
| "is_panic (Panic p) = True"

primrec is_ok :: "'a res \<Rightarrow> bool" where
  "is_ok (Ok x) = True"
| "is_ok (Err e) = False"
| "is_ok (Panic p) = False"

text \<open>
  What a call outside the program answers: the error of a call that returns only an error
  (\<open>None\<close> is \<open>nil\<close>), and the error or the value of one that returns both.
\<close>

type_synonym error = "string option"
type_synonym 'a answer = "string + 'a"

definition of_answer :: "'a answer \<Rightarrow> 'a res" where
  "of_answer a = (case a of Inl e \<Rightarrow> Err e | Inr x \<Rightarrow> Ok x)"

lemma of_answer_simps [simp]: "of_answer (Inl e) = Err e" "of_answer (Inr x) = Ok x"
  by (simp_all add: of_answer_def)

lemma of_answer_no_panic [simp]: "\<not> is_panic (of_answer a)"
  by (cases a) simp_all

lemma is_okE:
  assumes "is_ok r"
  obtains x where "r = Ok x"
  using assms by (cases r) auto

lemma res_bind_Ok_iff [go_res]:
  "res_bind r f = Ok y \<longleftrightarrow> (\<exists>x. r = Ok x \<and> f x = Ok y)"
  by (cases r) auto

lemma res_bind_ErrE:
  assumes "res_bind r f = Err e"
  obtains "r = Err e" | x where "r = Ok x" and "f x = Err e"
  using assms by (cases r) auto

lemma res_bind_assoc [go_res]:
  "res_bind (res_bind r f) g = res_bind r (\<lambda>x. res_bind (f x) g)"
  by (cases r) auto

lemma is_panic_bind [go_res]:
  "is_panic (res_bind r f) \<longleftrightarrow> is_panic r \<or> (\<exists>x. r = Ok x \<and> is_panic (f x))"
  by (cases r) auto

lemma is_panic_iff: "is_panic r \<longleftrightarrow> (\<exists>p. r = Panic p)"
  by (cases r) auto

section \<open>Slices with a bound check\<close>

text \<open>\<open>xs[0]\<close> and \<open>s[:n]\<close> panic out of range.\<close>

definition go_first :: "'a list \<Rightarrow> 'a res" where
  "go_first xs = (case xs of [] \<Rightarrow> Panic ''index out of range'' | x # _ \<Rightarrow> Ok x)"

definition go_slice_to :: "nat \<Rightarrow> 'a list \<Rightarrow> 'a list res" where
  "go_slice_to n xs =
     (if n \<le> length xs then Ok (take n xs) else Panic ''slice bounds out of range'')"

definition go_slice_from :: "nat \<Rightarrow> 'a list \<Rightarrow> 'a list res" where
  "go_slice_from n xs =
     (if n \<le> length xs then Ok (drop n xs) else Panic ''slice bounds out of range'')"

lemma go_first_Ok [go_res]: "go_first xs = Ok x \<longleftrightarrow> (\<exists>ys. xs = x # ys)"
  by (auto simp: go_first_def split: list.splits)

lemma go_slice_to_Ok [go_res]: "go_slice_to n xs = Ok ys \<longleftrightarrow> n \<le> length xs \<and> ys = take n xs"
  by (auto simp: go_slice_to_def)

lemma go_slice_from_Ok [go_res]: "go_slice_from n xs = Ok ys \<longleftrightarrow> n \<le> length xs \<and> ys = drop n xs"
  by (auto simp: go_slice_from_def)

lemma is_panic_first [go_res]: "is_panic (go_first xs) \<longleftrightarrow> xs = []"
  by (auto simp: go_first_def split: list.splits)

lemma is_panic_slice_to [go_res]: "is_panic (go_slice_to n xs) \<longleftrightarrow> length xs < n"
  by (auto simp: go_slice_to_def)

lemma is_panic_slice_from [go_res]: "is_panic (go_slice_from n xs) \<longleftrightarrow> length xs < n"
  by (auto simp: go_slice_from_def)

section \<open>The order of range over a map\<close>

type_synonym order = "nat \<Rightarrow> nat"

definition insert_at :: "nat \<Rightarrow> 'a \<Rightarrow> 'a list \<Rightarrow> 'a list" where
  "insert_at i x xs = take i xs @ x # drop i xs"

primrec go_range :: "order \<Rightarrow> 'a list \<Rightarrow> 'a list" where
  "go_range ord [] = []"
| "go_range ord (x # xs) =
     insert_at (ord (length xs) mod Suc (length xs)) x (go_range ord xs)"

lemma mset_insert_at [simp]: "mset (insert_at i x xs) = add_mset x (mset xs)"
proof -
  have "mset xs = mset (take i xs) + mset (drop i xs)"
    by (metis append_take_drop_id mset_append)
  then show ?thesis by (simp add: insert_at_def)
qed

lemma mset_go_range [simp]: "mset (go_range ord xs) = mset xs"
  by (induction xs) auto

lemma set_go_range [simp]: "set (go_range ord xs) = set xs"
  by (metis mset_go_range set_mset_mset)

lemma length_go_range [simp]: "length (go_range ord xs) = length xs"
  by (metis mset_go_range size_mset)

lemma distinct_go_range [simp]: "distinct (go_range ord xs) \<longleftrightarrow> distinct xs"
  by (metis mset_go_range mset_eq_imp_distinct_iff)

lemma mset_map_go_range [simp]: "mset (map f (go_range ord xs)) = mset (map f xs)"
  by simp

lemma distinct_map_go_range [simp]:
  "distinct (map f (go_range ord xs)) \<longleftrightarrow> distinct (map f xs)"
  by (metis mset_map_go_range mset_eq_imp_distinct_iff)

lemma go_range_Nil_iff [simp]: "go_range ord xs = [] \<longleftrightarrow> xs = []"
  by (metis length_0_conv length_go_range)

lemma go_range_cong:
  "(\<And>i. i < length xs \<Longrightarrow> ord i = ord' i) \<Longrightarrow> go_range ord xs = go_range ord' xs"
  by (induction xs) auto

text \<open>Every order of the entries is the order of some execution.\<close>

lemma go_range_surj: "mset ys = mset xs \<Longrightarrow> \<exists>ord. go_range ord xs = ys"
proof (induction xs arbitrary: ys)
  case Nil
  then show ?case by simp
next
  case (Cons x xs)
  then have "x \<in> set ys" by (metis list.set_intros(1) set_mset_mset)
  then obtain as bs where ys: "ys = as @ x # bs" by (meson split_list)
  with Cons.prems have m: "mset (as @ bs) = mset xs" by simp
  then obtain ord where ord: "go_range ord xs = as @ bs" using Cons.IH by blast
  let ?ord = "ord(length xs := length as)"
  have len: "length as \<le> length xs"
    by (metis length_append m mset_eq_length le_add1)
  have "go_range ?ord xs = as @ bs"
    using ord by (metis go_range_cong fun_upd_other less_irrefl)
  then have "go_range ?ord (x # xs) = ys"
    using len by (simp add: insert_at_def ys)
  then show ?case by blast
qed

text \<open>A loop that stops at the first entry that satisfies a test.\<close>

lemma find_go_range_None: "List.find P (go_range ord xs) = None \<longleftrightarrow> (\<forall>x \<in> set xs. \<not> P x)"
  by (auto simp: find_None_iff)

lemma find_go_range_Some:
  "List.find P (go_range ord xs) = Some x \<Longrightarrow> x \<in> set xs \<and> P x"
  by (metis find_Some_iff nth_mem set_go_range)

lemma find_go_range_unique:
  assumes "x \<in> set xs" and "P x" and "\<And>y. y \<in> set xs \<Longrightarrow> P y \<Longrightarrow> y = x"
  shows "List.find P (go_range ord xs) = Some x"
proof (cases "List.find P (go_range ord xs)")
  case None
  with assms(1,2) show ?thesis by (auto simp: find_go_range_None)
next
  case (Some y)
  with assms(3) show ?thesis by (auto dest: find_go_range_Some)
qed

section \<open>Go maps\<close>

type_synonym ('k, 'v) gomap = "('k \<times> 'v) list"

abbreviation gm_get :: "('k, 'v) gomap \<Rightarrow> 'k \<Rightarrow> 'v option" where
  "gm_get m k \<equiv> map_of m k"

abbreviation gm_set :: "'k \<Rightarrow> 'v \<Rightarrow> ('k, 'v) gomap \<Rightarrow> ('k, 'v) gomap" where
  "gm_set k v m \<equiv> AList.update k v m"

abbreviation gm_del :: "'k \<Rightarrow> ('k, 'v) gomap \<Rightarrow> ('k, 'v) gomap" where
  "gm_del k m \<equiv> AList.delete k m"

definition gm_has :: "('k, 'v) gomap \<Rightarrow> 'k \<Rightarrow> bool" where
  "gm_has m k \<longleftrightarrow> map_of m k \<noteq> None"

text \<open>Reading a key that is not there gives the zero value of the element type.\<close>

definition gm_at :: "'v \<Rightarrow> ('k, 'v) gomap \<Rightarrow> 'k \<Rightarrow> 'v" where
  "gm_at z m k = (case map_of m k of None \<Rightarrow> z | Some v \<Rightarrow> v)"

definition gm_keys :: "('k, 'v) gomap \<Rightarrow> 'k set" where
  "gm_keys m = fst ` set m"

definition gm_wf :: "('k, 'v) gomap \<Rightarrow> bool" where
  "gm_wf m \<longleftrightarrow> distinct (map fst m)"

definition gm_append :: "'k \<Rightarrow> 'v \<Rightarrow> ('k, 'v list) gomap \<Rightarrow> ('k, 'v list) gomap" where
  "gm_append k v m = gm_set k (gm_at [] m k @ [v]) m"

lemma gm_get_set [go_map]: "gm_get (gm_set k v m) k' = (if k' = k then Some v else gm_get m k')"
  by (simp add: update_conv')

lemma gm_at_set [go_map]: "gm_at z (gm_set k v m) k' = (if k' = k then v else gm_at z m k')"
  by (simp add: gm_at_def update_conv')

lemma gm_at_Nil [go_map, simp]: "gm_at z [] k = z"
  by (simp add: gm_at_def)

lemma gm_has_set [go_map]: "gm_has (gm_set k v m) k' \<longleftrightarrow> k' = k \<or> gm_has m k'"
  by (simp add: gm_has_def update_conv')

lemma gm_has_Nil [go_map, simp]: "\<not> gm_has [] k"
  by (simp add: gm_has_def)

lemma gm_keys_set [go_map]: "gm_keys (gm_set k v m) = insert k (gm_keys m)"
  by (simp add: gm_keys_def dom_update)

lemma gm_keys_Nil [go_map, simp]: "gm_keys [] = {}"
  by (simp add: gm_keys_def)

lemma gm_has_iff_keys: "gm_has m k \<longleftrightarrow> k \<in> gm_keys m"
  by (simp add: gm_has_def gm_keys_def map_of_eq_None_iff)

lemma gm_wf_set [go_map]: "gm_wf m \<Longrightarrow> gm_wf (gm_set k v m)"
  by (simp add: gm_wf_def distinct_update)

lemma gm_wf_Nil [go_map, simp]: "gm_wf []"
  by (simp add: gm_wf_def)

lemma gm_wf_range [go_map]: "gm_wf (go_range ord m) \<longleftrightarrow> gm_wf m"
  by (simp add: gm_wf_def)

lemma gm_get_range [go_map]: "gm_wf m \<Longrightarrow> gm_get (go_range ord m) k = gm_get m k"
  by (rule map_of_inject_set [THEN iffD2, THEN fun_cong]) (auto simp: gm_wf_def)

lemma gm_get_in_set: "gm_wf m \<Longrightarrow> gm_get m k = Some v \<longleftrightarrow> (k, v) \<in> set m"
  by (simp add: gm_wf_def)

text \<open>A loop that looks for an entry only one key of the map can be.\<close>

lemma find_range_key:
  assumes wf: "gm_wf m" and k: "gm_get m k = Some v" "P (k, v)"
    and only: "\<And>k' v'. (k', v') \<in> set m \<Longrightarrow> P (k', v') \<Longrightarrow> k' = k"
  shows "List.find P (go_range ord m) = Some (k, v)"
proof (rule find_go_range_unique)
  show "(k, v) \<in> set m" using wf k by (simp add: gm_get_in_set)
  show "P (k, v)" by (fact k(2))
  fix e assume e: "e \<in> set m" "P e"
  obtain k' v' where kv: "e = (k', v')" by (cases e)
  with e have "k' = k" by (auto intro: only)
  with wf k e kv show "e = (k, v)" by (simp add: gm_get_in_set [symmetric])
qed

lemma gm_at_append [go_map]:
  "gm_at [] (gm_append k v m) k' = gm_at [] m k' @ (if k' = k then [v] else [])"
  by (simp add: gm_append_def gm_at_set)

lemma gm_keys_append [go_map]: "gm_keys (gm_append k v m) = insert k (gm_keys m)"
  by (simp add: gm_append_def gm_keys_set)

lemma gm_wf_append [go_map]: "gm_wf m \<Longrightarrow> gm_wf (gm_append k v m)"
  by (simp add: gm_append_def gm_wf_set)

lemma gm_has_append [go_map]: "gm_has (gm_append k v m) k' \<longleftrightarrow> k' = k \<or> gm_has m k'"
  by (simp add: gm_append_def gm_has_set)

end
