(* ===== verification/Go_Strings.thy ===== *)
theory Go_Strings
  imports Prelude "HOL-Library.Sublist"
begin

text \<open>
  The functions of Go's \<open>strings\<close>, \<open>strconv\<close>, \<open>fmt\<close> and \<open>path/filepath\<close> that the program
  calls, on byte strings (a Go string is a sequence of bytes, a HOL \<open>string\<close> a list of bytes).
\<close>

section \<open>strings.Index\<close>

text \<open>\<open>strings.Index(s, sub)\<close> is the first position where \<open>sub\<close> occurs in \<open>s\<close>, or \<open>-1\<close>.\<close>

fun first_index :: "string \<Rightarrow> string \<Rightarrow> nat option" where
  "first_index sub [] = (if sub = [] then Some 0 else None)"
| "first_index sub (c # s) =
     (if prefix sub (c # s) then Some 0 else map_option Suc (first_index sub s))"

definition strings_Index :: "string \<Rightarrow> string \<Rightarrow> int" where
  "strings_Index s sub = (case first_index sub s of None \<Rightarrow> -1 | Some n \<Rightarrow> int n)"

lemma first_index_None_iff: "first_index sub s = None \<longleftrightarrow> \<not> sublist sub s"
  by (induction s) (auto simp: sublist_Cons_right)

lemma first_index_Some:
  "first_index sub s = Some n \<Longrightarrow> n \<le> length s \<and> prefix sub (drop n s)"
proof (induction s arbitrary: n)
  case Nil
  then show ?case by (auto split: if_splits)
next
  case (Cons c s)
  then show ?case by (cases n) (auto split: if_splits)
qed

lemma first_index_0_iff: "first_index sub s = Some 0 \<longleftrightarrow> prefix sub s"
  by (cases s) auto

lemma strings_Index_found: "strings_Index s sub > -1 \<longleftrightarrow> sublist sub s"
  using first_index_None_iff [of sub s]
  by (cases "first_index sub s") (simp_all add: strings_Index_def)

lemma strings_Index_missing: "strings_Index s sub = -1 \<longleftrightarrow> \<not> sublist sub s"
  using first_index_None_iff [of sub s]
  by (cases "first_index sub s") (simp_all add: strings_Index_def)

lemma strings_Index_pos:
  "strings_Index s sub > 0 \<longleftrightarrow> sublist sub s \<and> \<not> prefix sub s"
proof (cases "first_index sub s")
  case None
  then show ?thesis
    using first_index_None_iff [of sub s] by (simp add: strings_Index_def)
next
  case (Some n)
  then have "sublist sub s"
    using first_index_None_iff [of sub s] by simp
  moreover have "n = 0 \<longleftrightarrow> prefix sub s"
    using Some first_index_0_iff [of sub s] by auto
  ultimately show ?thesis by (auto simp: strings_Index_def Some)
qed

section \<open>strings.Split and strings.Replace on a one-byte separator\<close>

fun split_on :: "char \<Rightarrow> string \<Rightarrow> string list" where
  "split_on c [] = [[]]"
| "split_on c (x # s) =
     (if x = c then [] # split_on c s
      else (case split_on c s of [] \<Rightarrow> [[x]] | w # ws \<Rightarrow> (x # w) # ws))"

primrec join_with :: "string \<Rightarrow> string list \<Rightarrow> string" where
  "join_with sep [] = []"
| "join_with sep (w # ws) = (case ws of [] \<Rightarrow> w | _ # _ \<Rightarrow> w @ sep @ join_with sep ws)"

definition replace_char :: "char \<Rightarrow> char \<Rightarrow> string \<Rightarrow> string" where
  "replace_char old new s = map (\<lambda>x. if x = old then new else x) s"

lemma split_on_nonempty [simp]: "split_on c s \<noteq> []"
  by (induction s) (auto split: list.splits)

lemma split_on_none: "c \<notin> set s \<Longrightarrow> split_on c s = [s]"
  by (induction s) auto

lemma split_on_append: "c \<notin> set w \<Longrightarrow> split_on c (w @ c # s) = w # split_on c s"
  by (induction w) auto

lemma split_on_parts: "w \<in> set (split_on c s) \<Longrightarrow> c \<notin> set w"
proof (induction s arbitrary: w)
  case Nil
  then show ?case by simp
next
  case (Cons x s)
  obtain v vs where "split_on c s = v # vs" by (cases "split_on c s") auto
  with Cons show ?case by (auto split: if_splits)
qed

text \<open>Joining and splitting are inverse, as long as no part holds the separator.\<close>

lemma split_join:
  "ws \<noteq> [] \<Longrightarrow> \<forall>w \<in> set ws. c \<notin> set w \<Longrightarrow> split_on c (join_with [c] ws) = ws"
proof (induction ws)
  case Nil
  then show ?case by simp
next
  case (Cons w ws)
  then show ?case by (cases ws) (auto simp: split_on_none split_on_append)
qed

lemma join_split: "join_with [c] (split_on c s) = s"
proof (induction s)
  case Nil
  then show ?case by simp
next
  case (Cons x s)
  obtain w ws where w: "split_on c s = w # ws" by (cases "split_on c s") auto
  show ?case
  proof (cases ws)
    case Nil
    with Cons w show ?thesis by simp
  next
    case (Cons v vs)
    with Cons.IH w show ?thesis by simp
  qed
qed

lemma replace_char_Nil [simp]: "replace_char old new s = [] \<longleftrightarrow> s = []"
  by (simp add: replace_char_def)

lemma replace_char_gone: "old \<noteq> new \<Longrightarrow> old \<notin> set (replace_char old new s)"
  by (auto simp: replace_char_def)

lemma replace_char_inj:
  assumes "new \<notin> set s" and "new \<notin> set t" and "replace_char old new s = replace_char old new t"
  shows "s = t"
proof -
  have len: "length s = length t" using assms(3) by (metis length_map replace_char_def)
  show ?thesis
  proof (rule nth_equalityI [OF len])
    fix i assume i: "i < length s"
    have "replace_char old new s ! i = replace_char old new t ! i" by (simp add: assms(3))
    with i len have "(if s ! i = old then new else s ! i) = (if t ! i = old then new else t ! i)"
      by (simp add: replace_char_def)
    moreover have "s ! i \<noteq> new" "t ! i \<noteq> new" using assms(1,2) i len by (metis nth_mem)+
    ultimately show "s ! i = t ! i" by (auto split: if_splits)
  qed
qed

lemma length_replace_char [simp]: "length (replace_char old new s) = length s"
  by (simp add: replace_char_def)

section \<open>strings.ToLower and strings.TrimSpace on ASCII\<close>

definition to_lower_char :: "char \<Rightarrow> char" where
  "to_lower_char c =
     (if 65 \<le> (of_char c :: nat) \<and> (of_char c :: nat) \<le> 90 then char_of ((of_char c :: nat) + 32)
      else c)"

definition strings_ToLower :: "string \<Rightarrow> string" where
  "strings_ToLower s = map to_lower_char s"

definition is_space :: "char \<Rightarrow> bool" where
  "is_space c \<longleftrightarrow> (of_char c :: nat) \<in> {9, 10, 11, 12, 13, 32}"

definition strings_TrimSpace :: "string \<Rightarrow> string" where
  "strings_TrimSpace s = rev (dropWhile is_space (rev (dropWhile is_space s)))"

section \<open>Decimal numbers: fmt's percent d and strconv.Atoi\<close>

definition digit_char :: "nat \<Rightarrow> char" where
  "digit_char d = char_of (48 + d)"

definition digit_val :: "char \<Rightarrow> nat option" where
  "digit_val c =
     (if 48 \<le> (of_char c :: nat) \<and> (of_char c :: nat) \<le> 57 then Some (of_char c - 48) else None)"

fun nat_dec :: "nat \<Rightarrow> string" where
  "nat_dec n = (if n < 10 then [digit_char n] else nat_dec (n div 10) @ [digit_char (n mod 10)])"

declare nat_dec.simps [simp del]

definition int_dec :: "int \<Rightarrow> string" where
  "int_dec i = (if i < 0 then ''-'' @ nat_dec (nat (- i)) else nat_dec (nat i))"

fun digits_val :: "nat \<Rightarrow> string \<Rightarrow> nat option" where
  "digits_val acc [] = Some acc"
| "digits_val acc (c # s) =
     (case digit_val c of None \<Rightarrow> None | Some d \<Rightarrow> digits_val (10 * acc + d) s)"

definition nat_of_dec :: "string \<Rightarrow> nat option" where
  "nat_of_dec s = (if s = [] then None else digits_val 0 s)"

text \<open>
  \<open>strconv.Atoi\<close> takes an optional sign and at least one digit, and rejects a value that does not
  fit the 64-bit \<open>int\<close>.
\<close>

definition strconv_Atoi :: "string \<Rightarrow> int res" where
  "strconv_Atoi s =
     (let neg = (take 1 s = ''-'');
          ds = (if take 1 s = ''-'' \<or> take 1 s = ''+'' then drop 1 s else s)
      in case nat_of_dec ds of
           None \<Rightarrow> Err (''strconv.ParseInt: parsing '' @ s @ '': invalid syntax'')
         | Some n \<Rightarrow>
             (let i = (if neg then - int n else int n)
              in if - (2 ^ 63) \<le> i \<and> i < 2 ^ 63 then Ok i
                 else Err (''strconv.ParseInt: parsing '' @ s @ '': value out of range'')))"

lemma digit_val_char: "d < 10 \<Longrightarrow> digit_val (digit_char d) = Some d"
  by (simp add: digit_val_def digit_char_def)

lemma digits_val_snoc:
  "digits_val acc (s @ [c]) =
     (case digits_val acc s of None \<Rightarrow> None
      | Some n \<Rightarrow> (case digit_val c of None \<Rightarrow> None | Some d \<Rightarrow> Some (10 * n + d)))"
  by (induction s arbitrary: acc) (auto split: option.splits)

lemma digits_val_dec: "digits_val 0 (nat_dec n) = Some n"
proof (induction n rule: nat_dec.induct)
  case (1 n)
  show ?case
  proof (cases "n < 10")
    case True
    then show ?thesis by (subst nat_dec.simps) (simp add: digit_val_char)
  next
    case False
    with 1 have "digits_val 0 (nat_dec (n div 10)) = Some (n div 10)" by simp
    with False show ?thesis
      by (subst nat_dec.simps) (simp add: digits_val_snoc digit_val_char)
  qed
qed

lemma nat_dec_nonempty [simp]: "nat_dec n \<noteq> []"
  by (subst nat_dec.simps) simp

lemma nat_of_dec_dec: "nat_of_dec (nat_dec n) = Some n"
  by (simp add: nat_of_dec_def digits_val_dec)

lemma nat_dec_digits: "c \<in> set (nat_dec n) \<Longrightarrow> 48 \<le> (of_char c :: nat) \<and> (of_char c :: nat) \<le> 57"
proof (induction n rule: nat_dec.induct)
  case (1 n)
  then show ?case
    by (subst (asm) (2) nat_dec.simps) (auto simp: digit_char_def split: if_splits)
qed

lemma nat_dec_hd_digit: "take 1 (nat_dec n) \<noteq> ''-'' \<and> take 1 (nat_dec n) \<noteq> ''+''"
proof (cases "nat_dec n")
  case Nil
  then show ?thesis by simp
next
  case (Cons c s)
  then have "48 \<le> (of_char c :: nat)"
    using nat_dec_digits [of c n] by simp
  with Cons show ?thesis by auto
qed

text \<open>Printing and parsing an \<open>int\<close> of the machine is the identity.\<close>

lemma Atoi_int_dec:
  assumes "- (2 ^ 63) \<le> i" and "i < 2 ^ 63"
  shows "strconv_Atoi (int_dec i) = Ok i"
proof (cases "i < 0")
  case True
  with assms show ?thesis
    by (simp add: strconv_Atoi_def int_dec_def nat_of_dec_dec)
next
  case False
  with assms nat_dec_hd_digit [of "nat i"] show ?thesis
    by (simp add: strconv_Atoi_def int_dec_def nat_of_dec_dec)
qed

lemma Atoi_range: "strconv_Atoi s = Ok i \<Longrightarrow> - (2 ^ 63) \<le> i \<and> i < 2 ^ 63"
  by (auto simp: strconv_Atoi_def Let_def split: option.splits if_splits)

lemma Atoi_no_panic: "\<not> is_panic (strconv_Atoi s)"
  by (simp add: strconv_Atoi_def Let_def split: option.splits)

end
