(* ===== verification/Docker_Types.thy ===== *)
theory Docker_Types
  imports Prelude
begin

text \<open>
  The responses of the Docker engine API (\<open>engine-api/types\<close>, \<open>go-connections/nat\<close>) that the
  program reads, with the fields it reads. The engine is outside the program: what it answers is an
  argument of the definitions that call it. The engine answers an inspect with the objects \<open>Config\<close>
  and \<open>NetworkSettings\<close> present, which the code relies on, so they are plain fields here.

  The calls the program makes to the engine and to the operating system are recorded in order as a
  list of \<open>effect\<close>s.
\<close>

record port_binding =
  HostIP :: string
  HostPort :: string

type_synonym port_map = "(string, port_binding list) gomap"

record endpoint_resource =
  IPv4Address :: string

record network_resource =
  nr_Name :: string
  nr_Containers :: "(string, endpoint_resource) gomap"

record container_config =
  cc_Hostname :: string
  cc_Domainname :: string
  cc_ExposedPorts :: "(string, unit) gomap"
  cc_Image :: string
  cc_Labels :: "(string, string) gomap"

record container_json =
  cj_ID :: string
  cj_Name :: string
  cj_Config :: container_config
  cj_Ports :: port_map
  cj_Networks :: "(string, unit) gomap"

record container =
  ct_ID :: string
  ct_Names :: "string list"
  ct_Image :: string
  ct_State :: string
  ct_Labels :: "(string, string) gomap"
  ct_Ports :: "int list"
  ct_Networks :: "(string, unit) gomap"

record event_message =
  em_Status :: string
  em_ID :: string
  em_Type :: string
  em_Action :: string
  em_Attributes :: "(string, string) gomap"

text \<open>Calls with an effect outside the program.\<close>

datatype effect =
    ContainerRestart string int
  | ContainerKill string string
  | CopyToContainer string string string string
  | NetworkConnect string string
  | NetworkDisconnect string string
  | Exec string "string list"
  | SleepMs int

text \<open>A computation with effects: what it did, and how it ended.\<close>

type_synonym 'a io = "effect list \<times> 'a res"

definition io_return :: "'a \<Rightarrow> 'a io" where
  "io_return x = ([], Ok x)"

definition io_do :: "effect \<Rightarrow> unit io" where
  "io_do e = ([e], Ok ())"

definition io_lift :: "'a res \<Rightarrow> 'a io" where
  "io_lift r = ([], r)"

definition io_bind :: "'a io \<Rightarrow> ('a \<Rightarrow> 'b io) \<Rightarrow> 'b io" where
  "io_bind m f =
     (case snd m of
        Ok x \<Rightarrow> (fst m @ fst (f x), snd (f x))
      | Err e \<Rightarrow> (fst m, Err e)
      | Panic p \<Rightarrow> (fst m, Panic p))"

lemma io_bind_return [simp]: "io_bind (io_return x) f = f x"
  by (simp add: io_bind_def io_return_def)

lemma io_bind_do [simp]: "io_bind (io_do e) f = (e # fst (f ()), snd (f ()))"
  by (simp add: io_bind_def io_do_def)

lemma io_bind_pair_Ok [simp]: "io_bind (es, Ok x) f = (es @ fst (f x), snd (f x))"
  by (simp add: io_bind_def)

lemma io_bind_pair_Err [simp]: "io_bind (es, Err e) f = (es, Err e)"
  by (simp add: io_bind_def)

lemma io_bind_pair_Panic [simp]: "io_bind (es, Panic p) f = (es, Panic p)"
  by (simp add: io_bind_def)

lemma fst_io_return [simp]: "fst (io_return x) = []" "snd (io_return x) = Ok x"
  by (simp_all add: io_return_def)

lemma io_lift_simps [simp]: "fst (io_lift r) = []" "snd (io_lift r) = r"
  by (simp_all add: io_lift_def)

lemma io_bind_lift_Ok [simp]: "io_bind (io_lift (Ok x)) f = f x"
  by (simp add: io_bind_def io_lift_def)

lemma io_bind_lift_fail [simp]:
  "io_bind (io_lift (Err e)) f = ([], Err e)" "io_bind (io_lift (Panic p)) f = ([], Panic p)"
  by (simp_all add: io_bind_def io_lift_def)

lemma io_do_simps [simp]: "fst (io_do e) = [e]" "snd (io_do e) = Ok ()"
  by (simp_all add: io_do_def)

lemma snd_io_bind: "snd (io_bind m f) = res_bind (snd m) (\<lambda>x. snd (f x))"
  by (cases m; cases "snd m") (simp_all add: io_bind_def)

lemma fst_io_bind:
  "fst (io_bind m f) = fst m @ (case snd m of Ok x \<Rightarrow> fst (f x) | Err e \<Rightarrow> [] | Panic p \<Rightarrow> [])"
  by (cases m; cases "snd m") (simp_all add: io_bind_def)

text \<open>A call whose error is only logged.\<close>

definition io_warn :: "unit io \<Rightarrow> unit io" where
  "io_warn m = (fst m, case snd m of Ok _ \<Rightarrow> Ok () | Err e \<Rightarrow> Ok () | Panic p \<Rightarrow> Panic p)"

lemma io_warn_Ok: "\<not> is_panic (snd m) \<Longrightarrow> io_warn m = (fst m, Ok ())"
  by (cases "snd m") (simp_all add: io_warn_def)

section \<open>What effects amount to\<close>

text \<open>The containers that were restarted or signalled, in order.\<close>

primrec signalled_id :: "effect \<Rightarrow> string option" where
  "signalled_id (ContainerRestart cid ms) = Some cid"
| "signalled_id (ContainerKill cid sig) = Some cid"
| "signalled_id (CopyToContainer cid dir file data) = None"
| "signalled_id (NetworkConnect net cid) = None"
| "signalled_id (NetworkDisconnect net cid) = None"
| "signalled_id (Exec path args) = None"
| "signalled_id (SleepMs ms) = None"

definition signalled :: "effect list \<Rightarrow> string list" where
  "signalled es = List.map_filter signalled_id es"

lemma signalled_Nil [simp]: "signalled [] = []"
  by (simp add: signalled_def)

lemma signalled_Cons [simp]:
  "signalled (e # es) = (case signalled_id e of None \<Rightarrow> [] | Some c \<Rightarrow> [c]) @ signalled es"
  by (simp add: signalled_def split: option.split)

lemma signalled_append [simp]: "signalled (es @ fs) = signalled es @ signalled fs"
  by (induction es) (simp_all split: option.split)

text \<open>The time spent asleep.\<close>

primrec slept_by :: "effect \<Rightarrow> int" where
  "slept_by (ContainerRestart cid ms) = 0"
| "slept_by (ContainerKill cid sig) = 0"
| "slept_by (CopyToContainer cid dir file data) = 0"
| "slept_by (NetworkConnect net cid) = 0"
| "slept_by (NetworkDisconnect net cid) = 0"
| "slept_by (Exec path args) = 0"
| "slept_by (SleepMs ms) = ms"

definition slept :: "effect list \<Rightarrow> int" where
  "slept es = sum_list (map slept_by es)"

lemma slept_simps [simp]:
  "slept [] = 0" "slept (e # es) = slept_by e + slept es" "slept (es @ fs) = slept es + slept fs"
  by (simp_all add: slept_def)

text \<open>
  The firewall: \<open>iptables -I\<close> inserts a rule at the head of its chain and \<open>iptables -D\<close> deletes the
  first rule that matches.
\<close>

type_synonym fw_rule = "string list"

fun fw_step :: "effect \<Rightarrow> fw_rule list \<Rightarrow> fw_rule list" where
  "fw_step (Exec path (d # rule)) fw =
     (if d = ''-I'' then rule # fw else if d = ''-D'' then remove1 rule fw else fw)"
| "fw_step e fw = fw"

definition firewall :: "effect list \<Rightarrow> fw_rule list \<Rightarrow> fw_rule list" where
  "firewall es fw = fold fw_step es fw"

lemma firewall_simps [simp]:
  "firewall [] fw = fw" "firewall (e # es) fw = firewall es (fw_step e fw)"
  "firewall (es @ fs) fw = firewall fs (firewall es fw)"
  by (simp_all add: firewall_def)

end
