(* ===== verification/Lb_Labels.thy ===== *)
theory Lb_Labels
  imports Go_Strings Docker_Types
begin

text \<open>
  The container labels: the constants of \<open>ext/ext.go\<close> and the readers of \<open>ext/lb/utils\<close>, one
  definition per Go function. A multi-valued label (\<open>interlock.alias_domain.0\<close>, \<open>.1\<close>, ...) is
  collected by a loop over the label map, so its reader takes the order of that loop.
\<close>

section \<open>Label names (ext/ext.go)\<close>

definition InterlockAppLabel :: string where
  "InterlockAppLabel = ''interlock.app''"

definition InterlockExtNameLabel :: string where
  "InterlockExtNameLabel = ''interlock.ext.name''"

definition InterlockHostnameLabel :: string where
  "InterlockHostnameLabel = ''interlock.hostname''"

definition InterlockNetworkLabel :: string where
  "InterlockNetworkLabel = ''interlock.network''"

definition InterlockDomainLabel :: string where
  "InterlockDomainLabel = ''interlock.domain''"

definition InterlockSSLLabel :: string where
  "InterlockSSLLabel = ''interlock.ssl''"

definition InterlockSSLOnlyLabel :: string where
  "InterlockSSLOnlyLabel = ''interlock.ssl_only''"

definition InterlockSSLBackendLabel :: string where
  "InterlockSSLBackendLabel = ''interlock.ssl_backend''"

definition InterlockSSLBackendTLSVerifyLabel :: string where
  "InterlockSSLBackendTLSVerifyLabel = ''interlock.ssl_backend_tls_verify''"

definition InterlockSSLCertLabel :: string where
  "InterlockSSLCertLabel = ''interlock.ssl_cert''"

definition InterlockSSLCertKeyLabel :: string where
  "InterlockSSLCertKeyLabel = ''interlock.ssl_cert_key''"

definition InterlockPortLabel :: string where
  "InterlockPortLabel = ''interlock.port''"

definition InterlockWebsocketEndpointLabel :: string where
  "InterlockWebsocketEndpointLabel = ''interlock.websocket_endpoint''"

definition InterlockAliasDomainLabel :: string where
  "InterlockAliasDomainLabel = ''interlock.alias_domain''"

definition InterlockHealthCheckLabel :: string where
  "InterlockHealthCheckLabel = ''interlock.health_check''"

definition InterlockHealthCheckIntervalLabel :: string where
  "InterlockHealthCheckIntervalLabel = ''interlock.health_check_interval''"

definition InterlockBalanceAlgorithmLabel :: string where
  "InterlockBalanceAlgorithmLabel = ''interlock.balance_algorithm''"

definition InterlockBackendOptionLabel :: string where
  "InterlockBackendOptionLabel = ''interlock.backend_option''"

definition InterlockIPHashLabel :: string where
  "InterlockIPHashLabel = ''interlock.ip_hash''"

definition InterlockContextRootLabel :: string where
  "InterlockContextRootLabel = ''interlock.context_root''"

definition InterlockContextRootRewriteLabel :: string where
  "InterlockContextRootRewriteLabel = ''interlock.context_root_rewrite''"

lemmas label_names =
  InterlockAppLabel_def InterlockExtNameLabel_def InterlockHostnameLabel_def
  InterlockNetworkLabel_def InterlockDomainLabel_def InterlockSSLLabel_def
  InterlockSSLOnlyLabel_def InterlockSSLBackendLabel_def InterlockSSLBackendTLSVerifyLabel_def
  InterlockSSLCertLabel_def InterlockSSLCertKeyLabel_def InterlockPortLabel_def
  InterlockWebsocketEndpointLabel_def InterlockAliasDomainLabel_def
  InterlockHealthCheckLabel_def InterlockHealthCheckIntervalLabel_def
  InterlockBalanceAlgorithmLabel_def InterlockBackendOptionLabel_def InterlockIPHashLabel_def
  InterlockContextRootLabel_def InterlockContextRootRewriteLabel_def

section \<open>Single-valued labels\<close>

definition Hostname :: "container_config \<Rightarrow> string" where
  "Hostname config =
     (case gm_get (cc_Labels config) InterlockHostnameLabel of
        Some v \<Rightarrow> v | None \<Rightarrow> cc_Hostname config)"

definition Domain :: "container_config \<Rightarrow> string" where
  "Domain config =
     (case gm_get (cc_Labels config) InterlockDomainLabel of
        Some v \<Rightarrow> v | None \<Rightarrow> cc_Domainname config)"

definition ContextRoot :: "container_config \<Rightarrow> string" where
  "ContextRoot config = gm_at [] (cc_Labels config) InterlockContextRootLabel"

definition ContextRootRewrite :: "container_config \<Rightarrow> bool" where
  "ContextRootRewrite config = gm_has (cc_Labels config) InterlockContextRootRewriteLabel"

definition SSLEnabled :: "container_config \<Rightarrow> bool" where
  "SSLEnabled config = gm_has (cc_Labels config) InterlockSSLLabel"

definition SSLOnly :: "container_config \<Rightarrow> bool" where
  "SSLOnly config = gm_has (cc_Labels config) InterlockSSLOnlyLabel"

definition SSLBackend :: "container_config \<Rightarrow> bool" where
  "SSLBackend config = gm_has (cc_Labels config) InterlockSSLBackendLabel"

definition SSLCertName :: "container_config \<Rightarrow> string" where
  "SSLCertName config = gm_at [] (cc_Labels config) InterlockSSLCertLabel"

definition SSLCertKey :: "container_config \<Rightarrow> string" where
  "SSLCertKey config = gm_at [] (cc_Labels config) InterlockSSLCertKeyLabel"

definition DefaultSSLBackendTLSVerify :: string where
  "DefaultSSLBackendTLSVerify = ''none''"

definition SSLBackendTLSVerify :: "container_config \<Rightarrow> string" where
  "SSLBackendTLSVerify config =
     gm_at DefaultSSLBackendTLSVerify (cc_Labels config) InterlockSSLBackendTLSVerifyLabel"

definition IPHash :: "container_config \<Rightarrow> bool" where
  "IPHash config = gm_has (cc_Labels config) InterlockIPHashLabel"

definition DefaultBalanceAlgorithm :: string where
  "DefaultBalanceAlgorithm = ''roundrobin''"

definition BalanceAlgorithm :: "container_config \<Rightarrow> string" where
  "BalanceAlgorithm config =
     gm_at DefaultBalanceAlgorithm (cc_Labels config) InterlockBalanceAlgorithmLabel"

definition HealthCheck :: "container_config \<Rightarrow> string" where
  "HealthCheck config = gm_at [] (cc_Labels config) InterlockHealthCheckLabel"

definition DefaultHealthCheckInterval :: int where
  "DefaultHealthCheckInterval = 5000"

definition HealthCheckInterval :: "container_config \<Rightarrow> int res" where
  "HealthCheckInterval config =
     (case gm_get (cc_Labels config) InterlockHealthCheckIntervalLabel of
        None \<Rightarrow> Ok DefaultHealthCheckInterval
      | Some v \<Rightarrow>
          if v = [] then Ok DefaultHealthCheckInterval
          else res_bind (strconv_Atoi v)
                 (\<lambda>i. Ok (if i \<noteq> 0 then i else DefaultHealthCheckInterval)))"

definition OverlayEnabled :: "container_config \<Rightarrow> string option" where
  "OverlayEnabled config = gm_get (cc_Labels config) InterlockNetworkLabel"

lemma HealthCheckInterval_no_panic: "\<not> is_panic (HealthCheckInterval config)"
  by (auto simp: HealthCheckInterval_def go_res Atoi_no_panic split: option.splits)

lemma HealthCheckInterval_not_Panic [simp]: "HealthCheckInterval config \<noteq> Panic p"
  using HealthCheckInterval_no_panic [of config] by auto

text \<open>The interval is a 64-bit value different from 0.\<close>

lemma HealthCheckInterval_range:
  "HealthCheckInterval config = Ok i \<Longrightarrow> i \<noteq> 0 \<and> - (2 ^ 63) \<le> i \<and> i < 2 ^ 63"
  by (auto simp: HealthCheckInterval_def DefaultHealthCheckInterval_def go_res
      split: option.splits if_splits dest: Atoi_range)

section \<open>Multi-valued labels\<close>

definition labels_matching :: "order \<Rightarrow> string \<Rightarrow> container_config \<Rightarrow> string list" where
  "labels_matching ord name config =
     map snd (filter (\<lambda>(l, v). strings_Index l name > -1) (go_range ord (cc_Labels config)))"

definition AliasDomains :: "order \<Rightarrow> container_config \<Rightarrow> string list" where
  "AliasDomains ord config = labels_matching ord InterlockAliasDomainLabel config"

definition WebsocketEndpoints :: "order \<Rightarrow> container_config \<Rightarrow> string list" where
  "WebsocketEndpoints ord config = labels_matching ord InterlockWebsocketEndpointLabel config"

definition BackendOptions :: "order \<Rightarrow> container_config \<Rightarrow> string list" where
  "BackendOptions ord config = labels_matching ord InterlockBackendOptionLabel config"

text \<open>
  Whatever the order of the loop, the values are those of the labels that contain the name, each
  as often as there are such labels.
\<close>

lemma mset_labels_matching:
  "mset (labels_matching ord name config) =
     image_mset snd (filter_mset (\<lambda>(l, v). sublist name l) (mset (cc_Labels config)))"
proof -
  have "(\<lambda>(l, v). strings_Index l name > -1) = (\<lambda>(l, v :: string). sublist name l)"
    by (auto simp: fun_eq_iff strings_Index_found)
  then show ?thesis by (simp add: labels_matching_def mset_filter)
qed

lemma set_labels_matching:
  "set (labels_matching ord name config) =
     {v. \<exists>l. (l, v) \<in> set (cc_Labels config) \<and> sublist name l}"
  by (auto simp: labels_matching_def strings_Index_found image_def)

section \<open>The name of a site\<close>

text \<open>
  The start of both generators (\<open>haproxy/generate.go\<close> and \<open>nginx/generate.go\<close>): the key under
  which a container is published. \<open>None\<close> is the \<open>continue\<close> of a container with neither a domain
  nor a context root.
\<close>

definition contextRootName :: "container_config \<Rightarrow> string" where
  "contextRootName config = replace_char CHR ''/'' CHR ''_'' (ContextRoot config)"

definition site_domain :: "container_config \<Rightarrow> string option" where
  "site_domain config =
     (let hostname = Hostname config; domain = Domain config; contextRoot = ContextRoot config
      in if domain = [] \<and> contextRoot = [] then None
         else if contextRoot \<noteq> [] then Some (contextRootName config)
         else if hostname \<noteq> domain \<and> hostname \<noteq> [] then Some (hostname @ ''.'' @ domain)
         else Some domain)"

lemma site_domain_nonempty: "site_domain config = Some d \<Longrightarrow> d \<noteq> []"
  by (auto simp: site_domain_def Let_def contextRootName_def split: if_splits)

end
