(* ===== verification/Go_Net.thy ===== *)
theory Go_Net
  imports Go_Strings "HOL-Library.Word"
begin

text \<open>
  \<open>net.ParseCIDR\<close> and \<open>IP.String\<close> of Go's standard library on IPv4 text. The program calls them on
  the \<open>IPv4Address\<close> of a network endpoint only, so text in the IPv6 syntax is an error here.
\<close>

datatype ipv4 = IPv4 "8 word" "8 word" "8 word" "8 word"

fun ip_String :: "ipv4 \<Rightarrow> string" where
  "ip_String (IPv4 a b c d) =
     join_with ''.'' [nat_dec (unat a), nat_dec (unat b), nat_dec (unat c), nat_dec (unat d)]"

definition parse_byte :: "string \<Rightarrow> 8 word option" where
  "parse_byte s =
     (case nat_of_dec s of None \<Rightarrow> None
      | Some n \<Rightarrow> if n \<le> 255 then Some (word_of_nat n) else None)"

definition parse_ipv4 :: "string \<Rightarrow> ipv4 option" where
  "parse_ipv4 s =
     (case map parse_byte (split_on CHR ''.'' s) of
        [Some a, Some b, Some c, Some d] \<Rightarrow> Some (IPv4 a b c d)
      | _ \<Rightarrow> None)"

definition net_ParseCIDR :: "string \<Rightarrow> (ipv4 \<times> nat) res" where
  "net_ParseCIDR s =
     (case split_on CHR ''/'' s of
        [ad, ml] \<Rightarrow>
          (case (parse_ipv4 ad, nat_of_dec ml) of
             (Some ip, Some n) \<Rightarrow>
               if n \<le> 32 then Ok (ip, n) else Err (''invalid CIDR address: '' @ s)
           | _ \<Rightarrow> Err (''invalid CIDR address: '' @ s))
      | _ \<Rightarrow> Err (''invalid CIDR address: '' @ s))"

lemma nat_dec_no_sep: "c \<in> {CHR ''.'', CHR ''/'', CHR '':''} \<Longrightarrow> c \<notin> set (nat_dec n)"
  using nat_dec_digits [of c n] by auto

lemma parse_byte_dec: "parse_byte (nat_dec (unat (w :: 8 word))) = Some w"
proof -
  have "unat w < 2 ^ LENGTH(8)" by (rule unsigned_less)
  then have "unat w < 256" by simp
  then show ?thesis by (simp add: parse_byte_def nat_of_dec_dec)
qed

lemma parse_ipv4_String: "parse_ipv4 (ip_String ip) = Some ip"
proof (cases ip)
  case (IPv4 a b c d)
  let ?ws = "[nat_dec (unat a), nat_dec (unat b), nat_dec (unat c), nat_dec (unat d)]"
  have "split_on CHR ''.'' (join_with [CHR ''.''] ?ws) = ?ws"
    by (rule split_join) (auto simp: nat_dec_no_sep)
  then show ?thesis
    unfolding parse_ipv4_def IPv4 ip_String.simps by (simp add: parse_byte_dec)
qed

lemma ip_String_no_slash: "CHR ''/'' \<notin> set (ip_String ip)"
  by (cases ip) (auto simp: nat_dec_no_sep)

text \<open>An address printed with a prefix length parses back.\<close>

lemma ParseCIDR_String:
  assumes "n \<le> 32"
  shows "net_ParseCIDR (ip_String ip @ ''/'' @ nat_dec n) = Ok (ip, n)"
proof -
  have "split_on CHR ''/'' (ip_String ip @ CHR ''/'' # nat_dec n) = [ip_String ip, nat_dec n]"
    by (simp only: split_on_append [OF ip_String_no_slash])
       (simp add: split_on_none nat_dec_no_sep)
  with assms show ?thesis
    by (simp add: net_ParseCIDR_def parse_ipv4_String nat_of_dec_dec)
qed

lemma ParseCIDR_no_panic: "\<not> is_panic (net_ParseCIDR s)"
  by (auto simp: net_ParseCIDR_def split: list.splits option.splits)

end
