(* ===== verification/Lb_Network.thy ===== *)
theory Lb_Network
  imports Lb_Labels Go_Net
begin

text \<open>
  \<open>ext/lb/utils/network.go\<close>: the address under which the proxy reaches a container, and the part
  of the two generators that chooses between the overlay network and the published port.
\<close>

section \<open>What the environment answers during one iteration of a generator\<close>

text \<open>
  The engine's answers to the two inspect calls of an iteration, and the orders in which the loops
  over maps of that iteration run. Each iteration has its own record, so the engine may change its
  answers, and the runtime its orders, from one container to the next.
\<close>

record gen_env =
  ContainerInspect :: "string \<Rightarrow> container_json res"
  NetworkInspect :: "string \<Rightarrow> network_resource res"
  ord_overlay :: order
  ord_published :: order
  ord_custom :: order
  ord_options :: order
  ord_aliases :: order
  ord_websockets :: order

section \<open>Addresses\<close>

text \<open>\<open>strings.Split(string(k), "/")[0]\<close>: the port number of \<open>80/tcp\<close>.\<close>

definition port_number :: "string \<Rightarrow> string" where
  "port_number k = hd (split_on CHR ''/'' k)"

definition BackendOverlayAddress ::
  "order \<Rightarrow> network_resource \<Rightarrow> container_json \<Rightarrow> string res" where
  "BackendOverlayAddress ord network containerInfo =
     (case gm_get (nr_Containers network) (cj_ID containerInfo) of
        None \<Rightarrow> Err (''container '' @ cj_ID containerInfo @ '' is not connected to network ''
                     @ nr_Name network)
      | Some c \<Rightarrow>
          res_bind (net_ParseCIDR (IPv4Address c)) (\<lambda>(ip, _).
            let exposed = (case List.find (\<lambda>(k, _). k \<noteq> []) (go_range ord (cj_Ports containerInfo)) of
                             None \<Rightarrow> [] | Some (k, _) \<Rightarrow> port_number k);
                port = (case gm_get (cc_Labels (cj_Config containerInfo)) InterlockPortLabel of
                          None \<Rightarrow> exposed | Some v \<Rightarrow> v)
            in Ok (ip_String ip @ '':'' @ port)))"

definition published_binding :: "order \<Rightarrow> port_map \<Rightarrow> port_binding" where
  "published_binding ord ports =
     (case List.find (\<lambda>(_, v). v \<noteq> []) (go_range ord ports) of
        None \<Rightarrow> \<lparr>HostIP = [], HostPort = []\<rparr> | Some (_, v) \<Rightarrow> hd v)"

definition BackendAddress ::
  "order \<Rightarrow> order \<Rightarrow> container_json \<Rightarrow> string \<Rightarrow> string res" where
  "BackendAddress ord ord' containerInfo backendOverrideAddress =
     (let ports = cj_Ports containerInfo;
          portDef = published_binding ord ports;
          portDef = (if backendOverrideAddress \<noteq> []
                     then portDef\<lparr>HostIP := backendOverrideAddress\<rparr> else portDef)
      in res_bind
           (case gm_get (cc_Labels (cj_Config containerInfo)) InterlockPortLabel of
              None \<Rightarrow> Ok portDef
            | Some interlockPort \<Rightarrow>
                (case List.find (\<lambda>(k, _). port_number k = interlockPort) (go_range ord' ports) of
                   None \<Rightarrow> Ok portDef
                 | Some (_, x) \<Rightarrow>
                     res_bind (go_first x) (\<lambda>port. Ok (portDef\<lparr>HostPort := HostPort port\<rparr>))))
           (\<lambda>portDef. Ok (HostIP portDef @ '':'' @ HostPort portDef)))"

text \<open>
  The address part of an iteration (\<open>haproxy/generate.go\<close>, \<open>nginx/generate.go\<close>): the address and
  the overlay network it is on, or \<open>None\<close> where the code logs and continues with the next container.
\<close>

definition container_addr ::
  "string \<Rightarrow> gen_env \<Rightarrow> container_json \<Rightarrow> (string \<times> string option) option res" where
  "container_addr backendOverrideAddress env cInfo =
     (case OverlayEnabled (cj_Config cInfo) of
        Some n \<Rightarrow>
          (case NetworkInspect env n of
             Panic p \<Rightarrow> Panic p
           | Err e \<Rightarrow> Ok None
           | Ok network \<Rightarrow>
               (case BackendOverlayAddress (ord_overlay env) network cInfo of
                  Panic p \<Rightarrow> Panic p
                | Err e \<Rightarrow> Ok None
                | Ok addr \<Rightarrow> Ok (Some (addr, Some n))))
      | None \<Rightarrow>
          if \<not> list_ex (\<lambda>(_, portBindings). portBindings \<noteq> []) (cj_Ports cInfo) then Ok None
          else (case BackendAddress (ord_published env) (ord_custom env) cInfo
                       backendOverrideAddress of
                  Panic p \<Rightarrow> Panic p
                | Err e \<Rightarrow> Ok None
                | Ok addr \<Rightarrow> Ok (Some (addr, None))))"

section \<open>Overlay addresses\<close>

lemma BackendOverlayAddress_no_panic: "\<not> is_panic (BackendOverlayAddress ord network cInfo)"
  by (auto simp: BackendOverlayAddress_def go_res ParseCIDR_no_panic Let_def split: option.splits)

text \<open>With a port label the address does not depend on the order of the ports.\<close>

lemma BackendOverlayAddress_label:
  assumes "gm_get (cc_Labels (cj_Config cInfo)) InterlockPortLabel = Some p"
    and "gm_get (nr_Containers network) (cj_ID cInfo) = Some c"
    and "net_ParseCIDR (IPv4Address c) = Ok (ip, n)"
  shows "BackendOverlayAddress ord network cInfo = Ok (ip_String ip @ '':'' @ p)"
  using assms by (simp add: BackendOverlayAddress_def)

text \<open>Without one it is some exposed port, and the only one where there is one.\<close>

lemma BackendOverlayAddress_exposed:
  assumes "gm_get (cc_Labels (cj_Config cInfo)) InterlockPortLabel = None"
    and "BackendOverlayAddress ord network cInfo = Ok a"
  shows "\<exists>ip p. a = ip_String ip @ '':'' @ p \<and>
    (p = [] \<or> (\<exists>k v. (k, v) \<in> set (cj_Ports cInfo) \<and> k \<noteq> [] \<and> p = port_number k))"
proof -
  from assms obtain ip where a: "a = ip_String ip @ '':'' @
      (case List.find (\<lambda>(k, _). k \<noteq> []) (go_range ord (cj_Ports cInfo)) of
         None \<Rightarrow> [] | Some (k, _) \<Rightarrow> port_number k)"
    by (auto simp: BackendOverlayAddress_def go_res split: option.splits)
  show ?thesis
  proof (cases "List.find (\<lambda>(k, _). k \<noteq> []) (go_range ord (cj_Ports cInfo))")
    case None
    with a show ?thesis by auto
  next
    case (Some kv)
    then have "kv \<in> set (cj_Ports cInfo)" "fst kv \<noteq> []"
      by (auto dest!: find_go_range_Some)
    with a Some show ?thesis by (cases kv) auto
  qed
qed

section \<open>Published addresses\<close>

lemma published_binding_cases:
  assumes "list_ex (\<lambda>(_, v). v \<noteq> []) ports"
  shows "\<exists>k v. (k, v) \<in> set ports \<and> v \<noteq> [] \<and> published_binding ord ports = hd v"
proof (cases "List.find (\<lambda>(_, v). v \<noteq> []) (go_range ord ports)")
  case None
  with assms show ?thesis by (auto simp: find_go_range_None list_ex_iff)
next
  case (Some kv)
  then have "kv \<in> set ports" "snd kv \<noteq> []" by (auto dest!: find_go_range_Some)
  with Some show ?thesis by (cases kv) (auto simp: published_binding_def)
qed

lemma published_binding_unique:
  assumes "gm_wf ports" and "gm_get ports k = Some v" and "v \<noteq> []"
    and "\<And>k' v'. (k', v') \<in> set ports \<Longrightarrow> v' \<noteq> [] \<Longrightarrow> k' = k"
  shows "published_binding ord ports = hd v"
proof -
  have "List.find (\<lambda>(_, v). v \<noteq> []) (go_range ord ports) = Some (k, v)"
    by (rule find_range_key) (use assms in auto)
  then show ?thesis by (simp add: published_binding_def)
qed

text \<open>
  \<open>BackendAddress\<close> never returns an error; it panics exactly where the port of the label is exposed
  but not published and is the one the loop finds.
\<close>

lemma BackendAddress_no_err: "BackendAddress ord ord' cInfo override \<noteq> Err e"
  by (auto simp: BackendAddress_def Let_def go_first_def split: option.splits list.splits)

lemma BackendAddress_panics_iff:
  "is_panic (BackendAddress ord ord' cInfo override) \<longleftrightarrow>
     (\<exists>p k. gm_get (cc_Labels (cj_Config cInfo)) InterlockPortLabel = Some p \<and>
        List.find (\<lambda>(k, _). port_number k = p) (go_range ord' (cj_Ports cInfo)) = Some (k, []))"
  by (auto simp: BackendAddress_def Let_def go_res split: option.splits)

lemma BackendAddress_label:
  assumes "gm_get (cc_Labels (cj_Config cInfo)) InterlockPortLabel = Some p"
    and wf: "gm_wf (cj_Ports cInfo)"
    and k: "gm_get (cj_Ports cInfo) k = Some (b # bs)" "port_number k = p"
    and only: "\<And>k' v'. (k', v') \<in> set (cj_Ports cInfo) \<Longrightarrow> port_number k' = p \<Longrightarrow> k' = k"
  shows "\<exists>ip. BackendAddress ord ord' cInfo override = Ok (ip @ '':'' @ HostPort b)
    \<and> (override \<noteq> [] \<longrightarrow> ip = override)"
proof -
  have "List.find (\<lambda>(k, _). port_number k = p) (go_range ord' (cj_Ports cInfo)) = Some (k, b # bs)"
    by (rule find_range_key) (use wf k only in auto)
  with assms(1) show ?thesis
    by (simp add: BackendAddress_def Let_def go_first_def)
qed

lemma BackendAddress_published:
  assumes "gm_get (cc_Labels (cj_Config cInfo)) InterlockPortLabel = None"
  shows "BackendAddress ord ord' cInfo override =
    Ok ((if override \<noteq> [] then override else HostIP (published_binding ord (cj_Ports cInfo)))
        @ '':'' @ HostPort (published_binding ord (cj_Ports cInfo)))"
  using assms by (simp add: BackendAddress_def Let_def)

lemma container_addr_no_err: "container_addr override env cInfo \<noteq> Err e"
  by (auto simp: container_addr_def split: option.splits res.splits)

text \<open>A container on an overlay network gives the network's name, any other none.\<close>

lemma container_addr_network:
  "container_addr override env cInfo = Ok (Some (addr, net)) \<Longrightarrow> net = OverlayEnabled (cj_Config cInfo)"
  by (auto simp: container_addr_def split: option.splits res.splits if_splits)

text \<open>
  What keeps the address part from panicking: the engine client does not panic, and the port of a
  port label is published where it is exposed.
\<close>

definition label_port_published :: "container_json \<Rightarrow> bool" where
  "label_port_published cInfo \<longleftrightarrow>
     (case gm_get (cc_Labels (cj_Config cInfo)) InterlockPortLabel of
        None \<Rightarrow> True
      | Some p \<Rightarrow> list_all (\<lambda>(k, v). port_number k = p \<longrightarrow> v \<noteq> []) (cj_Ports cInfo))"

lemma BackendAddress_no_panic:
  assumes "label_port_published cInfo"
  shows "\<not> is_panic (BackendAddress ord ord' cInfo override)"
proof
  assume "is_panic (BackendAddress ord ord' cInfo override)"
  then obtain p k where p: "gm_get (cc_Labels (cj_Config cInfo)) InterlockPortLabel = Some p"
    and f: "List.find (\<lambda>(k, _). port_number k = p) (go_range ord' (cj_Ports cInfo)) = Some (k, [])"
    by (auto simp: BackendAddress_panics_iff)
  from f have "(k, []) \<in> set (cj_Ports cInfo) \<and> port_number k = p"
    by (auto dest!: find_go_range_Some)
  with assms p show False by (auto simp: label_port_published_def list_all_iff)
qed

lemma container_addr_no_panic:
  assumes "label_port_published cInfo"
    and "\<And>n. OverlayEnabled (cj_Config cInfo) = Some n \<Longrightarrow> \<not> is_panic (NetworkInspect env n)"
  shows "\<not> is_panic (container_addr override env cInfo)"
proof (cases "OverlayEnabled (cj_Config cInfo)")
  case None
  moreover have "\<not> is_panic (BackendAddress (ord_published env) (ord_custom env) cInfo override)"
    by (rule BackendAddress_no_panic [OF assms(1)])
  ultimately show ?thesis by (auto simp: container_addr_def is_panic_iff split: res.split)
next
  case (Some n)
  moreover have "\<not> is_panic (NetworkInspect env n)" by (rule assms(2) [OF Some])
  moreover have "\<not> is_panic (BackendOverlayAddress (ord_overlay env) network cInfo)" for network
    by (rule BackendOverlayAddress_no_panic)
  ultimately show ?thesis
    by (cases "NetworkInspect env n") (auto simp: container_addr_def is_panic_iff split: res.split)
qed

lemma container_addr_panics:
  assumes "OverlayEnabled (cj_Config cInfo) = None"
    and "list_ex (\<lambda>(_, v). v \<noteq> []) (cj_Ports cInfo)"
    and "gm_get (cc_Labels (cj_Config cInfo)) InterlockPortLabel = Some p"
    and "gm_wf (cj_Ports cInfo)"
    and "gm_get (cj_Ports cInfo) k = Some []" "port_number k = p"
    and "\<And>k' v'. (k', v') \<in> set (cj_Ports cInfo) \<Longrightarrow> port_number k' = p \<Longrightarrow> k' = k"
  shows "is_panic (container_addr override env cInfo)"
proof -
  have "List.find (\<lambda>(k, _). port_number k = p) (go_range (ord_custom env) (cj_Ports cInfo))
      = Some (k, [])"
    by (rule find_range_key) (use assms in auto)
  with assms(3) have "is_panic (BackendAddress (ord_published env) (ord_custom env) cInfo override)"
    by (auto simp: BackendAddress_panics_iff)
  with assms(1,2) show ?thesis
    by (auto simp: container_addr_def is_panic_iff split: res.splits)
qed

end
