(* ===== verification/Gen_Loop.thy ===== *)
theory Gen_Loop
  imports Prelude
begin

text \<open>
  Both generators are one loop over the containers that fills a family of maps keyed by the domain
  of a site. The maps are filled in three ways: by appending (the upstreams), by overwriting (the
  attributes of a host) and by writing only where nothing is there (the health check). This theory
  holds the loop and one interface per way: what an iteration promises of a map, and what the whole
  loop then makes of it, proved once. \<open>Haproxy\<close> and \<open>Nginx\<close> interpret the interfaces on their maps.
\<close>

section \<open>The loop\<close>

text \<open>An iteration gets the position of its container, which selects what the environment answers.\<close>

primrec gen_loop :: "(nat \<Rightarrow> 'c \<Rightarrow> 's \<Rightarrow> 's res) \<Rightarrow> nat \<Rightarrow> 'c list \<Rightarrow> 's \<Rightarrow> 's res" where
  "gen_loop step i [] s = Ok s"
| "gen_loop step i (c # cs) s = res_bind (step i c s) (gen_loop step (Suc i) cs)"

lemma gen_loop_append:
  "gen_loop step i (xs @ ys) s =
     res_bind (gen_loop step i xs s) (gen_loop step (i + length xs) ys)"
proof (induction xs arbitrary: i s)
  case Nil
  then show ?case by simp
next
  case (Cons x xs)
  show ?case by (cases "step i x s") (simp_all add: Cons.IH)
qed

lemma gen_loop_cong:
  assumes "\<And>j c. j < length cs \<Longrightarrow> step (i + j) (cs ! j) = step' (k + j) (cs ! j)"
  shows "gen_loop step i cs s = gen_loop step' k cs s"
  using assms
proof (induction cs arbitrary: i k s)
  case Nil
  then show ?case by simp
next
  case (Cons c cs)
  have "step i c = step' k c" using Cons.prems [of 0] by simp
  moreover have "gen_loop step (Suc i) cs t = gen_loop step' (Suc k) cs t" for t
    by (rule Cons.IH) (use Cons.prems [of "Suc _"] in force)
  ultimately show ?case by (cases "step' k c s") simp_all
qed

text \<open>What the containers write, in the order of the loop, and the part of it for one key.\<close>

definition all_writes :: "(nat \<Rightarrow> 'c \<Rightarrow> ('k \<times> 'w) list) \<Rightarrow> nat \<Rightarrow> 'c list \<Rightarrow> ('k \<times> 'w) list" where
  "all_writes w i cs = concat (map (\<lambda>(j, c). w j c) (enumerate i cs))"

definition values_at :: "'k \<Rightarrow> ('k \<times> 'w) list \<Rightarrow> 'w list" where
  "values_at k ps = map snd (filter (\<lambda>p. fst p = k) ps)"

lemma all_writes_Nil [simp]: "all_writes w i [] = []"
  by (simp add: all_writes_def)

lemma all_writes_Cons [simp]: "all_writes w i (c # cs) = w i c @ all_writes w (Suc i) cs"
  by (simp add: all_writes_def)

lemma all_writes_append:
  "all_writes w i (xs @ ys) = all_writes w i xs @ all_writes w (i + length xs) ys"
  by (induction xs arbitrary: i) simp_all

lemma values_at_Nil [simp]: "values_at k [] = []"
  by (simp add: values_at_def)

lemma values_at_append [simp]: "values_at k (xs @ ys) = values_at k xs @ values_at k ys"
  by (simp add: values_at_def)

lemma values_at_Cons [simp]:
  "values_at k ((k', v) # ps) = (if k' = k then v # values_at k ps else values_at k ps)"
  by (simp add: values_at_def)

lemma set_values_at: "set (values_at k ps) = {v. (k, v) \<in> set ps}"
  by (force simp: values_at_def)

lemma values_at_empty: "values_at k ps = [] \<longleftrightarrow> k \<notin> fst ` set ps"
  by (auto simp: values_at_def filter_empty_conv)

text \<open>The loop returns an error or panics where the first failing iteration does.\<close>

lemma gen_loop_no_panic:
  assumes "\<And>j s. j < length cs \<Longrightarrow> \<not> is_panic (step (i + j) (cs ! j) s)"
  shows "\<not> is_panic (gen_loop step i cs s)"
  using assms
proof (induction cs arbitrary: i s)
  case Nil
  then show ?case by simp
next
  case (Cons c cs)
  have "\<not> is_panic (step i c s)" for s
    using Cons.prems [of 0 s] by simp
  moreover have "\<not> is_panic (gen_loop step (Suc i) cs s)" for s
    by (rule Cons.IH) (use Cons.prems [of "Suc _"] in force)
  ultimately show ?case by (simp add: go_res)
qed

lemma gen_loop_no_err:
  assumes "\<And>i c s e. step i c s \<noteq> Err e"
  shows "gen_loop step i cs s \<noteq> Err e"
proof (induction cs arbitrary: i s)
  case Nil
  then show ?case by simp
next
  case (Cons c cs)
  then show ?case using assms by (cases "step i c s") auto
qed

lemma set_all_writes: "p \<in> set (all_writes w i cs) \<longleftrightarrow> (\<exists>j < length cs. p \<in> set (w (i + j) (cs ! j)))"
proof (induction cs arbitrary: i)
  case Nil
  then show ?case by simp
next
  case (Cons c cs)
  have "(\<exists>j < length (c # cs). p \<in> set (w (i + j) ((c # cs) ! j)))
      \<longleftrightarrow> p \<in> set (w i c) \<or> (\<exists>j < length cs. p \<in> set (w (i + Suc j) (cs ! j)))"
    by (auto simp: less_Suc_eq_0_disj)
  with Cons [of "Suc i"] show ?case by simp
qed

text \<open>Writing one value under every key of a list.\<close>

lemma values_at_const: "values_at k (map (\<lambda>a. (a, v)) as) = replicate (count_list as k) v"
  by (induction as) auto

lemma fold_gm_append:
  "gm_at [] (fold (\<lambda>a. gm_append a v) as m) k = gm_at [] m k @ values_at k (map (\<lambda>a. (a, v)) as)"
  "gm_keys (fold (\<lambda>a. gm_append a v) as m) = gm_keys m \<union> set as"
  "gm_wf m \<Longrightarrow> gm_wf (fold (\<lambda>a. gm_append a v) as m)"
  by (induction as arbitrary: m) (auto simp: go_map)

lemma fold_gm_set:
  "gm_get (fold (\<lambda>a. gm_set a v) as m) k =
     (if values_at k (map (\<lambda>a. (a, v)) as) = [] then gm_get m k
      else Some (last (values_at k (map (\<lambda>a. (a, v)) as))))"
  "gm_keys (fold (\<lambda>a. gm_set a v) as m) = gm_keys m \<union> set as"
  "gm_wf m \<Longrightarrow> gm_wf (fold (\<lambda>a. gm_set a v) as m)"
  by (induction as arbitrary: m) (auto simp: go_map)

lemma values_at_same: "values_at k (map (\<lambda>v. (d, v)) vs) = (if d = k then vs else [])"
  by (induction vs) auto

lemma fold_gm_append_get:
  "gm_get (fold (gm_append d) vs m) k =
     (if k = d \<and> vs \<noteq> [] then Some (gm_at [] m d @ vs) else gm_get m k)"
proof (induction vs arbitrary: m)
  case Nil
  then show ?case by simp
next
  case (Cons v vs)
  then show ?case by (simp add: gm_append_def go_map)
qed

lemma fold_gm_append_one:
  "gm_at [] (fold (gm_append d) vs m) k = gm_at [] m k @ values_at k (map (\<lambda>v. (d, v)) vs)"
  "gm_keys (fold (gm_append d) vs m) = gm_keys m \<union> fst ` set (map (\<lambda>v. (d, v)) vs)"
  "gm_wf m \<Longrightarrow> gm_wf (fold (gm_append d) vs m)"
  by (induction vs arbitrary: m) (auto simp: go_map values_at_same)

text \<open>The value that stays, with the zero value where nothing is written.\<close>

definition last_or :: "'v \<Rightarrow> 'v list \<Rightarrow> 'v" where
  "last_or z vs = (if vs = [] then z else last vs)"

definition first_or :: "'v \<Rightarrow> 'v list \<Rightarrow> 'v" where
  "first_or z vs = (if vs = [] then z else hd vs)"

lemma last_or_simps [simp]: "last_or z [] = z" "last_or z (vs @ [v]) = v"
  by (simp_all add: last_or_def)

section \<open>Interfaces of the maps the loop fills\<close>

text \<open>Common to the three: the keys of the map are those written.\<close>

locale host_table =
  fixes step :: "nat \<Rightarrow> 'c \<Rightarrow> 's \<Rightarrow> 's res"
    and tab :: "'s \<Rightarrow> ('k, 'v) gomap"
    and writes :: "nat \<Rightarrow> 'c \<Rightarrow> ('k \<times> 'w) list"
  assumes step_wf: "step i c s = Ok s' \<Longrightarrow> gm_wf (tab s) \<Longrightarrow> gm_wf (tab s')"
    and step_keys: "step i c s = Ok s' \<Longrightarrow>
      gm_keys (tab s') = gm_keys (tab s) \<union> fst ` set (writes i c)"
begin

lemma loop_wf: "gen_loop step i cs s = Ok s' \<Longrightarrow> gm_wf (tab s) \<Longrightarrow> gm_wf (tab s')"
  by (induction cs arbitrary: i s) (auto simp: go_res dest: step_wf)

lemma loop_keys:
  "gen_loop step i cs s = Ok s' \<Longrightarrow>
     gm_keys (tab s') = gm_keys (tab s) \<union> fst ` set (all_writes writes i cs)"
proof (induction cs arbitrary: i s)
  case Nil
  then show ?case by simp
next
  case (Cons c cs)
  then obtain t where "step i c s = Ok t" "gen_loop step (Suc i) cs t = Ok s'"
    by (auto simp: go_res)
  with Cons.IH [of "Suc i" t] show ?case by (auto simp: step_keys)
qed

end

text \<open>A map to lists to which an iteration appends: the loop concatenates, in order.\<close>

locale append_table = host_table step tab writes
  for step :: "nat \<Rightarrow> 'c \<Rightarrow> 's \<Rightarrow> 's res"
    and tab :: "'s \<Rightarrow> ('k, 'w list) gomap"
    and writes :: "nat \<Rightarrow> 'c \<Rightarrow> ('k \<times> 'w) list" +
  assumes step_append: "step i c s = Ok s' \<Longrightarrow>
    gm_at [] (tab s') k = gm_at [] (tab s) k @ values_at k (writes i c)"
begin

lemma loop_append:
  "gen_loop step i cs s = Ok s' \<Longrightarrow>
     gm_at [] (tab s') k = gm_at [] (tab s) k @ values_at k (all_writes writes i cs)"
proof (induction cs arbitrary: i s)
  case Nil
  then show ?case by simp
next
  case (Cons c cs)
  then obtain t where "step i c s = Ok t" "gen_loop step (Suc i) cs t = Ok s'"
    by (auto simp: go_res)
  with Cons.IH [of "Suc i" t] show ?case by (simp add: step_append)
qed

end

text \<open>A map an iteration overwrites: the last write to a key stays.\<close>

definition overwrite :: "'v option \<Rightarrow> 'v list \<Rightarrow> 'v option" where
  "overwrite old vs = (if vs = [] then old else Some (last vs))"

lemma overwrite_Nil [simp]: "overwrite old [] = old"
  by (simp add: overwrite_def)

lemma overwrite_single [simp]: "overwrite old [v] = Some v"
  by (simp add: overwrite_def)

lemma overwrite_append [simp]: "overwrite (overwrite old xs) ys = overwrite old (xs @ ys)"
  by (simp add: overwrite_def)

lemma gm_at_overwrite: "gm_get m k = overwrite None vs \<Longrightarrow> gm_at z m k = last_or z vs"
  by (simp add: gm_at_def overwrite_def last_or_def)

locale overwrite_table = host_table step tab writes
  for step :: "nat \<Rightarrow> 'c \<Rightarrow> 's \<Rightarrow> 's res"
    and tab :: "'s \<Rightarrow> ('k, 'w) gomap"
    and writes :: "nat \<Rightarrow> 'c \<Rightarrow> ('k \<times> 'w) list" +
  assumes step_overwrite: "step i c s = Ok s' \<Longrightarrow>
    gm_get (tab s') k = overwrite (gm_get (tab s) k) (values_at k (writes i c))"
begin

lemma loop_overwrite:
  "gen_loop step i cs s = Ok s' \<Longrightarrow>
     gm_get (tab s') k = overwrite (gm_get (tab s) k) (values_at k (all_writes writes i cs))"
proof (induction cs arbitrary: i s)
  case Nil
  then show ?case by simp
next
  case (Cons c cs)
  then obtain t where "step i c s = Ok t" "gen_loop step (Suc i) cs t = Ok s'"
    by (auto simp: go_res)
  with Cons.IH [of "Suc i" t] show ?case by (simp add: step_overwrite)
qed

end

text \<open>A map an iteration writes only where the key is new: the first write to a key stays.\<close>

definition keep_first :: "'v option \<Rightarrow> 'v list \<Rightarrow> 'v option" where
  "keep_first old vs = (case old of Some v \<Rightarrow> Some v | None \<Rightarrow> if vs = [] then None else Some (hd vs))"

lemma keep_first_Nil [simp]: "keep_first old [] = old"
  by (simp add: keep_first_def split: option.split)

lemma keep_first_append [simp]: "keep_first (keep_first old xs) ys = keep_first old (xs @ ys)"
  by (simp add: keep_first_def split: option.split)

lemma gm_at_keep_first: "gm_get m k = keep_first None vs \<Longrightarrow> gm_at z m k = first_or z vs"
  by (simp add: gm_at_def keep_first_def first_or_def)

locale first_table = host_table step tab writes
  for step :: "nat \<Rightarrow> 'c \<Rightarrow> 's \<Rightarrow> 's res"
    and tab :: "'s \<Rightarrow> ('k, 'w) gomap"
    and writes :: "nat \<Rightarrow> 'c \<Rightarrow> ('k \<times> 'w) list" +
  assumes step_first: "step i c s = Ok s' \<Longrightarrow>
    gm_get (tab s') k = keep_first (gm_get (tab s) k) (values_at k (writes i c))"
begin

lemma loop_first:
  "gen_loop step i cs s = Ok s' \<Longrightarrow>
     gm_get (tab s') k = keep_first (gm_get (tab s) k) (values_at k (all_writes writes i cs))"
proof (induction cs arbitrary: i s)
  case Nil
  then show ?case by simp
next
  case (Cons c cs)
  then obtain t where "step i c s = Ok t" "gen_loop step (Suc i) cs t = Ok s'"
    by (auto simp: go_res)
  with Cons.IH [of "Suc i" t] show ?case by (simp add: step_first)
qed

end

text \<open>
  A map to lists where the first write to a key starts the list with the key itself, and further
  values are appended (the server names of a site).
\<close>

locale seeded_table = host_table step tab seeds
  for step :: "nat \<Rightarrow> 'c \<Rightarrow> 's \<Rightarrow> 's res"
    and tab :: "'s \<Rightarrow> ('k, 'k list) gomap"
    and seeds :: "nat \<Rightarrow> 'c \<Rightarrow> ('k \<times> unit) list" +
  fixes apps :: "nat \<Rightarrow> 'c \<Rightarrow> ('k \<times> 'k) list"
  assumes apps_seeded: "fst ` set (apps i c) \<subseteq> fst ` set (seeds i c)"
    and step_seeded: "step i c s = Ok s' \<Longrightarrow>
      gm_get (tab s') k =
        (case gm_get (tab s) k of
           Some v \<Rightarrow> Some (v @ values_at k (apps i c))
         | None \<Rightarrow> if k \<in> fst ` set (seeds i c) then Some (k # values_at k (apps i c)) else None)"
begin

lemma unseeded_apps: "k \<notin> fst ` set (seeds i c) \<Longrightarrow> values_at k (apps i c) = []"
  using apps_seeded [of i c] by (auto simp: values_at_empty)

lemma loop_seeded:
  "gen_loop step i cs s = Ok s' \<Longrightarrow>
     gm_get (tab s') k =
       (case gm_get (tab s) k of
          Some v \<Rightarrow> Some (v @ values_at k (all_writes apps i cs))
        | None \<Rightarrow> if k \<in> fst ` set (all_writes seeds i cs)
                  then Some (k # values_at k (all_writes apps i cs)) else None)"
proof (induction cs arbitrary: i s)
  case Nil
  then show ?case by (simp split: option.split)
next
  case (Cons c cs)
  then obtain t where t: "step i c s = Ok t" and l: "gen_loop step (Suc i) cs t = Ok s'"
    by (auto simp: go_res)
  note IH = Cons.IH [OF l] and st = step_seeded [OF t, of k]
  show ?case
  proof (cases "gm_get (tab s) k")
    case (Some v)
    with IH st show ?thesis by simp
  next
    case None
    then show ?thesis
      using IH st by (cases "k \<in> fst ` set (seeds i c)") (auto simp: unseeded_apps)
  qed
qed

end

end
