(* ===== verification/Ext_Config.thy ===== *)
theory Ext_Config
  imports Prelude
begin

text \<open>
  \<open>config/config.go\<close> and \<open>config/utils.go\<close>: the configuration of the server and of its extensions,
  and the defaults. The TOML decoder is a third-party package and an argument of \<open>ParseConfig\<close>.
  The extensions are pointers in the code; each is visited once and nothing else refers to it while
  the defaults are set, so the model returns the updated record.
\<close>

section \<open>Configuration data\<close>

record rule =
  Rule_Type :: string
  Rule_Regex :: string

record ext_config =
  Name :: string
  ConfigPath :: string
  ConfigBasePath :: string
  PidPath :: string
  TemplatePath :: string
  BackendOverrideAddress :: string
  ConnectTimeout :: int
  ServerTimeout :: int
  ClientTimeout :: int
  MaxConn :: int
  Port :: int
  SyslogAddr :: string
  AdminUser :: string
  AdminPass :: string
  SSLCertPath :: string
  SSLCert :: string
  SSLPort :: int
  SSLOpts :: string
  SSLDefaultDHParam :: int
  SSLServerVerify :: string
  DHParam :: bool
  DHParamPath :: string
  NginxPlusEnabled :: bool
  User :: string
  WorkerProcesses :: int
  RLimitNoFile :: int
  ProxyConnectTimeout :: int
  ProxySendTimeout :: int
  ProxyReadTimeout :: int
  SendTimeout :: int
  SSLCiphers :: string
  SSLProtocols :: string
  StatsInterval :: string
  StatsBackendType :: string
  StatsPrometheusPushGatewayURL :: string
  StatsInfluxDBAddress :: string
  StatsInfluxDBUser :: string
  StatsInfluxDBPassword :: string
  StatsInfluxDBDatabase :: string
  StatsInfluxDBPrecision :: string
  Rules :: "(string, rule) gomap"

record config =
  ListenAddr :: string
  DockerURL :: string
  TLSCACert :: string
  TLSCert :: string
  TLSKey :: string
  AllowInsecure :: bool
  EnableMetrics :: bool
  PollInterval :: string
  Extensions :: "ext_config list"
  cfg_Rules :: "(string, rule) gomap"

text \<open>A configuration with nothing set.\<close>

definition zero_ext_config :: ext_config where
  "zero_ext_config = \<lparr>Name = [], ConfigPath = [], ConfigBasePath = [], PidPath = [], TemplatePath = [],
     BackendOverrideAddress = [], ConnectTimeout = 0, ServerTimeout = 0, ClientTimeout = 0, MaxConn = 0,
     Port = 0, SyslogAddr = [], AdminUser = [], AdminPass = [], SSLCertPath = [], SSLCert = [], SSLPort = 0,
     SSLOpts = [], SSLDefaultDHParam = 0, SSLServerVerify = [], DHParam = False, DHParamPath = [],
     NginxPlusEnabled = False, User = [], WorkerProcesses = 0, RLimitNoFile = 0, ProxyConnectTimeout = 0,
     ProxySendTimeout = 0, ProxyReadTimeout = 0, SendTimeout = 0, SSLCiphers = [], SSLProtocols = [],
     StatsInterval = [], StatsBackendType = [], StatsPrometheusPushGatewayURL = [],
     StatsInfluxDBAddress = [], StatsInfluxDBUser = [], StatsInfluxDBPassword = [],
     StatsInfluxDBDatabase = [], StatsInfluxDBPrecision = [], Rules = []\<rparr>"

section \<open>Defaults\<close>

text \<open>\<open>if c.X == 0 { c.X = d }\<close>, and the same for the empty string.\<close>

definition or_int :: "int \<Rightarrow> int \<Rightarrow> int" where
  "or_int d v = (if v = 0 then d else v)"

definition or_str :: "string \<Rightarrow> string \<Rightarrow> string" where
  "or_str d v = (if v = [] then d else v)"

definition SetHAProxyConfigDefaults :: "ext_config \<Rightarrow> ext_config" where
  "SetHAProxyConfigDefaults c = c\<lparr>
     ConnectTimeout := or_int 5000 (ConnectTimeout c),
     ServerTimeout := or_int 10000 (ServerTimeout c),
     ClientTimeout := or_int 10000 (ClientTimeout c),
     AdminUser := or_str ''admin'' (AdminUser c),
     AdminPass := or_str [] (AdminPass c),
     SSLDefaultDHParam := or_int 1024 (SSLDefaultDHParam c),
     SSLServerVerify := or_str ''required'' (SSLServerVerify c)\<rparr>"

definition SetNginxConfigDefaults :: "ext_config \<Rightarrow> ext_config" where
  "SetNginxConfigDefaults c = c\<lparr>
     User := or_str ''www-data'' (User c),
     WorkerProcesses := or_int 2 (WorkerProcesses c),
     RLimitNoFile := or_int 65535 (RLimitNoFile c),
     ProxyConnectTimeout := or_int 600 (ProxyConnectTimeout c),
     ProxySendTimeout := or_int 600 (ProxySendTimeout c),
     ProxyReadTimeout := or_int 600 (ProxyReadTimeout c),
     SendTimeout := or_int 600 (SendTimeout c),
     SSLCiphers := or_str ''HIGH:!aNULL:!MD5'' (SSLCiphers c),
     SSLProtocols := or_str ''SSLv3 TLSv1 TLSv1.1 TLSv1.2'' (SSLProtocols c)\<rparr>"

definition SetBeaconConfigDefaults :: "ext_config \<Rightarrow> ext_config" where
  "SetBeaconConfigDefaults c = c\<lparr>
     StatsInterval := or_str ''30s'' (StatsInterval c),
     StatsInfluxDBPrecision := or_str ''s'' (StatsInfluxDBPrecision c)\<rparr>"

definition SetConfigDefaults :: "ext_config \<Rightarrow> ext_config" where
  "SetConfigDefaults c =
     (let c = c\<lparr>MaxConn := or_int 1024 (MaxConn c), Port := or_int 80 (Port c)\<rparr>
      in if Name c = ''haproxy'' then SetHAProxyConfigDefaults c
         else if Name c = ''nginx'' then SetNginxConfigDefaults c
         else if Name c = ''beacon'' then SetBeaconConfigDefaults c
         else c)"

definition ParseConfig :: "(string \<Rightarrow> config res) \<Rightarrow> string \<Rightarrow> config res" where
  "ParseConfig toml_Decode data =
     res_bind (toml_Decode data) (\<lambda>cfg.
       Ok (cfg\<lparr>Extensions :=
         map (\<lambda>ext. (SetConfigDefaults ext)\<lparr>Rules := cfg_Rules cfg\<rparr>) (Extensions cfg)\<rparr>))"

section \<open>Lemmas\<close>

lemma or_int_idem [simp]: "or_int d (or_int d v) = or_int d v"
  by (simp add: or_int_def)

lemma or_str_idem [simp]: "or_str d (or_str d v) = or_str d v"
  by (simp add: or_str_def)

lemma or_int_set: "v \<noteq> 0 \<Longrightarrow> or_int d v = v"
  by (simp add: or_int_def)

lemma or_str_set: "v \<noteq> [] \<Longrightarrow> or_str d v = v"
  by (simp add: or_str_def)

lemma or_int_nonzero: "d \<noteq> 0 \<Longrightarrow> or_int d v \<noteq> 0"
  by (simp add: or_int_def)

lemma or_str_nonempty: "d \<noteq> [] \<Longrightarrow> or_str d v \<noteq> []"
  by (simp add: or_str_def)

lemmas set_defaults =
  SetConfigDefaults_def SetHAProxyConfigDefaults_def SetNginxConfigDefaults_def
  SetBeaconConfigDefaults_def Let_def

lemma SetConfigDefaults_Name [simp]: "Name (SetConfigDefaults c) = Name c"
  by (simp add: set_defaults)

lemma haproxy_not_others [simp]:
  "''haproxy'' \<noteq> ''nginx''" "''haproxy'' \<noteq> ''beacon''" "''nginx'' \<noteq> ''beacon''"
  by simp_all

lemma SetConfigDefaults_idem: "SetConfigDefaults (SetConfigDefaults c) = SetConfigDefaults c"
proof -
  consider "Name c = ''haproxy''" | "Name c = ''nginx''" | "Name c = ''beacon''"
    | "Name c \<noteq> ''haproxy''" "Name c \<noteq> ''nginx''" "Name c \<noteq> ''beacon''"
    by blast
  then show ?thesis
    by cases (simp_all add: set_defaults)
qed

section \<open>A parsed configuration is complete\<close>

text \<open>No field with a default is left at its zero value.\<close>

definition complete_ext :: "ext_config \<Rightarrow> bool" where
  "complete_ext c \<longleftrightarrow> MaxConn c \<noteq> 0 \<and> Port c \<noteq> 0
     \<and> (Name c = ''haproxy'' \<longrightarrow> ConnectTimeout c \<noteq> 0 \<and> ServerTimeout c \<noteq> 0 \<and> ClientTimeout c \<noteq> 0
          \<and> AdminUser c \<noteq> [] \<and> SSLDefaultDHParam c \<noteq> 0 \<and> SSLServerVerify c \<noteq> [])
     \<and> (Name c = ''nginx'' \<longrightarrow> User c \<noteq> [] \<and> WorkerProcesses c \<noteq> 0 \<and> RLimitNoFile c \<noteq> 0
          \<and> ProxyConnectTimeout c \<noteq> 0 \<and> ProxySendTimeout c \<noteq> 0 \<and> ProxyReadTimeout c \<noteq> 0
          \<and> SendTimeout c \<noteq> 0 \<and> SSLCiphers c \<noteq> [] \<and> SSLProtocols c \<noteq> [])
     \<and> (Name c = ''beacon'' \<longrightarrow> StatsInterval c \<noteq> [] \<and> StatsInfluxDBPrecision c \<noteq> [])"

lemma complete_ext_defaults: "complete_ext (SetConfigDefaults c)"
  by (simp add: complete_ext_def set_defaults or_int_nonzero or_str_nonempty)

text \<open>A field that was set is kept.\<close>

lemma complete_ext_fixed: "complete_ext c \<Longrightarrow> SetConfigDefaults c = c"
  by (auto simp: complete_ext_def set_defaults or_int_def or_str_def)


definition unset_config :: "ext_config list \<Rightarrow> config" where
  "unset_config exts = \<lparr>ListenAddr = [], DockerURL = [], TLSCACert = [], TLSCert = [], TLSKey = [],
     AllowInsecure = False, EnableMetrics = False, PollInterval = [], Extensions = exts, cfg_Rules = []\<rparr>"


end
