(* ===== verification/Sample_Fleet.thy ===== *)
theory Sample_Fleet
  imports Lb_Network Ext_Config
begin

text \<open>
  A small fleet of containers on which the witnesses of the generators' properties run: a web
  container published on the host with an alias domain and TLS only, a second one of the same site,
  one on an overlay network under a context root, a stopped one of the first site that has no
  published port any more, and one that publishes a port other than the one its label selects.
\<close>

definition fleet_ext_config :: "string \<Rightarrow> ext_config" where
  "fleet_ext_config name = SetConfigDefaults
     \<lparr>Name = name, ConfigPath = ''/etc/conf/proxy.conf'', ConfigBasePath = ''/etc/conf'',
      PidPath = [], TemplatePath = [], BackendOverrideAddress = [], ConnectTimeout = 0,
      ServerTimeout = 0, ClientTimeout = 0, MaxConn = 0, Port = 0, SyslogAddr = [],
      AdminUser = [], AdminPass = [], SSLCertPath = ''/certs'', SSLCert = [], SSLPort = 443,
      SSLOpts = [], SSLDefaultDHParam = 0, SSLServerVerify = [], DHParam = False,
      DHParamPath = [], NginxPlusEnabled = False, User = [], WorkerProcesses = 0,
      RLimitNoFile = 0, ProxyConnectTimeout = 0, ProxySendTimeout = 0, ProxyReadTimeout = 0,
      SendTimeout = 0, SSLCiphers = [], SSLProtocols = [], StatsInterval = [],
      StatsBackendType = [], StatsPrometheusPushGatewayURL = [], StatsInfluxDBAddress = [],
      StatsInfluxDBUser = [], StatsInfluxDBPassword = [], StatsInfluxDBDatabase = [],
      StatsInfluxDBPrecision = [], Rules = []\<rparr>"

definition fleet_labels :: "(string, string) gomap \<Rightarrow> container_config" where
  "fleet_labels ls = \<lparr>cc_Hostname = ''web'', cc_Domainname = ''local'',
     cc_ExposedPorts = [(''80/tcp'', ())], cc_Image = ''web:1'', cc_Labels = ls\<rparr>"

definition web1 :: container_json where
  "web1 = \<lparr>cj_ID = ''web1web1web1'', cj_Name = ''/web1'',
     cj_Config = fleet_labels [(InterlockAliasDomainLabel @ ''.0'', ''www.local''),
                               (InterlockSSLOnlyLabel, ''true'')],
     cj_Ports = [(''443/tcp'', []),
                 (''80/tcp'', [\<lparr>HostIP = ''10.0.0.1'', HostPort = ''8080''\<rparr>])],
     cj_Networks = []\<rparr>"

definition web2 :: container_json where
  "web2 = \<lparr>cj_ID = ''web2web2web2'', cj_Name = ''/web2'',
     cj_Config = fleet_labels [(InterlockSSLOnlyLabel, ''true'')],
     cj_Ports = [(''80/tcp'', [\<lparr>HostIP = ''10.0.0.2'', HostPort = ''8081''\<rparr>])],
     cj_Networks = []\<rparr>"

definition app1 :: container_json where
  "app1 = \<lparr>cj_ID = ''app1app1app1'', cj_Name = ''/app1'',
     cj_Config = fleet_labels [(InterlockContextRootLabel, ''/shop/a''),
                               (InterlockNetworkLabel, ''blue''),
                               (InterlockHealthCheckIntervalLabel, ''750'')],
     cj_Ports = [(''3000/tcp'', [])], cj_Networks = []\<rparr>"

definition stopped :: container_json where
  "stopped = \<lparr>cj_ID = ''gonegonegone'', cj_Name = ''/gone'',
     cj_Config = fleet_labels [], cj_Ports = [], cj_Networks = []\<rparr>"

definition mislabelled :: container_json where
  "mislabelled = \<lparr>cj_ID = ''badbadbadbad'', cj_Name = ''/bad'',
     cj_Config = fleet_labels [(InterlockPortLabel, ''9000'')],
     cj_Ports = [(''9000/tcp'', []),
                 (''80/tcp'', [\<lparr>HostIP = ''10.0.0.3'', HostPort = ''8082''\<rparr>])],
     cj_Networks = []\<rparr>"

definition fleet_inspect :: "string \<Rightarrow> container_json res" where
  "fleet_inspect cid =
     (case map_of (map (\<lambda>c. (cj_ID c, c)) [web1, web2, app1, stopped, mislabelled]) cid of
        None \<Rightarrow> Err ''No such container'' | Some c \<Rightarrow> Ok c)"

definition fleet_network :: "string \<Rightarrow> network_resource res" where
  "fleet_network n =
     (if n = ''blue''
      then Ok \<lparr>nr_Name = n, nr_Containers = [(''app1app1app1'', \<lparr>IPv4Address = ''10.1.0.7/24''\<rparr>)]\<rparr>
      else Err ''network not found'')"

definition fleet_env :: gen_env where
  "fleet_env = \<lparr>ContainerInspect = fleet_inspect, NetworkInspect = fleet_network,
     ord_overlay = (\<lambda>_. 0), ord_published = (\<lambda>_. 0), ord_custom = (\<lambda>_. 0),
     ord_options = (\<lambda>_. 0), ord_aliases = (\<lambda>_. 0), ord_websockets = (\<lambda>_. 0)\<rparr>"

definition listed :: "container_json \<Rightarrow> container" where
  "listed c = \<lparr>ct_ID = cj_ID c, ct_Names = [cj_Name c], ct_Image = cc_Image (cj_Config c),
     ct_State = ''running'', ct_Labels = cc_Labels (cj_Config c), ct_Ports = [],
     ct_Networks = []\<rparr>"

definition fleet :: "container list" where
  "fleet = map listed [web1, web2, app1]"

end
