(* ===== verification/Haproxy.thy ===== *)
theory Haproxy
  imports Lb_Network Gen_Loop Ext_Config Sample_Fleet
begin

text \<open>
  \<open>ext/lb/haproxy/config.go\<close> and \<open>generate.go\<close>: the HAProxy backend's configuration data and
  \<open>GenerateProxyConfig\<close>. The loop body \<open>hp_step\<close> takes the maps of the function as a record and
  returns them updated; each \<open>continue\<close> returns what was written before it.
\<close>

section \<open>Data (config.go)\<close>

record hp_context_root =
  cr_Name :: string
  cr_Path :: string

record hp_upstream =
  up_Container :: string
  up_Addr :: string
  up_CheckInterval :: int

record hp_host =
  h_Name :: string
  h_ContextRoot :: "hp_context_root option"
  h_ContextRootRewrite :: bool
  h_Domain :: string
  h_Check :: string
  h_BackendOptions :: "string list"
  h_Upstreams :: "hp_upstream list"
  h_SSLOnly :: bool
  h_SSLBackend :: bool
  h_SSLBackendTLSVerify :: string
  h_BalanceAlgorithm :: string

record hp_config =
  hc_Hosts :: "hp_host list"
  hc_Config :: ext_config
  hc_Networks :: "(string, string) gomap"

text \<open>The local maps of \<open>GenerateProxyConfig\<close>.\<close>

record hp_state =
  hp_proxyUpstreams :: "(string, hp_upstream list) gomap"
  hp_hostChecks :: "(string, string) gomap"
  hp_hostBalanceAlgorithms :: "(string, string) gomap"
  hp_hostContextRoots :: "(string, hp_context_root) gomap"
  hp_hostContextRootRewrites :: "(string, bool) gomap"
  hp_hostBackendOptions :: "(string, string list) gomap"
  hp_hostSSLOnly :: "(string, bool) gomap"
  hp_hostSSLBackend :: "(string, bool) gomap"
  hp_hostSSLBackendTLSVerify :: "(string, string) gomap"
  hp_networks :: "(string, string) gomap"

definition hp_empty :: hp_state where
  "hp_empty = \<lparr>hp_proxyUpstreams = [], hp_hostChecks = [], hp_hostBalanceAlgorithms = [],
     hp_hostContextRoots = [], hp_hostContextRootRewrites = [], hp_hostBackendOptions = [],
     hp_hostSSLOnly = [], hp_hostSSLBackend = [], hp_hostSSLBackendTLSVerify = [],
     hp_networks = []\<rparr>"

section \<open>One iteration\<close>

definition hp_context :: "container_config \<Rightarrow> hp_context_root" where
  "hp_context config = \<lparr>cr_Name = contextRootName config, cr_Path = ContextRoot config\<rparr>"

definition hp_meta :: "string \<Rightarrow> container_config \<Rightarrow> hp_state \<Rightarrow> hp_state" where
  "hp_meta domain config st = st\<lparr>
     hp_hostContextRoots := gm_set domain (hp_context config) (hp_hostContextRoots st),
     hp_hostContextRootRewrites :=
       gm_set domain (ContextRootRewrite config) (hp_hostContextRootRewrites st)\<rparr>"

definition hp_check :: "string \<Rightarrow> container_config \<Rightarrow> hp_state \<Rightarrow> hp_state" where
  "hp_check domain config st =
     (let healthCheck = HealthCheck config
      in if healthCheck \<noteq> [] \<and> \<not> gm_has (hp_hostChecks st) domain
         then st\<lparr>hp_hostChecks := gm_set domain healthCheck (hp_hostChecks st)\<rparr>
         else st)"

definition hp_attrs :: "gen_env \<Rightarrow> string \<Rightarrow> container_config \<Rightarrow> hp_state \<Rightarrow> hp_state" where
  "hp_attrs env domain config st =
     (let backendOptions = BackendOptions (ord_options env) config
      in st\<lparr>
        hp_hostBalanceAlgorithms :=
          gm_set domain (BalanceAlgorithm config) (hp_hostBalanceAlgorithms st),
        hp_hostBackendOptions :=
          (if backendOptions \<noteq> [] then gm_set domain backendOptions (hp_hostBackendOptions st)
           else hp_hostBackendOptions st),
        hp_hostSSLOnly := gm_set domain (SSLOnly config) (hp_hostSSLOnly st),
        hp_hostSSLBackend := gm_set domain (SSLBackend config) (hp_hostSSLBackend st),
        hp_hostSSLBackendTLSVerify :=
          gm_set domain (SSLBackendTLSVerify config) (hp_hostSSLBackendTLSVerify st)\<rparr>)"

definition hp_network :: "string option \<Rightarrow> hp_state \<Rightarrow> hp_state" where
  "hp_network net st =
     (case net of None \<Rightarrow> st | Some n \<Rightarrow> st\<lparr>hp_networks := gm_set n [] (hp_networks st)\<rparr>)"

definition hp_alias :: "container_config \<Rightarrow> hp_upstream \<Rightarrow> string \<Rightarrow> hp_state \<Rightarrow> hp_state" where
  "hp_alias config up alias st = st\<lparr>
     hp_proxyUpstreams := gm_append alias up (hp_proxyUpstreams st),
     hp_hostContextRoots := gm_set alias (hp_context config) (hp_hostContextRoots st)\<rparr>"

definition hp_add_upstream ::
  "gen_env \<Rightarrow> string \<Rightarrow> container_config \<Rightarrow> hp_upstream \<Rightarrow> hp_state \<Rightarrow> hp_state" where
  "hp_add_upstream env domain config up st =
     (let st = fold (hp_alias config up) (AliasDomains (ord_aliases env) config) st
      in st\<lparr>hp_proxyUpstreams := gm_append domain up (hp_proxyUpstreams st)\<rparr>)"

definition hp_step :: "ext_config \<Rightarrow> gen_env \<Rightarrow> container \<Rightarrow> hp_state \<Rightarrow> hp_state res" where
  "hp_step cfg env cnt st =
     res_bind (go_slice_to 12 (ct_ID cnt)) (\<lambda>cntId.
     res_bind (ContainerInspect env cntId) (\<lambda>cInfo.
       (case site_domain (cj_Config cInfo) of
          None \<Rightarrow> Ok st
        | Some domain \<Rightarrow>
            (let st = hp_meta domain (cj_Config cInfo) st
             in case HealthCheckInterval (cj_Config cInfo) of
                  Panic p \<Rightarrow> Panic p
                | Err e \<Rightarrow> Ok st
                | Ok interval \<Rightarrow>
                    (let st = hp_attrs env domain (cj_Config cInfo)
                                (hp_check domain (cj_Config cInfo) st)
                     in res_bind (container_addr (BackendOverrideAddress cfg) env cInfo) (\<lambda>found.
                          case found of
                            None \<Rightarrow> Ok st
                          | Some (addr, net) \<Rightarrow>
                              res_bind (go_slice_from 1 (cj_Name cInfo)) (\<lambda>name.
                                Ok (hp_add_upstream env domain (cj_Config cInfo)
                                      \<lparr>up_Container = name, up_Addr = addr,
                                       up_CheckInterval = interval\<rparr>
                                      (hp_network net st)))))))))"

section \<open>The function\<close>

definition hp_mk_host :: "hp_state \<Rightarrow> string \<times> hp_upstream list \<Rightarrow> hp_host" where
  "hp_mk_host st kv = (case kv of (k, v) \<Rightarrow>
     \<lparr>h_Name = replace_char CHR ''.'' CHR ''_'' k,
      h_ContextRoot = gm_get (hp_hostContextRoots st) k,
      h_ContextRootRewrite = gm_at False (hp_hostContextRootRewrites st) k,
      h_Domain = k,
      h_Check = gm_at [] (hp_hostChecks st) k,
      h_BackendOptions = gm_at [] (hp_hostBackendOptions st) k,
      h_Upstreams = v,
      h_SSLOnly = gm_at False (hp_hostSSLOnly st) k,
      h_SSLBackend = gm_at False (hp_hostSSLBackend st) k,
      h_SSLBackendTLSVerify = gm_at [] (hp_hostSSLBackendTLSVerify st) k,
      h_BalanceAlgorithm = gm_at [] (hp_hostBalanceAlgorithms st) k\<rparr>)"

definition hp_GenerateProxyConfig ::
  "ext_config \<Rightarrow> (nat \<Rightarrow> gen_env) \<Rightarrow> order \<Rightarrow> container list \<Rightarrow> hp_config res" where
  "hp_GenerateProxyConfig cfg envs ord containers =
     res_bind (gen_loop (\<lambda>i. hp_step cfg (envs i)) 0 containers hp_empty) (\<lambda>st.
       Ok \<lparr>hc_Hosts = map (hp_mk_host st) (go_range ord (hp_proxyUpstreams st)),
           hc_Config = cfg,
           hc_Networks = hp_networks st\<rparr>)"

section \<open>What an iteration writes\<close>

text \<open>
  How far a container gets: it names a site; its health-check interval parses; it has an address.
\<close>

definition hp_named :: "gen_env \<Rightarrow> container \<Rightarrow> (string \<times> container_json) option" where
  "hp_named env cnt =
     (case ContainerInspect env (take 12 (ct_ID cnt)) of
        Ok cInfo \<Rightarrow> map_option (\<lambda>d. (d, cInfo)) (site_domain (cj_Config cInfo))
      | _ \<Rightarrow> None)"

definition hp_accepted :: "gen_env \<Rightarrow> container \<Rightarrow> (string \<times> container_json \<times> int) option" where
  "hp_accepted env cnt =
     (case hp_named env cnt of
        None \<Rightarrow> None
      | Some (d, cInfo) \<Rightarrow>
          (case HealthCheckInterval (cj_Config cInfo) of Ok i \<Rightarrow> Some (d, cInfo, i) | _ \<Rightarrow> None))"

definition hp_served ::
  "ext_config \<Rightarrow> gen_env \<Rightarrow> container \<Rightarrow>
     (string \<times> container_config \<times> hp_upstream \<times> string option) option" where
  "hp_served cfg env cnt =
     (case hp_accepted env cnt of
        None \<Rightarrow> None
      | Some (d, cInfo, i) \<Rightarrow>
          (case container_addr (BackendOverrideAddress cfg) env cInfo of
             Ok (Some (addr, net)) \<Rightarrow>
               Some (d, cj_Config cInfo,
                 \<lparr>up_Container = drop 1 (cj_Name cInfo), up_Addr = addr, up_CheckInterval = i\<rparr>, net)
           | _ \<Rightarrow> None))"

text \<open>The writes of one iteration, per map.\<close>

definition hp_named_writes ::
  "(container_config \<Rightarrow> 'v) \<Rightarrow> gen_env \<Rightarrow> container \<Rightarrow> (string \<times> 'v) list" where
  "hp_named_writes f env cnt =
     (case hp_named env cnt of None \<Rightarrow> [] | Some (d, cInfo) \<Rightarrow> [(d, f (cj_Config cInfo))])"

definition hp_accepted_writes ::
  "(container_config \<Rightarrow> 'v) \<Rightarrow> gen_env \<Rightarrow> container \<Rightarrow> (string \<times> 'v) list" where
  "hp_accepted_writes f env cnt =
     (case hp_accepted env cnt of None \<Rightarrow> [] | Some (d, cInfo, i) \<Rightarrow> [(d, f (cj_Config cInfo))])"

definition hp_check_writes :: "gen_env \<Rightarrow> container \<Rightarrow> (string \<times> string) list" where
  "hp_check_writes env cnt = filter (\<lambda>p. snd p \<noteq> []) (hp_accepted_writes HealthCheck env cnt)"

definition hp_option_writes :: "gen_env \<Rightarrow> container \<Rightarrow> (string \<times> string list) list" where
  "hp_option_writes env cnt =
     filter (\<lambda>p. snd p \<noteq> []) (hp_accepted_writes (BackendOptions (ord_options env)) env cnt)"

definition hp_upstream_writes ::
  "ext_config \<Rightarrow> gen_env \<Rightarrow> container \<Rightarrow> (string \<times> hp_upstream) list" where
  "hp_upstream_writes cfg env cnt =
     (case hp_served cfg env cnt of
        None \<Rightarrow> []
      | Some (d, config, up, net) \<Rightarrow>
          map (\<lambda>a. (a, up)) (AliasDomains (ord_aliases env) config) @ [(d, up)])"

definition hp_context_writes ::
  "ext_config \<Rightarrow> gen_env \<Rightarrow> container \<Rightarrow> (string \<times> hp_context_root) list" where
  "hp_context_writes cfg env cnt =
     hp_named_writes hp_context env cnt @
     (case hp_served cfg env cnt of
        None \<Rightarrow> []
      | Some (d, config, up, net) \<Rightarrow>
          map (\<lambda>a. (a, hp_context config)) (AliasDomains (ord_aliases env) config))"

definition hp_network_writes :: "ext_config \<Rightarrow> gen_env \<Rightarrow> container \<Rightarrow> (string \<times> string) list" where
  "hp_network_writes cfg env cnt =
     (case hp_served cfg env cnt of Some (d, config, up, Some n) \<Rightarrow> [(n, [])] | _ \<Rightarrow> [])"

lemmas hp_writes =
  hp_named_writes_def hp_accepted_writes_def hp_check_writes_def hp_option_writes_def
  hp_upstream_writes_def hp_context_writes_def hp_network_writes_def

text \<open>The four ways an iteration ends without an error.\<close>

lemma hp_step_cases:
  assumes "hp_step cfg env cnt st = Ok st'"
  obtains
    (unnamed) "hp_named env cnt = None" "hp_accepted env cnt = None" "hp_served cfg env cnt = None"
      "st' = st"
  | (rejected) d cInfo where
      "hp_named env cnt = Some (d, cInfo)" "hp_accepted env cnt = None"
      "hp_served cfg env cnt = None" "st' = hp_meta d (cj_Config cInfo) st"
  | (unserved) d cInfo i where
      "hp_named env cnt = Some (d, cInfo)" "hp_accepted env cnt = Some (d, cInfo, i)"
      "hp_served cfg env cnt = None"
      "st' = hp_attrs env d (cj_Config cInfo)
               (hp_check d (cj_Config cInfo) (hp_meta d (cj_Config cInfo) st))"
  | (served) d cInfo i up net where
      "hp_named env cnt = Some (d, cInfo)" "hp_accepted env cnt = Some (d, cInfo, i)"
      "hp_served cfg env cnt = Some (d, cj_Config cInfo, up, net)"
      "st' = hp_add_upstream env d (cj_Config cInfo) up
               (hp_network net (hp_attrs env d (cj_Config cInfo)
                 (hp_check d (cj_Config cInfo) (hp_meta d (cj_Config cInfo) st))))"
proof -
  from assms obtain cInfo where insp: "ContainerInspect env (take 12 (ct_ID cnt)) = Ok cInfo"
    by (auto simp: hp_step_def go_res Let_def)
  show thesis
  proof (cases "site_domain (cj_Config cInfo)")
    case None
    with insp assms show thesis
      by (intro unnamed) (auto simp: hp_step_def go_res hp_named_def hp_accepted_def hp_served_def Let_def)
  next
    case (Some d)
    with insp have n: "hp_named env cnt = Some (d, cInfo)" by (simp add: hp_named_def)
    show thesis
    proof (cases "HealthCheckInterval (cj_Config cInfo)")
      case (Err e)
      with n insp Some assms show thesis
        by (intro rejected) (auto simp: hp_step_def go_res hp_accepted_def hp_served_def Let_def)
    next
      case (Panic p)
      then have False using HealthCheckInterval_no_panic [of "cj_Config cInfo"] by simp
      then show thesis ..
    next
      case (Ok i)
      with n have a: "hp_accepted env cnt = Some (d, cInfo, i)" by (simp add: hp_accepted_def)
      from assms insp Some Ok obtain found
        where f: "container_addr (BackendOverrideAddress cfg) env cInfo = res.Ok found"
        by (auto simp: hp_step_def go_res Let_def)
      show thesis
      proof (cases found)
        case None
        with f a n insp Some Ok assms show thesis
          by (intro unserved) (auto simp: hp_step_def go_res hp_served_def Let_def)
      next
        case (Some an)
        obtain addr net where "an = (addr, net)" by (cases an)
        with f a n insp \<open>site_domain (cj_Config cInfo) = _\<close> Some Ok assms show thesis
          by (intro served) (auto simp: hp_step_def go_res hp_served_def Let_def)
      qed
    qed
  qed
qed

text \<open>The effect of each part of an iteration on each map.\<close>

named_theorems hp_field "the maps of the state after a part of an iteration"

lemma hp_meta_fields [hp_field]:
  "hp_proxyUpstreams (hp_meta d config st) = hp_proxyUpstreams st"
  "hp_hostChecks (hp_meta d config st) = hp_hostChecks st"
  "hp_hostBalanceAlgorithms (hp_meta d config st) = hp_hostBalanceAlgorithms st"
  "hp_hostContextRoots (hp_meta d config st) =
     gm_set d (hp_context config) (hp_hostContextRoots st)"
  "hp_hostContextRootRewrites (hp_meta d config st) =
     gm_set d (ContextRootRewrite config) (hp_hostContextRootRewrites st)"
  "hp_hostBackendOptions (hp_meta d config st) = hp_hostBackendOptions st"
  "hp_hostSSLOnly (hp_meta d config st) = hp_hostSSLOnly st"
  "hp_hostSSLBackend (hp_meta d config st) = hp_hostSSLBackend st"
  "hp_hostSSLBackendTLSVerify (hp_meta d config st) = hp_hostSSLBackendTLSVerify st"
  "hp_networks (hp_meta d config st) = hp_networks st"
  by (simp_all add: hp_meta_def)

lemma hp_check_fields [hp_field]:
  "hp_proxyUpstreams (hp_check d config st) = hp_proxyUpstreams st"
  "hp_hostChecks (hp_check d config st) =
     (if HealthCheck config \<noteq> [] \<and> \<not> gm_has (hp_hostChecks st) d
      then gm_set d (HealthCheck config) (hp_hostChecks st) else hp_hostChecks st)"
  "hp_hostBalanceAlgorithms (hp_check d config st) = hp_hostBalanceAlgorithms st"
  "hp_hostContextRoots (hp_check d config st) = hp_hostContextRoots st"
  "hp_hostContextRootRewrites (hp_check d config st) = hp_hostContextRootRewrites st"
  "hp_hostBackendOptions (hp_check d config st) = hp_hostBackendOptions st"
  "hp_hostSSLOnly (hp_check d config st) = hp_hostSSLOnly st"
  "hp_hostSSLBackend (hp_check d config st) = hp_hostSSLBackend st"
  "hp_hostSSLBackendTLSVerify (hp_check d config st) = hp_hostSSLBackendTLSVerify st"
  "hp_networks (hp_check d config st) = hp_networks st"
  by (simp_all add: hp_check_def Let_def)

lemma hp_attrs_fields [hp_field]:
  "hp_proxyUpstreams (hp_attrs env d config st) = hp_proxyUpstreams st"
  "hp_hostChecks (hp_attrs env d config st) = hp_hostChecks st"
  "hp_hostBalanceAlgorithms (hp_attrs env d config st) =
     gm_set d (BalanceAlgorithm config) (hp_hostBalanceAlgorithms st)"
  "hp_hostContextRoots (hp_attrs env d config st) = hp_hostContextRoots st"
  "hp_hostContextRootRewrites (hp_attrs env d config st) = hp_hostContextRootRewrites st"
  "hp_hostBackendOptions (hp_attrs env d config st) =
     (if BackendOptions (ord_options env) config \<noteq> []
      then gm_set d (BackendOptions (ord_options env) config) (hp_hostBackendOptions st)
      else hp_hostBackendOptions st)"
  "hp_hostSSLOnly (hp_attrs env d config st) =
     gm_set d (SSLOnly config) (hp_hostSSLOnly st)"
  "hp_hostSSLBackend (hp_attrs env d config st) =
     gm_set d (SSLBackend config) (hp_hostSSLBackend st)"
  "hp_hostSSLBackendTLSVerify (hp_attrs env d config st) =
     gm_set d (SSLBackendTLSVerify config) (hp_hostSSLBackendTLSVerify st)"
  "hp_networks (hp_attrs env d config st) = hp_networks st"
  by (simp_all add: hp_attrs_def Let_def)

lemma hp_network_fields [hp_field]:
  "hp_proxyUpstreams (hp_network net st) = hp_proxyUpstreams st"
  "hp_hostChecks (hp_network net st) = hp_hostChecks st"
  "hp_hostBalanceAlgorithms (hp_network net st) = hp_hostBalanceAlgorithms st"
  "hp_hostContextRoots (hp_network net st) = hp_hostContextRoots st"
  "hp_hostContextRootRewrites (hp_network net st) = hp_hostContextRootRewrites st"
  "hp_hostBackendOptions (hp_network net st) = hp_hostBackendOptions st"
  "hp_hostSSLOnly (hp_network net st) = hp_hostSSLOnly st"
  "hp_hostSSLBackend (hp_network net st) = hp_hostSSLBackend st"
  "hp_hostSSLBackendTLSVerify (hp_network net st) = hp_hostSSLBackendTLSVerify st"
  "hp_networks (hp_network net st) =
     (case net of None \<Rightarrow> hp_networks st | Some n \<Rightarrow> gm_set n [] (hp_networks st))"
  by (simp_all add: hp_network_def split: option.split)

lemma hp_alias_fold_fields [hp_field]:
  "hp_proxyUpstreams (fold (hp_alias config up) as st) =
     fold (\<lambda>a. gm_append a up) as (hp_proxyUpstreams st)"
  "hp_hostChecks (fold (hp_alias config up) as st) = hp_hostChecks st"
  "hp_hostBalanceAlgorithms (fold (hp_alias config up) as st) = hp_hostBalanceAlgorithms st"
  "hp_hostContextRoots (fold (hp_alias config up) as st) =
     fold (\<lambda>a. gm_set a (hp_context config)) as (hp_hostContextRoots st)"
  "hp_hostContextRootRewrites (fold (hp_alias config up) as st) = hp_hostContextRootRewrites st"
  "hp_hostBackendOptions (fold (hp_alias config up) as st) = hp_hostBackendOptions st"
  "hp_hostSSLOnly (fold (hp_alias config up) as st) = hp_hostSSLOnly st"
  "hp_hostSSLBackend (fold (hp_alias config up) as st) = hp_hostSSLBackend st"
  "hp_hostSSLBackendTLSVerify (fold (hp_alias config up) as st) = hp_hostSSLBackendTLSVerify st"
  "hp_networks (fold (hp_alias config up) as st) = hp_networks st"
  by (induction as arbitrary: st) (simp_all add: hp_alias_def)

lemma hp_add_upstream_fields [hp_field]:
  "hp_proxyUpstreams (hp_add_upstream env d config up st) =
     gm_append d up
       (fold (\<lambda>a. gm_append a up) (AliasDomains (ord_aliases env) config) (hp_proxyUpstreams st))"
  "hp_hostChecks (hp_add_upstream env d config up st) = hp_hostChecks st"
  "hp_hostBalanceAlgorithms (hp_add_upstream env d config up st) = hp_hostBalanceAlgorithms st"
  "hp_hostContextRoots (hp_add_upstream env d config up st) =
     fold (\<lambda>a. gm_set a (hp_context config)) (AliasDomains (ord_aliases env) config)
       (hp_hostContextRoots st)"
  "hp_hostContextRootRewrites (hp_add_upstream env d config up st) = hp_hostContextRootRewrites st"
  "hp_hostBackendOptions (hp_add_upstream env d config up st) = hp_hostBackendOptions st"
  "hp_hostSSLOnly (hp_add_upstream env d config up st) = hp_hostSSLOnly st"
  "hp_hostSSLBackend (hp_add_upstream env d config up st) = hp_hostSSLBackend st"
  "hp_hostSSLBackendTLSVerify (hp_add_upstream env d config up st) = hp_hostSSLBackendTLSVerify st"
  "hp_networks (hp_add_upstream env d config up st) = hp_networks st"
  by (simp_all add: hp_add_upstream_def hp_field Let_def)

text \<open>The maps meet the interfaces of \<open>Gen_Loop\<close>.\<close>

lemmas hp_laws = go_map fold_gm_append fold_gm_set overwrite_def keep_first_def image_Un image_image

interpretation hp_ups: append_table
  "\<lambda>i. hp_step cfg (envs i)" hp_proxyUpstreams "\<lambda>i. hp_upstream_writes cfg (envs i)"
  for cfg envs
  by unfold_locales
    (erule hp_step_cases; simp add: hp_field hp_writes hp_laws split: option.split)+

interpretation hp_ctx: overwrite_table
  "\<lambda>i. hp_step cfg (envs i)" hp_hostContextRoots "\<lambda>i. hp_context_writes cfg (envs i)"
  for cfg envs
  by unfold_locales
    (erule hp_step_cases; simp add: hp_field hp_writes hp_laws split: option.split)+

interpretation hp_rewrite: overwrite_table
  "\<lambda>i. hp_step cfg (envs i)" hp_hostContextRootRewrites "\<lambda>i. hp_named_writes ContextRootRewrite (envs i)"
  for cfg envs
  by unfold_locales
    (erule hp_step_cases; simp add: hp_field hp_writes hp_laws split: option.split)+

interpretation hp_chk: first_table
  "\<lambda>i. hp_step cfg (envs i)" hp_hostChecks "\<lambda>i. hp_check_writes (envs i)"
  for cfg envs
proof
  fix i c s s' k assume st: "hp_step cfg (envs i) c s = Ok s'"
  from st show "gm_wf (hp_hostChecks s')" if "gm_wf (hp_hostChecks s)"
    using that by (cases rule: hp_step_cases) (simp_all add: hp_field hp_writes hp_laws)
  from st show "gm_keys (hp_hostChecks s') =
      gm_keys (hp_hostChecks s) \<union> fst ` set (hp_check_writes (envs i) c)"
    by (cases rule: hp_step_cases)
      (auto simp: hp_field hp_writes hp_laws gm_has_iff_keys)
  from st show "gm_get (hp_hostChecks s') k =
      keep_first (gm_get (hp_hostChecks s) k) (values_at k (hp_check_writes (envs i) c))"
    by (cases rule: hp_step_cases)
      (auto simp: hp_field hp_writes hp_laws gm_has_def split: option.split)
qed

interpretation hp_balance: overwrite_table
  "\<lambda>i. hp_step cfg (envs i)" hp_hostBalanceAlgorithms "\<lambda>i. hp_accepted_writes BalanceAlgorithm (envs i)"
  for cfg envs
  by unfold_locales
    (erule hp_step_cases; simp add: hp_field hp_writes hp_laws split: option.split)+

interpretation hp_opts: overwrite_table
  "\<lambda>i. hp_step cfg (envs i)" hp_hostBackendOptions "\<lambda>i. hp_option_writes (envs i)"
  for cfg envs
  by unfold_locales
    (erule hp_step_cases; simp add: hp_field hp_writes hp_laws split: option.split)+

interpretation hp_ssl: overwrite_table
  "\<lambda>i. hp_step cfg (envs i)" hp_hostSSLOnly "\<lambda>i. hp_accepted_writes SSLOnly (envs i)"
  for cfg envs
  by unfold_locales
    (erule hp_step_cases; simp add: hp_field hp_writes hp_laws split: option.split)+

interpretation hp_sslb: overwrite_table
  "\<lambda>i. hp_step cfg (envs i)" hp_hostSSLBackend "\<lambda>i. hp_accepted_writes SSLBackend (envs i)"
  for cfg envs
  by unfold_locales
    (erule hp_step_cases; simp add: hp_field hp_writes hp_laws split: option.split)+

interpretation hp_tls: overwrite_table
  "\<lambda>i. hp_step cfg (envs i)" hp_hostSSLBackendTLSVerify "\<lambda>i. hp_accepted_writes SSLBackendTLSVerify (envs i)"
  for cfg envs
  by unfold_locales
    (erule hp_step_cases; simp add: hp_field hp_writes hp_laws split: option.split)+

interpretation hp_net: overwrite_table
  "\<lambda>i. hp_step cfg (envs i)" hp_networks "\<lambda>i. hp_network_writes cfg (envs i)"
  for cfg envs
  by unfold_locales
    (erule hp_step_cases; simp add: hp_field hp_writes hp_laws split: option.split)+

section \<open>The result of the whole loop\<close>

definition hp_all ::
  "(nat \<Rightarrow> container \<Rightarrow> (string \<times> 'v) list) \<Rightarrow> container list \<Rightarrow> string \<Rightarrow> 'v list" where
  "hp_all w cs k = values_at k (all_writes w 0 cs)"

lemma hp_empty_fields [simp]:
  "hp_proxyUpstreams hp_empty = []" "hp_hostChecks hp_empty = []"
  "hp_hostBalanceAlgorithms hp_empty = []" "hp_hostContextRoots hp_empty = []"
  "hp_hostContextRootRewrites hp_empty = []" "hp_hostBackendOptions hp_empty = []"
  "hp_hostSSLOnly hp_empty = []" "hp_hostSSLBackend hp_empty = []"
  "hp_hostSSLBackendTLSVerify hp_empty = []" "hp_networks hp_empty = []"
  by (simp_all add: hp_empty_def)

lemma hp_generateE:
  assumes "hp_GenerateProxyConfig cfg envs ord cs = Ok conf"
  obtains st where "gen_loop (\<lambda>i. hp_step cfg (envs i)) 0 cs hp_empty = Ok st"
    and "hc_Hosts conf = map (hp_mk_host st) (go_range ord (hp_proxyUpstreams st))"
    and "hc_Config conf = cfg" and "hc_Networks conf = hp_networks st"
  using assms by (auto simp: hp_GenerateProxyConfig_def go_res)

lemma hp_loop_tables:
  assumes "gen_loop (\<lambda>i. hp_step cfg (envs i)) 0 cs hp_empty = Ok st"
  shows "gm_wf (hp_proxyUpstreams st)"
    and "gm_keys (hp_proxyUpstreams st) =
      fst ` set (all_writes (\<lambda>i. hp_upstream_writes cfg (envs i)) 0 cs)"
    and "gm_at [] (hp_proxyUpstreams st) k = hp_all (\<lambda>i. hp_upstream_writes cfg (envs i)) cs k"
    and "gm_get (hp_hostContextRoots st) k =
      overwrite None (hp_all (\<lambda>i. hp_context_writes cfg (envs i)) cs k)"
    and "gm_at False (hp_hostContextRootRewrites st) k =
      last_or False (hp_all (\<lambda>i. hp_named_writes ContextRootRewrite (envs i)) cs k)"
    and "gm_at [] (hp_hostChecks st) k = first_or [] (hp_all (\<lambda>i. hp_check_writes (envs i)) cs k)"
    and "gm_at [] (hp_hostBackendOptions st) k =
      last_or [] (hp_all (\<lambda>i. hp_option_writes (envs i)) cs k)"
    and "gm_at False (hp_hostSSLOnly st) k =
      last_or False (hp_all (\<lambda>i. hp_accepted_writes SSLOnly (envs i)) cs k)"
    and "gm_at False (hp_hostSSLBackend st) k =
      last_or False (hp_all (\<lambda>i. hp_accepted_writes SSLBackend (envs i)) cs k)"
    and "gm_at [] (hp_hostSSLBackendTLSVerify st) k =
      last_or [] (hp_all (\<lambda>i. hp_accepted_writes SSLBackendTLSVerify (envs i)) cs k)"
    and "gm_at [] (hp_hostBalanceAlgorithms st) k =
      last_or [] (hp_all (\<lambda>i. hp_accepted_writes BalanceAlgorithm (envs i)) cs k)"
    and "gm_keys (hp_networks st) =
      fst ` set (all_writes (\<lambda>i. hp_network_writes cfg (envs i)) 0 cs)"
proof -
  show "gm_wf (hp_proxyUpstreams st)"
    using hp_ups.loop_wf [OF assms] by simp
  show "gm_keys (hp_proxyUpstreams st) =
      fst ` set (all_writes (\<lambda>i. hp_upstream_writes cfg (envs i)) 0 cs)"
    using hp_ups.loop_keys [OF assms] by simp
  show "gm_at [] (hp_proxyUpstreams st) k = hp_all (\<lambda>i. hp_upstream_writes cfg (envs i)) cs k"
    using hp_ups.loop_append [OF assms, of k] by (simp add: hp_all_def)
  show "gm_get (hp_hostContextRoots st) k =
      overwrite None (hp_all (\<lambda>i. hp_context_writes cfg (envs i)) cs k)"
    using hp_ctx.loop_overwrite [OF assms, of k] by (simp add: hp_all_def)
  show "gm_at False (hp_hostContextRootRewrites st) k =
      last_or False (hp_all (\<lambda>i. hp_named_writes ContextRootRewrite (envs i)) cs k)"
    using hp_rewrite.loop_overwrite [OF assms, of k]
    by (intro gm_at_overwrite) (simp add: hp_all_def)
  show "gm_at [] (hp_hostChecks st) k = first_or [] (hp_all (\<lambda>i. hp_check_writes (envs i)) cs k)"
    using hp_chk.loop_first [OF assms, of k] by (intro gm_at_keep_first) (simp add: hp_all_def)
  show "gm_at [] (hp_hostBackendOptions st) k =
      last_or [] (hp_all (\<lambda>i. hp_option_writes (envs i)) cs k)"
    using hp_opts.loop_overwrite [OF assms, of k]
    by (intro gm_at_overwrite) (simp add: hp_all_def)
  show "gm_at False (hp_hostSSLOnly st) k =
      last_or False (hp_all (\<lambda>i. hp_accepted_writes SSLOnly (envs i)) cs k)"
    using hp_ssl.loop_overwrite [OF assms, of k]
    by (intro gm_at_overwrite) (simp add: hp_all_def)
  show "gm_at False (hp_hostSSLBackend st) k =
      last_or False (hp_all (\<lambda>i. hp_accepted_writes SSLBackend (envs i)) cs k)"
    using hp_sslb.loop_overwrite [OF assms, of k]
    by (intro gm_at_overwrite) (simp add: hp_all_def)
  show "gm_at [] (hp_hostSSLBackendTLSVerify st) k =
      last_or [] (hp_all (\<lambda>i. hp_accepted_writes SSLBackendTLSVerify (envs i)) cs k)"
    using hp_tls.loop_overwrite [OF assms, of k]
    by (intro gm_at_overwrite) (simp add: hp_all_def)
  show "gm_at [] (hp_hostBalanceAlgorithms st) k =
      last_or [] (hp_all (\<lambda>i. hp_accepted_writes BalanceAlgorithm (envs i)) cs k)"
    using hp_balance.loop_overwrite [OF assms, of k]
    by (intro gm_at_overwrite) (simp add: hp_all_def)
  show "gm_keys (hp_networks st) =
      fst ` set (all_writes (\<lambda>i. hp_network_writes cfg (envs i)) 0 cs)"
    using hp_net.loop_keys [OF assms] by simp
qed

lemma hp_mk_host_fields [simp]:
  "h_Domain (hp_mk_host st kv) = fst kv"
  "h_Upstreams (hp_mk_host st kv) = snd kv"
  "h_Name (hp_mk_host st kv) = replace_char CHR ''.'' CHR ''_'' (fst kv)"
  "h_ContextRoot (hp_mk_host st kv) = gm_get (hp_hostContextRoots st) (fst kv)"
  "h_ContextRootRewrite (hp_mk_host st kv) = gm_at False (hp_hostContextRootRewrites st) (fst kv)"
  "h_Check (hp_mk_host st kv) = gm_at [] (hp_hostChecks st) (fst kv)"
  "h_BackendOptions (hp_mk_host st kv) = gm_at [] (hp_hostBackendOptions st) (fst kv)"
  "h_SSLOnly (hp_mk_host st kv) = gm_at False (hp_hostSSLOnly st) (fst kv)"
  "h_SSLBackend (hp_mk_host st kv) = gm_at False (hp_hostSSLBackend st) (fst kv)"
  "h_SSLBackendTLSVerify (hp_mk_host st kv) = gm_at [] (hp_hostSSLBackendTLSVerify st) (fst kv)"
  "h_BalanceAlgorithm (hp_mk_host st kv) = gm_at [] (hp_hostBalanceAlgorithms st) (fst kv)"
  by (simp_all add: hp_mk_host_def split: prod.split)

lemma hp_hosts:
  assumes "hp_GenerateProxyConfig cfg envs ord cs = Ok conf"
  obtains st where "gen_loop (\<lambda>i. hp_step cfg (envs i)) 0 cs hp_empty = Ok st"
    and "map h_Domain (hc_Hosts conf) = map fst (go_range ord (hp_proxyUpstreams st))"
    and "\<And>h. h \<in> set (hc_Hosts conf) \<Longrightarrow>
      h = hp_mk_host st (h_Domain h, hp_all (\<lambda>i. hp_upstream_writes cfg (envs i)) cs (h_Domain h))"
proof -
  from assms obtain st where st: "gen_loop (\<lambda>i. hp_step cfg (envs i)) 0 cs hp_empty = Ok st"
    and hosts: "hc_Hosts conf = map (hp_mk_host st) (go_range ord (hp_proxyUpstreams st))"
    by (rule hp_generateE)
  note tabs = hp_loop_tables [OF st]
  show thesis
  proof (rule that [OF st])
    show "map h_Domain (hc_Hosts conf) = map fst (go_range ord (hp_proxyUpstreams st))"
      by (simp add: hosts)
    fix h assume "h \<in> set (hc_Hosts conf)"
    then obtain k v where kv: "(k, v) \<in> set (hp_proxyUpstreams st)" "h = hp_mk_host st (k, v)"
      by (auto simp: hosts)
    then have "gm_get (hp_proxyUpstreams st) k = Some v"
      using tabs(1) by (simp add: gm_get_in_set)
    then have "v = hp_all (\<lambda>i. hp_upstream_writes cfg (envs i)) cs k"
      using tabs(3) [of k] by (simp add: gm_at_def)
    with kv(2) show
      "h = hp_mk_host st (h_Domain h, hp_all (\<lambda>i. hp_upstream_writes cfg (envs i)) cs (h_Domain h))"
      by simp
  qed
qed

lemma hp_host_domains:
  assumes "hp_GenerateProxyConfig cfg envs ord cs = Ok conf"
  shows "h_Domain ` set (hc_Hosts conf) =
    fst ` set (all_writes (\<lambda>i. hp_upstream_writes cfg (envs i)) 0 cs)"
proof -
  from assms obtain st where st: "gen_loop (\<lambda>i. hp_step cfg (envs i)) 0 cs hp_empty = Ok st"
    and dom: "map h_Domain (hc_Hosts conf) = map fst (go_range ord (hp_proxyUpstreams st))"
    by (rule hp_hosts) blast
  have "h_Domain ` set (hc_Hosts conf) = gm_keys (hp_proxyUpstreams st)"
    unfolding gm_keys_def by (metis dom set_go_range list.set_map)
  then show ?thesis using hp_loop_tables(2) [OF st] by simp
qed

lemma hp_host_distinct:
  assumes "hp_GenerateProxyConfig cfg envs ord cs = Ok conf"
  shows "distinct (map h_Domain (hc_Hosts conf))"
proof -
  from assms obtain st where st: "gen_loop (\<lambda>i. hp_step cfg (envs i)) 0 cs hp_empty = Ok st"
    and dom: "map h_Domain (hc_Hosts conf) = map fst (go_range ord (hp_proxyUpstreams st))"
    by (rule hp_hosts) blast
  show ?thesis using hp_loop_tables(1) [OF st] unfolding dom by (simp add: gm_wf_def)
qed

lemma hp_host_upstreams:
  assumes "hp_GenerateProxyConfig cfg envs ord cs = Ok conf" and "h \<in> set (hc_Hosts conf)"
  shows "h_Upstreams h = hp_all (\<lambda>i. hp_upstream_writes cfg (envs i)) cs (h_Domain h)"
  using assms by (metis hp_hosts hp_mk_host_fields(2) snd_conv)

lemma hp_host_attributes:
  assumes "hp_GenerateProxyConfig cfg envs ord cs = Ok conf" and "h \<in> set (hc_Hosts conf)"
  shows "h_Check h = first_or [] (hp_all (\<lambda>i. hp_check_writes (envs i)) cs (h_Domain h))"
    and "h_BackendOptions h = last_or [] (hp_all (\<lambda>i. hp_option_writes (envs i)) cs (h_Domain h))"
    and "h_SSLOnly h =
      last_or False (hp_all (\<lambda>i. hp_accepted_writes SSLOnly (envs i)) cs (h_Domain h))"
    and "h_SSLBackend h =
      last_or False (hp_all (\<lambda>i. hp_accepted_writes SSLBackend (envs i)) cs (h_Domain h))"
    and "h_SSLBackendTLSVerify h =
      last_or [] (hp_all (\<lambda>i. hp_accepted_writes SSLBackendTLSVerify (envs i)) cs (h_Domain h))"
    and "h_BalanceAlgorithm h =
      last_or [] (hp_all (\<lambda>i. hp_accepted_writes BalanceAlgorithm (envs i)) cs (h_Domain h))"
    and "h_ContextRootRewrite h =
      last_or False (hp_all (\<lambda>i. hp_named_writes ContextRootRewrite (envs i)) cs (h_Domain h))"
    and "h_ContextRoot h =
      overwrite None (hp_all (\<lambda>i. hp_context_writes cfg (envs i)) cs (h_Domain h))"
proof -
  from assms obtain st v where st: "gen_loop (\<lambda>i. hp_step cfg (envs i)) 0 cs hp_empty = Ok st"
    and h: "h = hp_mk_host st (h_Domain h, v)"
    by (metis hp_hosts)
  note tabs = hp_loop_tables [OF st]
  show "h_Check h = first_or [] (hp_all (\<lambda>i. hp_check_writes (envs i)) cs (h_Domain h))"
    using arg_cong [OF h, of h_Check] tabs by simp
  show "h_BackendOptions h = last_or [] (hp_all (\<lambda>i. hp_option_writes (envs i)) cs (h_Domain h))"
    using arg_cong [OF h, of h_BackendOptions] tabs by simp
  show "h_SSLOnly h =
      last_or False (hp_all (\<lambda>i. hp_accepted_writes SSLOnly (envs i)) cs (h_Domain h))"
    using arg_cong [OF h, of h_SSLOnly] tabs by simp
  show "h_SSLBackend h =
      last_or False (hp_all (\<lambda>i. hp_accepted_writes SSLBackend (envs i)) cs (h_Domain h))"
    using arg_cong [OF h, of h_SSLBackend] tabs by simp
  show "h_SSLBackendTLSVerify h =
      last_or [] (hp_all (\<lambda>i. hp_accepted_writes SSLBackendTLSVerify (envs i)) cs (h_Domain h))"
    using arg_cong [OF h, of h_SSLBackendTLSVerify] tabs by simp
  show "h_BalanceAlgorithm h =
      last_or [] (hp_all (\<lambda>i. hp_accepted_writes BalanceAlgorithm (envs i)) cs (h_Domain h))"
    using arg_cong [OF h, of h_BalanceAlgorithm] tabs by simp
  show "h_ContextRootRewrite h =
      last_or False (hp_all (\<lambda>i. hp_named_writes ContextRootRewrite (envs i)) cs (h_Domain h))"
    using arg_cong [OF h, of h_ContextRootRewrite] tabs by simp
  show "h_ContextRoot h =
      overwrite None (hp_all (\<lambda>i. hp_context_writes cfg (envs i)) cs (h_Domain h))"
    using arg_cong [OF h, of h_ContextRoot] tabs by simp
qed

lemma hp_host_domain_all:
  assumes "hp_GenerateProxyConfig cfg envs ord cs = Ok conf"
    and "list_all (\<lambda>p. P (fst p)) (all_writes (\<lambda>i. hp_upstream_writes cfg (envs i)) 0 cs)"
    and "h \<in> set (hc_Hosts conf)"
  shows "P (h_Domain h)"
proof -
  have "h_Domain h \<in> fst ` set (all_writes (\<lambda>i. hp_upstream_writes cfg (envs i)) 0 cs)"
    using hp_host_domains [OF assms(1)] assms(3) by blast
  with assms(2) show ?thesis by (auto simp: list_all_iff)
qed

text \<open>The writes to a site no container is accepted for, and those after the last container of one.\<close>

lemma hp_unaccepted:
  assumes "\<forall>j < length cs. \<forall>d cInfo i. hp_accepted (envs j) (cs ! j) = Some (d, cInfo, i) \<longrightarrow> d \<noteq> k"
  shows "j < length cs \<Longrightarrow> k \<notin> fst ` set (hp_accepted_writes f (envs j) (cs ! j))"
    and "hp_all (\<lambda>i. hp_accepted_writes f (envs i)) cs k = []"
proof -
  have no: "k \<notin> fst ` set (hp_accepted_writes f (envs j) (cs ! j))" if "j < length cs" for j
    using assms that
    by (cases "hp_accepted (envs j) (cs ! j)") (auto simp: hp_accepted_writes_def)
  then show "j < length cs \<Longrightarrow> k \<notin> fst ` set (hp_accepted_writes f (envs j) (cs ! j))" .
  show "hp_all (\<lambda>i. hp_accepted_writes f (envs i)) cs k = []"
    using no by (force simp: hp_all_def values_at_empty set_all_writes)
qed

lemma hp_accepted_last:
  assumes "hp_accepted (envs (length cs)) c = Some (k, cInfo, i)"
  shows "hp_all (\<lambda>i. hp_accepted_writes f (envs i)) (cs @ [c]) k =
      hp_all (\<lambda>i. hp_accepted_writes f (envs i)) cs k @ [f (cj_Config cInfo)]"
  using assms by (simp add: hp_all_def all_writes_append hp_accepted_writes_def)

lemma hp_host_name:
  assumes "hp_GenerateProxyConfig cfg envs ord cs = Ok conf" and "h \<in> set (hc_Hosts conf)"
  shows "h_Name h = replace_char CHR ''.'' CHR ''_'' (h_Domain h)"
proof -
  from assms obtain st v where "h = hp_mk_host st (h_Domain h, v)"
    by (metis hp_hosts)
  from arg_cong [OF this, of h_Name] show ?thesis by simp
qed

lemma hp_host_ex:
  assumes "hp_GenerateProxyConfig cfg envs ord cs = Ok conf"
    and "k \<in> fst ` set (all_writes (\<lambda>i. hp_upstream_writes cfg (envs i)) 0 cs)"
  obtains h where "h \<in> set (hc_Hosts conf)" and "h_Domain h = k"
  using assms hp_host_domains [OF assms(1)] by (metis imageE)

lemma hp_served_accepted:
  "hp_served cfg env cnt = Some (d, config, up, net) \<Longrightarrow>
     \<exists>cInfo i. hp_accepted env cnt = Some (d, cInfo, i) \<and> config = cj_Config cInfo"
  by (auto simp: hp_served_def split: option.splits res.splits)

lemma hp_accepted_named:
  "hp_accepted env cnt = Some (d, cInfo, i) \<Longrightarrow> hp_named env cnt = Some (d, cInfo)"
  by (auto simp: hp_accepted_def split: option.splits res.splits)

lemma hp_upstream_context:
  assumes "(k, up) \<in> set (hp_upstream_writes cfg env cnt)"
  shows "\<exists>config. (k, hp_context config) \<in> set (hp_context_writes cfg env cnt)"
proof -
  from assms obtain d config u net where s: "hp_served cfg env cnt = Some (d, config, u, net)"
    and k: "k = d \<or> k \<in> set (AliasDomains (ord_aliases env) config)"
    by (cases "hp_served cfg env cnt") (auto simp: hp_upstream_writes_def)
  from s obtain cInfo i where "hp_accepted env cnt = Some (d, cInfo, i)" and c: "config = cj_Config cInfo"
    by (blast dest: hp_served_accepted)
  then have "hp_named env cnt = Some (d, cInfo)" by (blast dest: hp_accepted_named)
  with s k c show ?thesis
    by (auto simp: hp_context_writes_def hp_named_writes_def)
qed

lemma hp_context_written:
  "(k, cr) \<in> set (hp_context_writes cfg env cnt) \<Longrightarrow> \<exists>config. cr = hp_context config"
  by (auto simp: hp_context_writes_def hp_named_writes_def split: option.splits)

section \<open>Properties of the generator\<close>

text \<open>The configuration of the sample fleet, on which the witnesses run.\<close>

abbreviation fleet_hp :: "container list \<Rightarrow> hp_config res" where
  "fleet_hp \<equiv> hp_GenerateProxyConfig (fleet_ext_config ''haproxy'') (\<lambda>_. fleet_env) (\<lambda>_. 0)"

lemma fleet_hp_ok:
  obtains conf where "fleet_hp fleet = Ok conf"
proof -
  have "is_ok (fleet_hp fleet)" by code_simp
  then show thesis by (rule is_okE) (rule that)
qed

text \<open>C3: the HAProxy configuration has exactly one host per domain that a
  served container publishes under (its own name or an alias), and the upstreams of the host are
  those of the containers of that domain, in the order of the container list, whatever order the
  runtime iterates over the map of upstreams in.\<close>

theorem hp_generate_upstreams:
  assumes "hp_GenerateProxyConfig cfg envs ord cs = Ok conf"
  shows "distinct (map h_Domain (hc_Hosts conf))
    \<and> h_Domain ` set (hc_Hosts conf) =
        fst ` set (all_writes (\<lambda>i. hp_upstream_writes cfg (envs i)) 0 cs)
    \<and> (\<forall>h \<in> set (hc_Hosts conf).
        h_Upstreams h = hp_all (\<lambda>i. hp_upstream_writes cfg (envs i)) cs (h_Domain h))"
  using hp_host_distinct [OF assms] hp_host_domains [OF assms] hp_host_upstreams [OF assms] by blast

theorem hp_generate_upstreams_witness:
  "\<exists>conf. fleet_hp fleet = Ok conf
    \<and> h_Domain ` set (hc_Hosts conf) = {''web.local'', ''www.local'', ''_shop_a''}
    \<and> (\<forall>h \<in> set (hc_Hosts conf). h_Domain h = ''web.local'' \<longrightarrow>
        map up_Addr (h_Upstreams h) = [''10.0.0.1:8080'', ''10.0.0.2:8081''])"
proof -
  obtain conf where c: "fleet_hp fleet = Ok conf" by (rule fleet_hp_ok)
  have d: "fst ` set (all_writes (\<lambda>i. hp_upstream_writes (fleet_ext_config ''haproxy'') fleet_env) 0 fleet)
      = {''web.local'', ''www.local'', ''_shop_a''}"
    by code_simp
  have u: "map up_Addr (hp_all (\<lambda>i. hp_upstream_writes (fleet_ext_config ''haproxy'') fleet_env)
      fleet ''web.local'') = [''10.0.0.1:8080'', ''10.0.0.2:8081'']"
    by code_simp
  show ?thesis using c d u hp_generate_upstreams [OF c] by auto
qed

text \<open>C22: each attribute of a host is that of the last container that reached
  the point where the code writes it, and the zero value where none did; the health check is that of
  the first container with one. A container whose address is then not found has written them all
  the same.\<close>

theorem hp_generate_attributes:
  assumes "hp_GenerateProxyConfig cfg envs ord cs = Ok conf" and "h \<in> set (hc_Hosts conf)"
  shows "h_Check h = first_or [] (hp_all (\<lambda>i. hp_check_writes (envs i)) cs (h_Domain h))
    \<and> h_BackendOptions h = last_or [] (hp_all (\<lambda>i. hp_option_writes (envs i)) cs (h_Domain h))
    \<and> h_SSLOnly h =
      last_or False (hp_all (\<lambda>i. hp_accepted_writes SSLOnly (envs i)) cs (h_Domain h))
    \<and> h_SSLBackend h =
      last_or False (hp_all (\<lambda>i. hp_accepted_writes SSLBackend (envs i)) cs (h_Domain h))
    \<and> h_SSLBackendTLSVerify h =
      last_or [] (hp_all (\<lambda>i. hp_accepted_writes SSLBackendTLSVerify (envs i)) cs (h_Domain h))
    \<and> h_BalanceAlgorithm h =
      last_or [] (hp_all (\<lambda>i. hp_accepted_writes BalanceAlgorithm (envs i)) cs (h_Domain h))
    \<and> h_ContextRootRewrite h =
      last_or False (hp_all (\<lambda>i. hp_named_writes ContextRootRewrite (envs i)) cs (h_Domain h))
    \<and> h_ContextRoot h =
      overwrite None (hp_all (\<lambda>i. hp_context_writes cfg (envs i)) cs (h_Domain h))"
  using hp_host_attributes [OF assms] by blast

theorem hp_generate_attributes_witness:
  "\<exists>conf h. fleet_hp fleet = Ok conf
    \<and> h \<in> set (hc_Hosts conf) \<and> h_Domain h = ''web.local''
    \<and> h_SSLOnly h \<and> h_BalanceAlgorithm h = ''roundrobin''"
proof -
  obtain conf where c: "fleet_hp fleet = Ok conf" by (rule fleet_hp_ok)
  have "''web.local'' \<in> fst ` set (all_writes (\<lambda>i. hp_upstream_writes (fleet_ext_config ''haproxy'') fleet_env) 0 fleet)"
    by code_simp
  then obtain h where h: "h \<in> set (hc_Hosts conf)" "h_Domain h = ''web.local''"
    by (rule hp_host_ex [OF c])
  have s: "last_or False (hp_all (\<lambda>i. hp_accepted_writes SSLOnly fleet_env) fleet ''web.local'')"
    and b: "last_or [] (hp_all (\<lambda>i. hp_accepted_writes BalanceAlgorithm fleet_env) fleet ''web.local'')
      = ''roundrobin''"
    by code_simp+
  have "h_SSLOnly h \<and> h_BalanceAlgorithm h = ''roundrobin''"
    using hp_generate_attributes [OF c h(1)] s b h(2) by simp
  with c h show ?thesis by blast
qed

text \<open>No host of the configuration has a nil context root, which the template
  dereferences; its name is its path with the slashes replaced.\<close>

theorem hp_context_root_set:
  assumes "hp_GenerateProxyConfig cfg envs ord cs = Ok conf" and "h \<in> set (hc_Hosts conf)"
  shows "\<exists>cr. h_ContextRoot h = Some cr \<and> cr_Name cr = replace_char CHR ''/'' CHR ''_'' (cr_Path cr)"
proof -
  let ?ctx = "all_writes (\<lambda>i. hp_context_writes cfg (envs i)) 0 cs"
  have "h_Domain h \<in> fst ` set (all_writes (\<lambda>i. hp_upstream_writes cfg (envs i)) 0 cs)"
    using hp_host_domains [OF assms(1)] assms(2) by blast
  then have "h_Domain h \<in> fst ` set ?ctx"
    by (fastforce simp: set_all_writes image_iff Bex_def dest: hp_upstream_context)
  then have ne: "hp_all (\<lambda>i. hp_context_writes cfg (envs i)) cs (h_Domain h) \<noteq> []"
    by (simp add: hp_all_def values_at_empty)
  then have "h_ContextRoot h = Some (last (hp_all (\<lambda>i. hp_context_writes cfg (envs i)) cs (h_Domain h)))"
    using hp_host_attributes(8) [OF assms] by (simp add: overwrite_def)
  moreover have "\<exists>config. last (hp_all (\<lambda>i. hp_context_writes cfg (envs i)) cs (h_Domain h)) = hp_context config"
    using last_in_set [OF ne] hp_context_written
    by (auto simp: hp_all_def set_values_at set_all_writes)
  ultimately show ?thesis by (auto simp: hp_context_def contextRootName_def)
qed

theorem hp_context_root_set_witness:
  "\<exists>conf h. fleet_hp fleet = Ok conf \<and> h \<in> set (hc_Hosts conf) \<and> h_Domain h = ''_shop_a''
    \<and> (\<exists>cr. h_ContextRoot h = Some cr \<and> cr_Name cr = replace_char CHR ''/'' CHR ''_'' (cr_Path cr))"
proof -
  obtain conf where c: "fleet_hp fleet = Ok conf" by (rule fleet_hp_ok)
  have "''_shop_a'' \<in> fst ` set (all_writes (\<lambda>i. hp_upstream_writes (fleet_ext_config ''haproxy'') fleet_env) 0 fleet)"
    by code_simp
  then obtain h where h: "h \<in> set (hc_Hosts conf)" "h_Domain h = ''_shop_a''"
    by (rule hp_host_ex [OF c])
  with c hp_context_root_set [OF c h(1)] show ?thesis by blast
qed

text \<open>C30: a host that exists only as an alias of other sites has none of
  the attributes of those sites: it is not restricted to TLS, its backend is not reached over TLS, and
  its balance algorithm is the empty string, which the template writes into the backend section.\<close>

theorem hp_alias_host_unconfigured:
  assumes "hp_GenerateProxyConfig cfg envs ord cs = Ok conf" and "h \<in> set (hc_Hosts conf)"
    and "\<forall>j < length cs. \<forall>d cInfo i.
      hp_accepted (envs j) (cs ! j) = Some (d, cInfo, i) \<longrightarrow> d \<noteq> h_Domain h"
  shows "\<not> h_SSLOnly h \<and> \<not> h_SSLBackend h \<and> h_BalanceAlgorithm h = []
    \<and> h_SSLBackendTLSVerify h = [] \<and> h_Check h = [] \<and> h_BackendOptions h = []"
proof -
  have "hp_all (\<lambda>i. hp_check_writes (envs i)) cs (h_Domain h) = []"
    and "hp_all (\<lambda>i. hp_option_writes (envs i)) cs (h_Domain h) = []"
    using hp_unaccepted(1) [OF assms(3)]
    by (force simp: hp_all_def values_at_empty set_all_writes hp_check_writes_def
        hp_option_writes_def)+
  with hp_host_attributes [OF assms(1,2)] show ?thesis
    by (simp add: first_or_def hp_unaccepted(2) [OF assms(3)])
qed

theorem hp_alias_host_unconfigured_witness:
  "\<exists>conf h. fleet_hp [listed web1] = Ok conf \<and> h \<in> set (hc_Hosts conf) \<and> h_Domain h = ''www.local''
    \<and> SSLOnly (cj_Config web1) \<and> \<not> h_SSLOnly h \<and> h_BalanceAlgorithm h = []"
proof -
  have "is_ok (fleet_hp [listed web1])" by code_simp
  then obtain conf where c: "fleet_hp [listed web1] = Ok conf" by (rule is_okE)
  have "''www.local'' \<in> fst ` set (all_writes (\<lambda>i. hp_upstream_writes (fleet_ext_config ''haproxy'') fleet_env)
      0 [listed web1])"
    by code_simp
  then obtain h where h: "h \<in> set (hc_Hosts conf)" "h_Domain h = ''www.local''"
    by (rule hp_host_ex [OF c])
  have a: "hp_accepted fleet_env (listed web1) = Some (''web.local'', web1, 5000)"
    and s: "SSLOnly (cj_Config web1)"
    by code_simp+
  have "\<not> h_SSLOnly h \<and> h_BalanceAlgorithm h = []"
    using hp_alias_host_unconfigured [OF c h(1)] a h(2) by auto
  with c h s show ?thesis by blast
qed

text \<open>The last container that names a site decides its attributes,
  also when it has no published port and so is not among the site's upstreams.\<close>

theorem hp_last_container_decides:
  assumes "hp_GenerateProxyConfig cfg envs ord (cs @ [c]) = Ok conf"
    and "hp_accepted (envs (length cs)) c = Some (h_Domain h, cInfo, i)"
    and "h \<in> set (hc_Hosts conf)"
  shows "h_SSLOnly h = SSLOnly (cj_Config cInfo)
    \<and> h_SSLBackend h = SSLBackend (cj_Config cInfo)
    \<and> h_BalanceAlgorithm h = BalanceAlgorithm (cj_Config cInfo)"
proof -
  show ?thesis
    using hp_host_attributes [OF assms(1,3)]
    by (simp add: hp_accepted_last [where envs = envs and cs = cs, OF assms(2)])
qed

theorem hp_last_container_decides_witness:
  "\<exists>conf h. fleet_hp (fleet @ [listed stopped]) = Ok conf \<and> h \<in> set (hc_Hosts conf)
    \<and> h_Domain h = ''web.local'' \<and> \<not> h_SSLOnly h
    \<and> hp_served (fleet_ext_config ''haproxy'') fleet_env (listed stopped) = None"
proof -
  have "is_ok (fleet_hp (fleet @ [listed stopped]))" by code_simp
  then obtain conf where c: "fleet_hp (fleet @ [listed stopped]) = Ok conf" by (rule is_okE)
  have "''web.local'' \<in> fst ` set (all_writes (\<lambda>i. hp_upstream_writes (fleet_ext_config ''haproxy'') fleet_env)
      0 (fleet @ [listed stopped]))"
    by code_simp
  then obtain h where h: "h \<in> set (hc_Hosts conf)" "h_Domain h = ''web.local''"
    by (rule hp_host_ex [OF c])
  have a: "hp_accepted fleet_env (listed stopped) = Some (''web.local'', stopped, 5000)"
    and s: "hp_served (fleet_ext_config ''haproxy'') fleet_env (listed stopped) = None"
    and n: "\<not> SSLOnly (cj_Config stopped)"
    by code_simp+
  have "h_SSLOnly h = SSLOnly (cj_Config stopped)"
    using hp_last_container_decides [OF c, of h stopped 5000] a h by simp
  with c h s n show ?thesis by blast
qed

text \<open>A container that the engine cannot inspect makes the whole
  generation fail with the engine's error, whatever containers follow it.\<close>

theorem hp_inspect_failure_aborts:
  assumes "is_ok (hp_GenerateProxyConfig cfg envs ord cs)"
    and "12 \<le> length (ct_ID c)"
    and "ContainerInspect (envs (length cs)) (take 12 (ct_ID c)) = Err e"
  shows "hp_GenerateProxyConfig cfg envs ord (cs @ c # ds) = Err e"
proof -
  from assms(1) obtain conf where "hp_GenerateProxyConfig cfg envs ord cs = Ok conf" by (rule is_okE)
  then obtain st where "gen_loop (\<lambda>i. hp_step cfg (envs i)) 0 cs hp_empty = Ok st"
    by (rule hp_generateE)
  with assms(2,3) show ?thesis
    by (simp add: hp_GenerateProxyConfig_def gen_loop_append hp_step_def go_slice_to_def)
qed

theorem hp_inspect_failure_aborts_witness:
  "fleet_hp ([listed web1] @ (listed web2)\<lparr>ct_ID := ''removed-container''\<rparr> # [listed app1])
     = Err ''No such container''"
proof (rule hp_inspect_failure_aborts)
  show "is_ok (fleet_hp [listed web1])" by code_simp
  show "12 \<le> length (ct_ID ((listed web2)\<lparr>ct_ID := ''removed-container''\<rparr>))" by simp
  show "ContainerInspect fleet_env (take 12 (ct_ID ((listed web2)\<lparr>ct_ID := ''removed-container''\<rparr>)))
      = Err ''No such container''"
    by code_simp
qed

text \<open>What the generator relies on not to panic.\<close>

definition hp_container_safe :: "gen_env \<Rightarrow> container \<Rightarrow> bool" where
  "hp_container_safe env cnt \<longleftrightarrow>
     12 \<le> length (ct_ID cnt) \<and>
     (case ContainerInspect env (take 12 (ct_ID cnt)) of
        Panic p \<Rightarrow> False
      | Err e \<Rightarrow> True
      | Ok cInfo \<Rightarrow>
          cj_Name cInfo \<noteq> [] \<and> label_port_published cInfo \<and>
          (case OverlayEnabled (cj_Config cInfo) of
             None \<Rightarrow> True | Some n \<Rightarrow> \<not> is_panic (NetworkInspect env n)))"

lemma hp_step_no_panic:
  assumes "hp_container_safe env cnt"
  shows "\<not> is_panic (hp_step cfg env cnt st)"
proof -
  from assms have len: "12 \<le> length (ct_ID cnt)"
    and np: "\<not> is_panic (ContainerInspect env (take 12 (ct_ID cnt)))"
    by (auto simp: hp_container_safe_def split: res.splits)
  have "cj_Name cInfo \<noteq> [] \<and> \<not> is_panic (container_addr (BackendOverrideAddress cfg) env cInfo)"
    if "ContainerInspect env (take 12 (ct_ID cnt)) = Ok cInfo" for cInfo
  proof
    from assms that show "cj_Name cInfo \<noteq> []" by (simp add: hp_container_safe_def)
    show "\<not> is_panic (container_addr (BackendOverrideAddress cfg) env cInfo)"
      by (rule container_addr_no_panic) (use assms that in \<open>simp_all add: hp_container_safe_def\<close>)
  qed
  with len np show ?thesis
    by (auto simp: hp_step_def go_res Let_def HealthCheckInterval_no_panic HealthCheckInterval_not_Panic
        split: option.splits res.splits )
qed

text \<open>C24: the generator does not panic when the engine gives full container ids
  and names and every port that a port label selects is published.\<close>

theorem hp_generate_no_panic:
  assumes "\<And>j. j < length cs \<Longrightarrow> hp_container_safe (envs j) (cs ! j)"
  shows "\<not> is_panic (hp_GenerateProxyConfig cfg envs ord cs)"
  using gen_loop_no_panic [of cs "\<lambda>i. hp_step cfg (envs i)" 0 hp_empty] assms
  by (simp add: hp_GenerateProxyConfig_def go_res hp_step_no_panic)

theorem hp_generate_no_panic_witness:
  "list_all (hp_container_safe fleet_env) fleet \<and> \<not> is_panic (fleet_hp fleet)"
proof -
  have safe: "list_all (hp_container_safe fleet_env) fleet" by code_simp
  then have "\<not> is_panic (fleet_hp fleet)"
    by (intro hp_generate_no_panic) (simp add: list_all_length)
  with safe show ?thesis by blast
qed

text \<open>The order in which the runtime iterates over the map of upstreams changes
  only the order of the hosts.\<close>

theorem hp_generate_order:
  assumes "hp_GenerateProxyConfig cfg envs ord cs = Ok conf"
  shows "\<exists>conf'. hp_GenerateProxyConfig cfg envs ord' cs = Ok conf'
    \<and> mset (hc_Hosts conf') = mset (hc_Hosts conf)
    \<and> hc_Config conf' = hc_Config conf \<and> hc_Networks conf' = hc_Networks conf"
  using assms by (auto simp: hp_GenerateProxyConfig_def go_res)

theorem hp_generate_order_witness:
  "\<exists>conf conf'. fleet_hp fleet = Ok conf
    \<and> hp_GenerateProxyConfig (fleet_ext_config ''haproxy'') (\<lambda>_. fleet_env) (\<lambda>n. n) fleet = Ok conf'
    \<and> mset (hc_Hosts conf') = mset (hc_Hosts conf)"
proof -
  obtain conf where c: "fleet_hp fleet = Ok conf" by (rule fleet_hp_ok)
  with hp_generate_order [OF c, of "\<lambda>n. n"] show ?thesis by blast
qed

text \<open>The names of the backend sections, the domains with the dots
  replaced, are distinct as long as no domain holds an underscore.\<close>

theorem hp_backend_names_distinct:
  assumes "hp_GenerateProxyConfig cfg envs ord cs = Ok conf"
    and "\<And>h. h \<in> set (hc_Hosts conf) \<Longrightarrow> CHR ''_'' \<notin> set (h_Domain h)"
  shows "distinct (map h_Name (hc_Hosts conf))"
proof -
  have "h_Name h = replace_char CHR ''.'' CHR ''_'' (h_Domain h)" if "h \<in> set (hc_Hosts conf)" for h
    by (rule hp_host_name [OF assms(1) that])
  then have "map h_Name (hc_Hosts conf) = map (replace_char CHR ''.'' CHR ''_'') (map h_Domain (hc_Hosts conf))"
    by simp
  moreover have "inj_on (replace_char CHR ''.'' CHR ''_'') (set (map h_Domain (hc_Hosts conf)))"
  proof (rule inj_onI)
    fix s t assume "s \<in> set (map h_Domain (hc_Hosts conf))" "t \<in> set (map h_Domain (hc_Hosts conf))"
      and eq: "replace_char CHR ''.'' CHR ''_'' s = replace_char CHR ''.'' CHR ''_'' t"
    then have "CHR ''_'' \<notin> set s" "CHR ''_'' \<notin> set t" using assms(2) by auto
    then show "s = t" using eq by (rule replace_char_inj)
  qed
  ultimately show ?thesis
    using hp_host_distinct [OF assms(1)] by (simp only: distinct_map)
qed

theorem hp_backend_names_distinct_witness:
  "\<exists>conf. fleet_hp [listed web1, listed web2] = Ok conf \<and> distinct (map h_Name (hc_Hosts conf))"
proof -
  have "is_ok (fleet_hp [listed web1, listed web2])" by code_simp
  then obtain conf where c: "fleet_hp [listed web1, listed web2] = Ok conf" by (rule is_okE)
  have "list_all (\<lambda>p. CHR ''_'' \<notin> set (fst p))
      (all_writes (\<lambda>i. hp_upstream_writes (fleet_ext_config ''haproxy'') fleet_env) 0
        [listed web1, listed web2])"
    by code_simp
  then have "\<And>h. h \<in> set (hc_Hosts conf) \<Longrightarrow> CHR ''_'' \<notin> set (h_Domain h)"
    by (rule hp_host_domain_all [OF c])
  with c hp_backend_names_distinct [OF c] show ?thesis by blast
qed

end
