(* ===== verification/Go_Path.thy ===== *)
theory Go_Path
  imports Go_Strings
begin

text \<open>
  \<open>filepath.Join\<close>, \<open>filepath.Dir\<close>, \<open>path.Dir\<close> and \<open>path.Base\<close> on slash-separated paths. \<open>Clean\<close> works
  on the parts between slashes: it drops empty parts and \<open>.\<close>, and lets \<open>..\<close> remove the part before
  it.
\<close>

fun clean_parts :: "bool \<Rightarrow> string list \<Rightarrow> string list \<Rightarrow> string list" where
  "clean_parts rooted acc [] = rev acc"
| "clean_parts rooted acc (p # ps) =
     (if p = [] \<or> p = ''.'' then clean_parts rooted acc ps
      else if p = ''..'' then
        (case acc of
           [] \<Rightarrow> if rooted then clean_parts rooted [] ps else clean_parts rooted [p] ps
         | q # qs \<Rightarrow> if q = ''..'' then clean_parts rooted (p # acc) ps
                     else clean_parts rooted qs ps)
      else clean_parts rooted (p # acc) ps)"

definition path_Clean :: "string \<Rightarrow> string" where
  "path_Clean p =
     (let rooted = (take 1 p = ''/'');
          body = join_with ''/'' (clean_parts rooted [] (split_on CHR ''/'' p))
      in if rooted then CHR ''/'' # body else if body = [] then ''.'' else body)"

definition path_Join :: "string \<Rightarrow> string \<Rightarrow> string" where
  "path_Join a b =
     (if a = [] \<and> b = [] then []
      else if a = [] then path_Clean b
      else if b = [] then path_Clean a
      else path_Clean (a @ ''/'' @ b))"

text \<open>The part up to and including the last slash, and the part after it.\<close>

definition upto_slash :: "string \<Rightarrow> string" where
  "upto_slash p = rev (dropWhile (\<lambda>c. c \<noteq> CHR ''/'') (rev p))"

definition after_slash :: "string \<Rightarrow> string" where
  "after_slash p = rev (takeWhile (\<lambda>c. c \<noteq> CHR ''/'') (rev p))"

definition path_Dir :: "string \<Rightarrow> string" where
  "path_Dir p = path_Clean (upto_slash p)"

definition path_Base :: "string \<Rightarrow> string" where
  "path_Base p =
     (if p = [] then ''.''
      else let q = rev (dropWhile (\<lambda>c. c = CHR ''/'') (rev p))
           in if q = [] then ''/'' else after_slash q)"

lemma upto_after_slash: "upto_slash p @ after_slash p = p"
  by (simp add: upto_slash_def after_slash_def flip: rev_append)

lemma after_slash_no_slash: "CHR ''/'' \<notin> set (after_slash p)"
  by (auto simp: after_slash_def dest: set_takeWhileD)

text \<open>The name a configuration file is copied under holds no slash, unless the path is only slashes.\<close>

lemma path_Base_no_slash:
  "path_Base p \<noteq> ''/'' \<Longrightarrow> CHR ''/'' \<notin> set (path_Base p)"
  by (auto simp: path_Base_def Let_def after_slash_no_slash split: if_splits)

text \<open>A rooted path never climbs above its root.\<close>

lemma clean_parts_rooted:
  assumes "''..'' \<notin> set acc"
  shows "''..'' \<notin> set (clean_parts True acc ps)"
  using assms
proof (induction ps arbitrary: acc)
  case Nil
  then show ?case by simp
next
  case (Cons p ps)
  then show ?case by (cases acc) auto
qed

lemma path_examples:
  "path_Dir ''/etc/nginx/nginx.conf'' = ''/etc/nginx''"
  "path_Base ''/etc/nginx/nginx.conf'' = ''nginx.conf''"
  "path_Join ''/etc/ssl'' ''../x.pem'' = ''/etc/x.pem''"
  "path_Dir ''nginx.conf'' = ''.''"
  by code_simp+

end
