(* ===== verification/Nginx.thy ===== *)
theory Nginx
  imports Lb_Network Gen_Loop Ext_Config Go_Path Sample_Fleet
begin

text \<open>
  \<open>ext/lb/nginx/config.go\<close> and \<open>generate.go\<close>: the Nginx backend's configuration data and
  \<open>GenerateProxyConfig\<close>, in the form of \<open>Haproxy\<close>. Unlike the HAProxy backend it logs a failed
  inspect and goes on with the next container.
\<close>

section \<open>Data (config.go)\<close>

record ng_server =
  srv_Addr :: string

record ng_upstream =
  nu_Name :: string
  nu_Servers :: "ng_server list"

record ng_context_root =
  nr_cr_Name :: string
  nr_cr_Path :: string

record ng_host =
  n_ServerNames :: "string list"
  n_Port :: int
  n_ContextRoot :: "ng_context_root option"
  n_ContextRootRewrite :: bool
  n_SSLPort :: int
  n_SSL :: bool
  n_SSLCert :: string
  n_SSLCertKey :: string
  n_SSLOnly :: bool
  n_SSLBackend :: bool
  n_Upstream :: ng_upstream
  n_WebsocketEndpoints :: "string list"
  n_IPHash :: bool

record ng_config =
  nc_Hosts :: "ng_host list"
  nc_Config :: ext_config
  nc_Networks :: "(string, string) gomap"

text \<open>The local maps of \<open>GenerateProxyConfig\<close>.\<close>

record ng_state =
  ng_upstreamServers :: "(string, string list) gomap"
  ng_serverNames :: "(string, string list) gomap"
  ng_hostContextRoots :: "(string, ng_context_root) gomap"
  ng_hostContextRootRewrites :: "(string, bool) gomap"
  ng_hostSSL :: "(string, bool) gomap"
  ng_hostSSLCert :: "(string, string) gomap"
  ng_hostSSLCertKey :: "(string, string) gomap"
  ng_hostSSLOnly :: "(string, bool) gomap"
  ng_hostSSLBackend :: "(string, bool) gomap"
  ng_hostWebsocketEndpoints :: "(string, string list) gomap"
  ng_hostIPHash :: "(string, bool) gomap"
  ng_networks :: "(string, string) gomap"

definition ng_empty :: ng_state where
  "ng_empty = \<lparr>ng_upstreamServers = [], ng_serverNames = [], ng_hostContextRoots = [],
     ng_hostContextRootRewrites = [], ng_hostSSL = [], ng_hostSSLCert = [], ng_hostSSLCertKey
     = [], ng_hostSSLOnly = [], ng_hostSSLBackend = [], ng_hostWebsocketEndpoints = [],
     ng_hostIPHash = [], ng_networks = []\<rparr>"

section \<open>One iteration\<close>

definition ng_context :: "container_config \<Rightarrow> ng_context_root" where
  "ng_context config =
     \<lparr>nr_cr_Name = contextRootName config, nr_cr_Path = ContextRoot config\<rparr>"

definition ng_meta :: "string \<Rightarrow> container_config \<Rightarrow> ng_state \<Rightarrow> ng_state" where
  "ng_meta domain config st = st\<lparr>
     ng_hostContextRoots := gm_set domain (ng_context config) (ng_hostContextRoots st),
     ng_hostContextRootRewrites :=
       gm_set domain (ContextRootRewrite config) (ng_hostContextRootRewrites st),
     ng_serverNames :=
       (if gm_has (ng_serverNames st) domain then ng_serverNames st
        else gm_set domain [domain] (ng_serverNames st)),
     ng_hostSSL := gm_set domain (SSLEnabled config) (ng_hostSSL st),
     ng_hostSSLOnly := gm_set domain (SSLOnly config) (ng_hostSSLOnly st),
     ng_hostIPHash := gm_set domain (IPHash config) (ng_hostIPHash st),
     ng_hostSSLBackend := gm_set domain (SSLBackend config) (ng_hostSSLBackend st)\<rparr>"

definition ng_certs :: "string \<Rightarrow> string \<Rightarrow> container_config \<Rightarrow> ng_state \<Rightarrow> ng_state" where
  "ng_certs baseCertPath domain config st =
     (let certName = SSLCertName config; certKeyName = SSLCertKey config
      in st\<lparr>
        ng_hostSSLCert :=
          (if certName \<noteq> [] then gm_set domain (path_Join baseCertPath certName) (ng_hostSSLCert st)
           else ng_hostSSLCert st),
        ng_hostSSLCertKey :=
          (if certKeyName \<noteq> []
           then gm_set domain (path_Join baseCertPath certKeyName) (ng_hostSSLCertKey st)
           else ng_hostSSLCertKey st)\<rparr>)"

definition ng_network :: "string option \<Rightarrow> ng_state \<Rightarrow> ng_state" where
  "ng_network net st =
     (case net of None \<Rightarrow> st | Some n \<Rightarrow> st\<lparr>ng_networks := gm_set n [] (ng_networks st)\<rparr>)"

definition ng_websocket :: "string \<Rightarrow> string \<Rightarrow> ng_state \<Rightarrow> ng_state" where
  "ng_websocket domain ws st = st\<lparr>
     ng_hostWebsocketEndpoints := gm_append domain ws (ng_hostWebsocketEndpoints st)\<rparr>"

definition ng_alias :: "string \<Rightarrow> container_config \<Rightarrow> string \<Rightarrow> ng_state \<Rightarrow> ng_state" where
  "ng_alias domain config alias st = st\<lparr>
     ng_serverNames := gm_append domain alias (ng_serverNames st),
     ng_hostContextRoots := gm_set alias (ng_context config) (ng_hostContextRoots st)\<rparr>"

definition ng_add_upstream ::
  "gen_env \<Rightarrow> string \<Rightarrow> container_config \<Rightarrow> string \<Rightarrow> ng_state \<Rightarrow> ng_state" where
  "ng_add_upstream env domain config addr st =
     (let st = fold (ng_websocket domain) (WebsocketEndpoints (ord_websockets env) config) st;
          st = fold (ng_alias domain config) (AliasDomains (ord_aliases env) config) st
      in st\<lparr>ng_upstreamServers := gm_append domain addr (ng_upstreamServers st)\<rparr>)"

definition ng_step :: "ext_config \<Rightarrow> gen_env \<Rightarrow> container \<Rightarrow> ng_state \<Rightarrow> ng_state res" where
  "ng_step cfg env c st =
     res_bind (go_slice_to 12 (ct_ID c)) (\<lambda>cntId.
       (case ContainerInspect env (ct_ID c) of
          Panic p \<Rightarrow> Panic p
        | Err e \<Rightarrow> Ok st
        | Ok cInfo \<Rightarrow>
            (case site_domain (cj_Config cInfo) of
               None \<Rightarrow> Ok st
             | Some domain \<Rightarrow>
                 (let st = ng_certs (SSLCertPath cfg) domain (cj_Config cInfo)
                             (ng_meta domain (cj_Config cInfo) st)
                  in res_bind (container_addr (BackendOverrideAddress cfg) env cInfo) (\<lambda>found.
                       case found of
                         None \<Rightarrow> Ok st
                       | Some (addr, net) \<Rightarrow>
                           Ok (ng_add_upstream env domain (cj_Config cInfo) addr
                                 (ng_network net st)))))))"

section \<open>The function\<close>

definition ng_mk_host :: "ext_config \<Rightarrow> ng_state \<Rightarrow> string \<times> string list \<Rightarrow> ng_host" where
  "ng_mk_host cfg st kv = (case kv of (k, v) \<Rightarrow>
     \<lparr>n_ServerNames = gm_at [] (ng_serverNames st) k,
      n_Port = Port cfg,
      n_ContextRoot = gm_get (ng_hostContextRoots st) k,
      n_ContextRootRewrite = gm_at False (ng_hostContextRootRewrites st) k,
      n_SSLPort = SSLPort cfg,
      n_SSL = gm_at False (ng_hostSSL st) k,
      n_SSLCert = gm_at [] (ng_hostSSLCert st) k,
      n_SSLCertKey = gm_at [] (ng_hostSSLCertKey st) k,
      n_SSLOnly = gm_at False (ng_hostSSLOnly st) k,
      n_SSLBackend = gm_at False (ng_hostSSLBackend st) k,
      n_Upstream = \<lparr>nu_Name = k, nu_Servers = map (\<lambda>s. \<lparr>srv_Addr = s\<rparr>) v\<rparr>,
      n_WebsocketEndpoints = gm_at [] (ng_hostWebsocketEndpoints st) k,
      n_IPHash = gm_at False (ng_hostIPHash st) k\<rparr>)"

definition ng_GenerateProxyConfig ::
  "ext_config \<Rightarrow> (nat \<Rightarrow> gen_env) \<Rightarrow> order \<Rightarrow> container list \<Rightarrow> ng_config res" where
  "ng_GenerateProxyConfig cfg envs ord containers =
     res_bind (gen_loop (\<lambda>i. ng_step cfg (envs i)) 0 containers ng_empty) (\<lambda>st.
       Ok \<lparr>nc_Hosts = map (ng_mk_host cfg st) (go_range ord (ng_upstreamServers st)),
           nc_Config = cfg,
           nc_Networks = ng_networks st\<rparr>)"

section \<open>What an iteration writes\<close>

text \<open>How far a container gets: it names a site; it has an address.\<close>

definition ng_named :: "gen_env \<Rightarrow> container \<Rightarrow> (string \<times> container_json) option" where
  "ng_named env cnt =
     (case ContainerInspect env (ct_ID cnt) of
        Ok cInfo \<Rightarrow> map_option (\<lambda>d. (d, cInfo)) (site_domain (cj_Config cInfo))
      | _ \<Rightarrow> None)"

definition ng_served ::
  "ext_config \<Rightarrow> gen_env \<Rightarrow> container \<Rightarrow>
     (string \<times> container_config \<times> string \<times> string option) option" where
  "ng_served cfg env cnt =
     (case ng_named env cnt of
        None \<Rightarrow> None
      | Some (d, cInfo) \<Rightarrow>
          (case container_addr (BackendOverrideAddress cfg) env cInfo of
             Ok (Some (addr, net)) \<Rightarrow> Some (d, cj_Config cInfo, addr, net)
           | _ \<Rightarrow> None))"

text \<open>The writes of one iteration, per map.\<close>

definition ng_named_writes ::
  "(container_config \<Rightarrow> 'v) \<Rightarrow> gen_env \<Rightarrow> container \<Rightarrow> (string \<times> 'v) list" where
  "ng_named_writes f env cnt =
     (case ng_named env cnt of None \<Rightarrow> [] | Some (d, cInfo) \<Rightarrow> [(d, f (cj_Config cInfo))])"

definition ng_cert_writes ::
  "string \<Rightarrow> (container_config \<Rightarrow> string) \<Rightarrow> gen_env \<Rightarrow> container \<Rightarrow> (string \<times> string) list" where
  "ng_cert_writes base f env cnt =
     map (\<lambda>(d, n). (d, path_Join base n)) (filter (\<lambda>p. snd p \<noteq> []) (ng_named_writes f env cnt))"

definition ng_upstream_writes ::
  "ext_config \<Rightarrow> gen_env \<Rightarrow> container \<Rightarrow> (string \<times> string) list" where
  "ng_upstream_writes cfg env cnt =
     (case ng_served cfg env cnt of None \<Rightarrow> [] | Some (d, config, addr, net) \<Rightarrow> [(d, addr)])"

definition ng_list_writes ::
  "(gen_env \<Rightarrow> container_config \<Rightarrow> string list) \<Rightarrow> ext_config \<Rightarrow> gen_env \<Rightarrow> container \<Rightarrow>
     (string \<times> string) list" where
  "ng_list_writes f cfg env cnt =
     (case ng_served cfg env cnt of
        None \<Rightarrow> [] | Some (d, config, addr, net) \<Rightarrow> map (\<lambda>v. (d, v)) (f env config))"

abbreviation "ng_alias_writes \<equiv> ng_list_writes (\<lambda>env. AliasDomains (ord_aliases env))"

abbreviation "ng_websocket_writes \<equiv> ng_list_writes (\<lambda>env. WebsocketEndpoints (ord_websockets env))"

definition ng_context_writes ::
  "ext_config \<Rightarrow> gen_env \<Rightarrow> container \<Rightarrow> (string \<times> ng_context_root) list" where
  "ng_context_writes cfg env cnt =
     ng_named_writes ng_context env cnt @
     (case ng_served cfg env cnt of
        None \<Rightarrow> []
      | Some (d, config, addr, net) \<Rightarrow>
          map (\<lambda>a. (a, ng_context config)) (AliasDomains (ord_aliases env) config))"

definition ng_network_writes :: "ext_config \<Rightarrow> gen_env \<Rightarrow> container \<Rightarrow> (string \<times> string) list" where
  "ng_network_writes cfg env cnt =
     (case ng_served cfg env cnt of Some (d, config, addr, Some n) \<Rightarrow> [(n, [])] | _ \<Rightarrow> [])"

lemmas ng_writes =
  ng_named_writes_def ng_cert_writes_def ng_upstream_writes_def ng_list_writes_def
  ng_context_writes_def ng_network_writes_def

text \<open>The three ways an iteration ends without a panic; it never ends with an error.\<close>

lemma ng_step_cases:
  assumes "ng_step cfg env cnt st = Ok st'"
  obtains
    (unnamed) "ng_named env cnt = None" "ng_served cfg env cnt = None" "st' = st"
  | (unserved) d cInfo where
      "ng_named env cnt = Some (d, cInfo)" "ng_served cfg env cnt = None"
      "st' = ng_certs (SSLCertPath cfg) d (cj_Config cInfo) (ng_meta d (cj_Config cInfo) st)"
  | (served) d cInfo addr net where
      "ng_named env cnt = Some (d, cInfo)"
      "ng_served cfg env cnt = Some (d, cj_Config cInfo, addr, net)"
      "st' = ng_add_upstream env d (cj_Config cInfo) addr
               (ng_network net (ng_certs (SSLCertPath cfg) d (cj_Config cInfo)
                 (ng_meta d (cj_Config cInfo) st)))"
proof (cases "ContainerInspect env (ct_ID cnt)")
  case (Err e)
  with assms show thesis
    by (intro unnamed) (auto simp: ng_step_def go_res ng_named_def ng_served_def)
next
  case (Panic p)
  with assms have False by (auto simp: ng_step_def go_res)
  then show thesis ..
next
  case (Ok cInfo)
  show thesis
  proof (cases "site_domain (cj_Config cInfo)")
    case None
    with Ok assms show thesis
      by (intro unnamed) (auto simp: ng_step_def go_res ng_named_def ng_served_def)
  next
    case (Some d)
    with Ok have n: "ng_named env cnt = Some (d, cInfo)" by (simp add: ng_named_def)
    from assms Ok Some obtain found
      where f: "container_addr (BackendOverrideAddress cfg) env cInfo = res.Ok found"
      by (auto simp: ng_step_def go_res Let_def)
    show thesis
    proof (cases found)
      case None
      with f n Ok Some assms show thesis
        by (intro unserved) (auto simp: ng_step_def go_res ng_served_def Let_def)
    next
      case (Some an)
      obtain addr net where "an = (addr, net)" by (cases an)
      with f n Ok \<open>site_domain (cj_Config cInfo) = _\<close> Some assms show thesis
        by (intro served) (auto simp: ng_step_def go_res ng_served_def Let_def)
    qed
  qed
qed

text \<open>The effect of each part of an iteration on each map.\<close>

named_theorems ng_field "the maps of the state after a part of an iteration"

lemma ng_meta_fields [ng_field]:
  "ng_upstreamServers (ng_meta d config st) = ng_upstreamServers st"
  "ng_serverNames (ng_meta d config st) =
     (if gm_has (ng_serverNames st) d then ng_serverNames st
      else gm_set d [d] (ng_serverNames st))"
  "ng_hostContextRoots (ng_meta d config st) =
     gm_set d (ng_context config) (ng_hostContextRoots st)"
  "ng_hostContextRootRewrites (ng_meta d config st) =
     gm_set d (ContextRootRewrite config) (ng_hostContextRootRewrites st)"
  "ng_hostSSL (ng_meta d config st) =
     gm_set d (SSLEnabled config) (ng_hostSSL st)"
  "ng_hostSSLCert (ng_meta d config st) = ng_hostSSLCert st"
  "ng_hostSSLCertKey (ng_meta d config st) = ng_hostSSLCertKey st"
  "ng_hostSSLOnly (ng_meta d config st) =
     gm_set d (SSLOnly config) (ng_hostSSLOnly st)"
  "ng_hostSSLBackend (ng_meta d config st) =
     gm_set d (SSLBackend config) (ng_hostSSLBackend st)"
  "ng_hostWebsocketEndpoints (ng_meta d config st) = ng_hostWebsocketEndpoints st"
  "ng_hostIPHash (ng_meta d config st) =
     gm_set d (IPHash config) (ng_hostIPHash st)"
  "ng_networks (ng_meta d config st) = ng_networks st"
  by (simp_all add: ng_meta_def)

lemma ng_certs_fields [ng_field]:
  "ng_upstreamServers (ng_certs base d config st) = ng_upstreamServers st"
  "ng_serverNames (ng_certs base d config st) = ng_serverNames st"
  "ng_hostContextRoots (ng_certs base d config st) = ng_hostContextRoots st"
  "ng_hostContextRootRewrites (ng_certs base d config st) = ng_hostContextRootRewrites st"
  "ng_hostSSL (ng_certs base d config st) = ng_hostSSL st"
  "ng_hostSSLCert (ng_certs base d config st) =
     (if SSLCertName config \<noteq> []
      then gm_set d (path_Join base (SSLCertName config)) (ng_hostSSLCert st)
      else ng_hostSSLCert st)"
  "ng_hostSSLCertKey (ng_certs base d config st) =
     (if SSLCertKey config \<noteq> []
      then gm_set d (path_Join base (SSLCertKey config)) (ng_hostSSLCertKey st)
      else ng_hostSSLCertKey st)"
  "ng_hostSSLOnly (ng_certs base d config st) = ng_hostSSLOnly st"
  "ng_hostSSLBackend (ng_certs base d config st) = ng_hostSSLBackend st"
  "ng_hostWebsocketEndpoints (ng_certs base d config st) = ng_hostWebsocketEndpoints st"
  "ng_hostIPHash (ng_certs base d config st) = ng_hostIPHash st"
  "ng_networks (ng_certs base d config st) = ng_networks st"
  by (simp_all add: ng_certs_def Let_def)

lemma ng_network_fields [ng_field]:
  "ng_upstreamServers (ng_network net st) = ng_upstreamServers st"
  "ng_serverNames (ng_network net st) = ng_serverNames st"
  "ng_hostContextRoots (ng_network net st) = ng_hostContextRoots st"
  "ng_hostContextRootRewrites (ng_network net st) = ng_hostContextRootRewrites st"
  "ng_hostSSL (ng_network net st) = ng_hostSSL st"
  "ng_hostSSLCert (ng_network net st) = ng_hostSSLCert st"
  "ng_hostSSLCertKey (ng_network net st) = ng_hostSSLCertKey st"
  "ng_hostSSLOnly (ng_network net st) = ng_hostSSLOnly st"
  "ng_hostSSLBackend (ng_network net st) = ng_hostSSLBackend st"
  "ng_hostWebsocketEndpoints (ng_network net st) = ng_hostWebsocketEndpoints st"
  "ng_hostIPHash (ng_network net st) = ng_hostIPHash st"
  "ng_networks (ng_network net st) =
     (case net of None \<Rightarrow> ng_networks st | Some n \<Rightarrow> gm_set n [] (ng_networks st))"
  by (simp_all add: ng_network_def split: option.split)

lemma ng_websocket_fold_fields [ng_field]:
  "ng_upstreamServers (fold (ng_websocket d) as st) = ng_upstreamServers st"
  "ng_serverNames (fold (ng_websocket d) as st) = ng_serverNames st"
  "ng_hostContextRoots (fold (ng_websocket d) as st) = ng_hostContextRoots st"
  "ng_hostContextRootRewrites (fold (ng_websocket d) as st) = ng_hostContextRootRewrites st"
  "ng_hostSSL (fold (ng_websocket d) as st) = ng_hostSSL st"
  "ng_hostSSLCert (fold (ng_websocket d) as st) = ng_hostSSLCert st"
  "ng_hostSSLCertKey (fold (ng_websocket d) as st) = ng_hostSSLCertKey st"
  "ng_hostSSLOnly (fold (ng_websocket d) as st) = ng_hostSSLOnly st"
  "ng_hostSSLBackend (fold (ng_websocket d) as st) = ng_hostSSLBackend st"
  "ng_hostWebsocketEndpoints (fold (ng_websocket d) as st) =
     fold (gm_append d) as (ng_hostWebsocketEndpoints st)"
  "ng_hostIPHash (fold (ng_websocket d) as st) = ng_hostIPHash st"
  "ng_networks (fold (ng_websocket d) as st) = ng_networks st"
  by (induction as arbitrary: st) (simp_all add: ng_websocket_def)

lemma ng_alias_fold_fields [ng_field]:
  "ng_upstreamServers (fold (ng_alias d config) as st) = ng_upstreamServers st"
  "ng_serverNames (fold (ng_alias d config) as st) =
     fold (gm_append d) as (ng_serverNames st)"
  "ng_hostContextRoots (fold (ng_alias d config) as st) =
     fold (\<lambda>a. gm_set a (ng_context config)) as (ng_hostContextRoots st)"
  "ng_hostContextRootRewrites (fold (ng_alias d config) as st) = ng_hostContextRootRewrites st"
  "ng_hostSSL (fold (ng_alias d config) as st) = ng_hostSSL st"
  "ng_hostSSLCert (fold (ng_alias d config) as st) = ng_hostSSLCert st"
  "ng_hostSSLCertKey (fold (ng_alias d config) as st) = ng_hostSSLCertKey st"
  "ng_hostSSLOnly (fold (ng_alias d config) as st) = ng_hostSSLOnly st"
  "ng_hostSSLBackend (fold (ng_alias d config) as st) = ng_hostSSLBackend st"
  "ng_hostWebsocketEndpoints (fold (ng_alias d config) as st) = ng_hostWebsocketEndpoints st"
  "ng_hostIPHash (fold (ng_alias d config) as st) = ng_hostIPHash st"
  "ng_networks (fold (ng_alias d config) as st) = ng_networks st"
  by (induction as arbitrary: st) (simp_all add: ng_alias_def)

lemma ng_add_upstream_fields [ng_field]:
  "ng_upstreamServers (ng_add_upstream env d config addr st) = gm_append d addr (ng_upstreamServers st)"
  "ng_serverNames (ng_add_upstream env d config addr st) =
     fold (gm_append d) (AliasDomains (ord_aliases env) config) (ng_serverNames st)"
  "ng_hostContextRoots (ng_add_upstream env d config addr st) =
     fold (\<lambda>a. gm_set a (ng_context config)) (AliasDomains (ord_aliases env) config)
       (ng_hostContextRoots st)"
  "ng_hostContextRootRewrites (ng_add_upstream env d config addr st) = ng_hostContextRootRewrites st"
  "ng_hostSSL (ng_add_upstream env d config addr st) = ng_hostSSL st"
  "ng_hostSSLCert (ng_add_upstream env d config addr st) = ng_hostSSLCert st"
  "ng_hostSSLCertKey (ng_add_upstream env d config addr st) = ng_hostSSLCertKey st"
  "ng_hostSSLOnly (ng_add_upstream env d config addr st) = ng_hostSSLOnly st"
  "ng_hostSSLBackend (ng_add_upstream env d config addr st) = ng_hostSSLBackend st"
  "ng_hostWebsocketEndpoints (ng_add_upstream env d config addr st) =
     fold (gm_append d) (WebsocketEndpoints (ord_websockets env) config)
       (ng_hostWebsocketEndpoints st)"
  "ng_hostIPHash (ng_add_upstream env d config addr st) = ng_hostIPHash st"
  "ng_networks (ng_add_upstream env d config addr st) = ng_networks st"
  by (simp_all add: ng_add_upstream_def ng_field Let_def)

lemmas ng_laws =
  go_map fold_gm_append fold_gm_append_one fold_gm_set overwrite_def image_Un image_image

text \<open>The maps meet the interfaces of \<open>Gen_Loop\<close>.\<close>

interpretation ng_ups: append_table
  "\<lambda>i. ng_step cfg (envs i)" ng_upstreamServers "\<lambda>i. ng_upstream_writes cfg (envs i)"
  for cfg envs
  by unfold_locales
    (erule ng_step_cases; simp add: ng_field ng_writes ng_laws split: option.split)+

interpretation ng_ws: append_table
  "\<lambda>i. ng_step cfg (envs i)" ng_hostWebsocketEndpoints "\<lambda>i. ng_websocket_writes cfg (envs i)"
  for cfg envs
  by unfold_locales
    (erule ng_step_cases; simp add: ng_field ng_writes ng_laws split: option.split)+

interpretation ng_ctx: overwrite_table
  "\<lambda>i. ng_step cfg (envs i)" ng_hostContextRoots "\<lambda>i. ng_context_writes cfg (envs i)"
  for cfg envs
  by unfold_locales
    (erule ng_step_cases; simp add: ng_field ng_writes ng_laws split: option.split)+

interpretation ng_rewrite: overwrite_table
  "\<lambda>i. ng_step cfg (envs i)" ng_hostContextRootRewrites "\<lambda>i. ng_named_writes ContextRootRewrite (envs i)"
  for cfg envs
  by unfold_locales
    (erule ng_step_cases; simp add: ng_field ng_writes ng_laws split: option.split)+

interpretation ng_ssl: overwrite_table
  "\<lambda>i. ng_step cfg (envs i)" ng_hostSSL "\<lambda>i. ng_named_writes SSLEnabled (envs i)"
  for cfg envs
  by unfold_locales
    (erule ng_step_cases; simp add: ng_field ng_writes ng_laws split: option.split)+

interpretation ng_sslonly: overwrite_table
  "\<lambda>i. ng_step cfg (envs i)" ng_hostSSLOnly "\<lambda>i. ng_named_writes SSLOnly (envs i)"
  for cfg envs
  by unfold_locales
    (erule ng_step_cases; simp add: ng_field ng_writes ng_laws split: option.split)+

interpretation ng_iphash: overwrite_table
  "\<lambda>i. ng_step cfg (envs i)" ng_hostIPHash "\<lambda>i. ng_named_writes IPHash (envs i)"
  for cfg envs
  by unfold_locales
    (erule ng_step_cases; simp add: ng_field ng_writes ng_laws split: option.split)+

interpretation ng_sslb: overwrite_table
  "\<lambda>i. ng_step cfg (envs i)" ng_hostSSLBackend "\<lambda>i. ng_named_writes SSLBackend (envs i)"
  for cfg envs
  by unfold_locales
    (erule ng_step_cases; simp add: ng_field ng_writes ng_laws split: option.split)+

interpretation ng_cert: overwrite_table
  "\<lambda>i. ng_step cfg (envs i)" ng_hostSSLCert "\<lambda>i. ng_cert_writes (SSLCertPath cfg) SSLCertName (envs i)"
  for cfg envs
  by unfold_locales
    (erule ng_step_cases; simp add: ng_field ng_writes ng_laws split: option.split)+

interpretation ng_key: overwrite_table
  "\<lambda>i. ng_step cfg (envs i)" ng_hostSSLCertKey "\<lambda>i. ng_cert_writes (SSLCertPath cfg) SSLCertKey (envs i)"
  for cfg envs
  by unfold_locales
    (erule ng_step_cases; simp add: ng_field ng_writes ng_laws split: option.split)+

interpretation ng_net: overwrite_table
  "\<lambda>i. ng_step cfg (envs i)" ng_networks "\<lambda>i. ng_network_writes cfg (envs i)"
  for cfg envs
  by unfold_locales
    (erule ng_step_cases; simp add: ng_field ng_writes ng_laws split: option.split)+

text \<open>The server names of a site start with its domain.\<close>

definition ng_seeds :: "gen_env \<Rightarrow> container \<Rightarrow> (string \<times> unit) list" where
  "ng_seeds env cnt = ng_named_writes (\<lambda>_. ()) env cnt"

lemma ng_served_named:
  "ng_served cfg env cnt = Some (d, config, addr, net) \<Longrightarrow>
     \<exists>cInfo. ng_named env cnt = Some (d, cInfo) \<and> config = cj_Config cInfo"
  by (auto simp: ng_served_def split: option.splits res.splits)

interpretation ng_names: seeded_table
  "\<lambda>i. ng_step cfg (envs i)" ng_serverNames "\<lambda>i. ng_seeds (envs i)"
  "\<lambda>i. ng_alias_writes cfg (envs i)"
  for cfg envs
proof
  fix i c s s' k
  show "fst ` set (ng_alias_writes cfg (envs i) c) \<subseteq> fst ` set (ng_seeds (envs i) c)"
    by (cases "ng_served cfg (envs i) c")
      (auto simp: ng_writes ng_seeds_def dest!: ng_served_named)
  assume st: "ng_step cfg (envs i) c s = Ok s'"
  from st show "gm_wf (ng_serverNames s')" if "gm_wf (ng_serverNames s)"
    using that by (cases rule: ng_step_cases) (simp_all add: ng_field ng_laws)
  from st show "gm_keys (ng_serverNames s') =
      gm_keys (ng_serverNames s) \<union> fst ` set (ng_seeds (envs i) c)"
    by (cases rule: ng_step_cases)
      (auto simp: ng_field ng_writes ng_laws ng_seeds_def gm_has_iff_keys)
  from st show "gm_get (ng_serverNames s') k =
      (case gm_get (ng_serverNames s) k of
         Some v \<Rightarrow> Some (v @ values_at k (ng_alias_writes cfg (envs i) c))
       | None \<Rightarrow> if k \<in> fst ` set (ng_seeds (envs i) c)
                 then Some (k # values_at k (ng_alias_writes cfg (envs i) c)) else None)"
    by (cases rule: ng_step_cases)
      (auto simp: ng_field ng_writes ng_laws ng_seeds_def fold_gm_append_get gm_has_def
          values_at_same gm_at_def
        split: option.splits)
qed

section \<open>The result of the whole loop\<close>

definition ng_all ::
  "(nat \<Rightarrow> container \<Rightarrow> (string \<times> 'v) list) \<Rightarrow> container list \<Rightarrow> string \<Rightarrow> 'v list" where
  "ng_all w cs k = values_at k (all_writes w 0 cs)"

lemma ng_empty_fields [simp]:
  "ng_upstreamServers ng_empty = []" "ng_serverNames ng_empty = []"
  "ng_hostContextRoots ng_empty = []" "ng_hostContextRootRewrites ng_empty = []"
  "ng_hostSSL ng_empty = []" "ng_hostSSLCert ng_empty = []" "ng_hostSSLCertKey ng_empty = []"
  "ng_hostSSLOnly ng_empty = []" "ng_hostSSLBackend ng_empty = []"
  "ng_hostWebsocketEndpoints ng_empty = []" "ng_hostIPHash ng_empty = []" "ng_networks ng_empty = []"
  by (simp_all add: ng_empty_def)

lemma ng_generateE:
  assumes "ng_GenerateProxyConfig cfg envs ord cs = Ok conf"
  obtains st where "gen_loop (\<lambda>i. ng_step cfg (envs i)) 0 cs ng_empty = Ok st"
    and "nc_Hosts conf = map (ng_mk_host cfg st) (go_range ord (ng_upstreamServers st))"
    and "nc_Config conf = cfg" and "nc_Networks conf = ng_networks st"
  using assms by (auto simp: ng_GenerateProxyConfig_def go_res)

lemma ng_mk_host_fields [simp]:
  "n_ServerNames (ng_mk_host cfg st kv) = gm_at [] (ng_serverNames st) (fst kv)"
  "n_Port (ng_mk_host cfg st kv) = Port cfg"
  "n_ContextRoot (ng_mk_host cfg st kv) = gm_get (ng_hostContextRoots st) (fst kv)"
  "n_ContextRootRewrite (ng_mk_host cfg st kv) = gm_at False (ng_hostContextRootRewrites st) (fst kv)"
  "n_SSLPort (ng_mk_host cfg st kv) = SSLPort cfg"
  "n_SSL (ng_mk_host cfg st kv) = gm_at False (ng_hostSSL st) (fst kv)"
  "n_SSLCert (ng_mk_host cfg st kv) = gm_at [] (ng_hostSSLCert st) (fst kv)"
  "n_SSLCertKey (ng_mk_host cfg st kv) = gm_at [] (ng_hostSSLCertKey st) (fst kv)"
  "n_SSLOnly (ng_mk_host cfg st kv) = gm_at False (ng_hostSSLOnly st) (fst kv)"
  "n_SSLBackend (ng_mk_host cfg st kv) = gm_at False (ng_hostSSLBackend st) (fst kv)"
  "nu_Name (n_Upstream (ng_mk_host cfg st kv)) = fst kv"
  "map srv_Addr (nu_Servers (n_Upstream (ng_mk_host cfg st kv))) = snd kv"
  "n_WebsocketEndpoints (ng_mk_host cfg st kv) = gm_at [] (ng_hostWebsocketEndpoints st) (fst kv)"
  "n_IPHash (ng_mk_host cfg st kv) = gm_at False (ng_hostIPHash st) (fst kv)"
  by (simp_all add: ng_mk_host_def comp_def split: prod.split)

text \<open>The site a host serves is the name of its upstream.\<close>

abbreviation n_Site :: "ng_host \<Rightarrow> string" where
  "n_Site h \<equiv> nu_Name (n_Upstream h)"

lemma ng_loop_upstreams:
  assumes "gen_loop (\<lambda>i. ng_step cfg (envs i)) 0 cs ng_empty = Ok st"
  shows "gm_wf (ng_upstreamServers st)"
    and "gm_keys (ng_upstreamServers st) =
      fst ` set (all_writes (\<lambda>i. ng_upstream_writes cfg (envs i)) 0 cs)"
    and "gm_at [] (ng_upstreamServers st) k = ng_all (\<lambda>i. ng_upstream_writes cfg (envs i)) cs k"
  using ng_ups.loop_wf [OF assms] ng_ups.loop_keys [OF assms] ng_ups.loop_append [OF assms, of k]
  by (simp_all add: ng_all_def)

lemma ng_hosts:
  assumes "ng_GenerateProxyConfig cfg envs ord cs = Ok conf"
  obtains st where "gen_loop (\<lambda>i. ng_step cfg (envs i)) 0 cs ng_empty = Ok st"
    and "map n_Site (nc_Hosts conf) = map fst (go_range ord (ng_upstreamServers st))"
    and "\<And>h. h \<in> set (nc_Hosts conf) \<Longrightarrow>
      h = ng_mk_host cfg st (n_Site h, ng_all (\<lambda>i. ng_upstream_writes cfg (envs i)) cs (n_Site h))"
proof -
  from assms obtain st where st: "gen_loop (\<lambda>i. ng_step cfg (envs i)) 0 cs ng_empty = Ok st"
    and hosts: "nc_Hosts conf = map (ng_mk_host cfg st) (go_range ord (ng_upstreamServers st))"
    by (rule ng_generateE)
  show thesis
  proof (rule that [OF st])
    show "map n_Site (nc_Hosts conf) = map fst (go_range ord (ng_upstreamServers st))"
      by (simp add: hosts)
    fix h assume "h \<in> set (nc_Hosts conf)"
    then obtain k v where kv: "(k, v) \<in> set (ng_upstreamServers st)" "h = ng_mk_host cfg st (k, v)"
      by (auto simp: hosts)
    then have "gm_get (ng_upstreamServers st) k = Some v"
      using ng_loop_upstreams(1) [OF st] by (simp add: gm_get_in_set)
    then have "v = ng_all (\<lambda>i. ng_upstream_writes cfg (envs i)) cs k"
      using ng_loop_upstreams(3) [OF st, of k] by (simp add: gm_at_def)
    with kv(2) show
      "h = ng_mk_host cfg st (n_Site h, ng_all (\<lambda>i. ng_upstream_writes cfg (envs i)) cs (n_Site h))"
      by simp
  qed
qed

lemma ng_host_sites:
  assumes "ng_GenerateProxyConfig cfg envs ord cs = Ok conf"
  shows "distinct (map n_Site (nc_Hosts conf))"
    and "n_Site ` set (nc_Hosts conf) =
      fst ` set (all_writes (\<lambda>i. ng_upstream_writes cfg (envs i)) 0 cs)"
proof -
  from assms obtain st where st: "gen_loop (\<lambda>i. ng_step cfg (envs i)) 0 cs ng_empty = Ok st"
    and dom: "map n_Site (nc_Hosts conf) = map fst (go_range ord (ng_upstreamServers st))"
    by (rule ng_hosts) blast
  show "distinct (map n_Site (nc_Hosts conf))"
    using ng_loop_upstreams(1) [OF st] unfolding dom by (simp add: gm_wf_def)
  have "n_Site ` set (nc_Hosts conf) = set (map n_Site (nc_Hosts conf))" by simp
  also have "\<dots> = gm_keys (ng_upstreamServers st)" unfolding dom by (simp add: gm_keys_def)
  finally show "n_Site ` set (nc_Hosts conf) =
      fst ` set (all_writes (\<lambda>i. ng_upstream_writes cfg (envs i)) 0 cs)"
    using ng_loop_upstreams(2) [OF st] by simp
qed

lemma ng_host_ex:
  assumes "ng_GenerateProxyConfig cfg envs ord cs = Ok conf"
    and "k \<in> fst ` set (all_writes (\<lambda>i. ng_upstream_writes cfg (envs i)) 0 cs)"
  obtains h where "h \<in> set (nc_Hosts conf)" and "n_Site h = k"
  using assms ng_host_sites(2) [OF assms(1)] by (metis imageE)

lemma ng_host_state:
  assumes "ng_GenerateProxyConfig cfg envs ord cs = Ok conf" and "h \<in> set (nc_Hosts conf)"
  obtains st where "gen_loop (\<lambda>i. ng_step cfg (envs i)) 0 cs ng_empty = Ok st"
    and "h = ng_mk_host cfg st (n_Site h, ng_all (\<lambda>i. ng_upstream_writes cfg (envs i)) cs (n_Site h))"
  using assms by (metis ng_hosts)

lemma ng_upstream_seed:
  "(k, a) \<in> set (ng_upstream_writes cfg env cnt) \<Longrightarrow> k \<in> fst ` set (ng_seeds env cnt)"
  by (cases "ng_served cfg env cnt")
    (auto simp: ng_writes ng_seeds_def dest!: ng_served_named)

lemma ng_upstream_context:
  "(k, a) \<in> set (ng_upstream_writes cfg env cnt) \<Longrightarrow>
     k \<in> fst ` set (ng_context_writes cfg env cnt)"
  by (cases "ng_served cfg env cnt") (auto simp: ng_writes dest!: ng_served_named)

lemma ng_context_written:
  "(k, cr) \<in> set (ng_context_writes cfg env cnt) \<Longrightarrow> \<exists>config. cr = ng_context config"
  by (auto simp: ng_context_writes_def ng_named_writes_def split: option.splits)

lemma ng_host_names:
  assumes "ng_GenerateProxyConfig cfg envs ord cs = Ok conf" and "h \<in> set (nc_Hosts conf)"
  shows "map srv_Addr (nu_Servers (n_Upstream h)) =
      ng_all (\<lambda>i. ng_upstream_writes cfg (envs i)) cs (n_Site h)"
    and "n_ServerNames h = n_Site h # ng_all (\<lambda>i. ng_alias_writes cfg (envs i)) cs (n_Site h)"
proof -
  obtain st where st: "gen_loop (\<lambda>i. ng_step cfg (envs i)) 0 cs ng_empty = Ok st"
    and h: "h = ng_mk_host cfg st (n_Site h, ng_all (\<lambda>i. ng_upstream_writes cfg (envs i)) cs (n_Site h))"
    by (rule ng_host_state [OF assms])
  show "map srv_Addr (nu_Servers (n_Upstream h)) =
      ng_all (\<lambda>i. ng_upstream_writes cfg (envs i)) cs (n_Site h)"
    using arg_cong [OF h, of "\<lambda>h. map srv_Addr (nu_Servers (n_Upstream h))"] by simp
  have "n_Site h \<in> fst ` set (all_writes (\<lambda>i. ng_upstream_writes cfg (envs i)) 0 cs)"
    using ng_host_sites(2) [OF assms(1)] assms(2) by blast
  then have "n_Site h \<in> fst ` set (all_writes (\<lambda>i. ng_seeds (envs i)) 0 cs)"
    by (fastforce simp: set_all_writes image_iff Bex_def dest: ng_upstream_seed)
  then have "gm_at [] (ng_serverNames st) (n_Site h) =
      n_Site h # ng_all (\<lambda>i. ng_alias_writes cfg (envs i)) cs (n_Site h)"
    using ng_names.loop_seeded [OF st, of "n_Site h"] by (simp add: gm_at_def ng_all_def)
  then show "n_ServerNames h = n_Site h # ng_all (\<lambda>i. ng_alias_writes cfg (envs i)) cs (n_Site h)"
    using arg_cong [OF h, of n_ServerNames] by simp
qed

lemma ng_host_attributes:
  assumes "ng_GenerateProxyConfig cfg envs ord cs = Ok conf" and "h \<in> set (nc_Hosts conf)"
  shows "n_SSL h = last_or False (ng_all (\<lambda>i. ng_named_writes SSLEnabled (envs i)) cs (n_Site h))"
    and "n_SSLOnly h = last_or False (ng_all (\<lambda>i. ng_named_writes SSLOnly (envs i)) cs (n_Site h))"
    and "n_SSLBackend h = last_or False (ng_all (\<lambda>i. ng_named_writes SSLBackend (envs i)) cs (n_Site h))"
    and "n_IPHash h = last_or False (ng_all (\<lambda>i. ng_named_writes IPHash (envs i)) cs (n_Site h))"
    and "n_ContextRootRewrite h = last_or False (ng_all (\<lambda>i. ng_named_writes ContextRootRewrite (envs i)) cs (n_Site h))"
    and "n_SSLCert h = last_or [] (ng_all (\<lambda>i. ng_cert_writes (SSLCertPath cfg) SSLCertName (envs i)) cs (n_Site h))"
    and "n_SSLCertKey h = last_or [] (ng_all (\<lambda>i. ng_cert_writes (SSLCertPath cfg) SSLCertKey (envs i)) cs (n_Site h))"
    and "n_WebsocketEndpoints h = ng_all (\<lambda>i. ng_websocket_writes cfg (envs i)) cs (n_Site h)"
    and "n_ContextRoot h = overwrite None (ng_all (\<lambda>i. ng_context_writes cfg (envs i)) cs (n_Site h))"
    and "n_Port h = Port cfg" and "n_SSLPort h = SSLPort cfg"
proof -
  obtain st where st: "gen_loop (\<lambda>i. ng_step cfg (envs i)) 0 cs ng_empty = Ok st"
    and h: "h = ng_mk_host cfg st (n_Site h, ng_all (\<lambda>i. ng_upstream_writes cfg (envs i)) cs (n_Site h))"
    by (rule ng_host_state [OF assms])
  show "n_SSL h = last_or False (ng_all (\<lambda>i. ng_named_writes SSLEnabled (envs i)) cs (n_Site h))"
    using arg_cong [OF h, of n_SSL] ng_ssl.loop_overwrite [OF st, of "n_Site h"]
    by (simp add: ng_all_def gm_at_overwrite)
  show "n_SSLOnly h = last_or False (ng_all (\<lambda>i. ng_named_writes SSLOnly (envs i)) cs (n_Site h))"
    using arg_cong [OF h, of n_SSLOnly] ng_sslonly.loop_overwrite [OF st, of "n_Site h"]
    by (simp add: ng_all_def gm_at_overwrite)
  show "n_SSLBackend h = last_or False (ng_all (\<lambda>i. ng_named_writes SSLBackend (envs i)) cs (n_Site h))"
    using arg_cong [OF h, of n_SSLBackend] ng_sslb.loop_overwrite [OF st, of "n_Site h"]
    by (simp add: ng_all_def gm_at_overwrite)
  show "n_IPHash h = last_or False (ng_all (\<lambda>i. ng_named_writes IPHash (envs i)) cs (n_Site h))"
    using arg_cong [OF h, of n_IPHash] ng_iphash.loop_overwrite [OF st, of "n_Site h"]
    by (simp add: ng_all_def gm_at_overwrite)
  show "n_ContextRootRewrite h = last_or False (ng_all (\<lambda>i. ng_named_writes ContextRootRewrite (envs i)) cs (n_Site h))"
    using arg_cong [OF h, of n_ContextRootRewrite] ng_rewrite.loop_overwrite [OF st, of "n_Site h"]
    by (simp add: ng_all_def gm_at_overwrite)
  show "n_SSLCert h = last_or [] (ng_all (\<lambda>i. ng_cert_writes (SSLCertPath cfg) SSLCertName (envs i)) cs (n_Site h))"
    using arg_cong [OF h, of n_SSLCert] ng_cert.loop_overwrite [OF st, of "n_Site h"]
    by (simp add: ng_all_def gm_at_overwrite)
  show "n_SSLCertKey h = last_or [] (ng_all (\<lambda>i. ng_cert_writes (SSLCertPath cfg) SSLCertKey (envs i)) cs (n_Site h))"
    using arg_cong [OF h, of n_SSLCertKey] ng_key.loop_overwrite [OF st, of "n_Site h"]
    by (simp add: ng_all_def gm_at_overwrite)
  show "n_WebsocketEndpoints h = ng_all (\<lambda>i. ng_websocket_writes cfg (envs i)) cs (n_Site h)"
    using arg_cong [OF h, of n_WebsocketEndpoints] ng_ws.loop_append [OF st, of "n_Site h"]
    by (simp add: ng_all_def)
  show "n_ContextRoot h = overwrite None (ng_all (\<lambda>i. ng_context_writes cfg (envs i)) cs (n_Site h))"
    using arg_cong [OF h, of n_ContextRoot] ng_ctx.loop_overwrite [OF st, of "n_Site h"]
    by (simp add: ng_all_def)
  show "n_Port h = Port cfg" "n_SSLPort h = SSLPort cfg"
    using arg_cong [OF h, of n_Port] arg_cong [OF h, of n_SSLPort] by simp_all
qed

section \<open>Properties of the generator\<close>

abbreviation fleet_ng :: "container list \<Rightarrow> ng_config res" where
  "fleet_ng \<equiv> ng_GenerateProxyConfig (fleet_ext_config ''nginx'') (\<lambda>_. fleet_env) (\<lambda>_. 0)"

lemma fleet_ng_ok:
  obtains conf where "fleet_ng fleet = Ok conf"
proof -
  have "is_ok (fleet_ng fleet)" by code_simp
  then show thesis by (rule is_okE) (rule that)
qed

text \<open>C4: the Nginx configuration has exactly one host per site that a served
  container names; the servers of its upstream are the addresses of the site's containers in the order
  of the container list, and its server names are the site and then the aliases of those containers.\<close>

theorem ng_generate_upstreams:
  assumes "ng_GenerateProxyConfig cfg envs ord cs = Ok conf"
  shows "distinct (map n_Site (nc_Hosts conf))
    \<and> n_Site ` set (nc_Hosts conf) =
        fst ` set (all_writes (\<lambda>i. ng_upstream_writes cfg (envs i)) 0 cs)
    \<and> (\<forall>h \<in> set (nc_Hosts conf).
        map srv_Addr (nu_Servers (n_Upstream h)) =
          ng_all (\<lambda>i. ng_upstream_writes cfg (envs i)) cs (n_Site h)
        \<and> n_ServerNames h = n_Site h # ng_all (\<lambda>i. ng_alias_writes cfg (envs i)) cs (n_Site h))"
  using ng_host_sites [OF assms] ng_host_names [OF assms] by blast

theorem ng_generate_upstreams_witness:
  "\<exists>conf h. fleet_ng fleet = Ok conf \<and> h \<in> set (nc_Hosts conf) \<and> n_Site h = ''web.local''
    \<and> map srv_Addr (nu_Servers (n_Upstream h)) = [''10.0.0.1:8080'', ''10.0.0.2:8081'']
    \<and> n_ServerNames h = [''web.local'', ''www.local'']"
proof -
  obtain conf where c: "fleet_ng fleet = Ok conf" by (rule fleet_ng_ok)
  have "''web.local'' \<in> fst ` set (all_writes (\<lambda>i. ng_upstream_writes (fleet_ext_config ''nginx'') fleet_env) 0 fleet)"
    by code_simp
  then obtain h where h: "h \<in> set (nc_Hosts conf)" "n_Site h = ''web.local''"
    by (rule ng_host_ex [OF c])
  have u: "ng_all (\<lambda>i. ng_upstream_writes (fleet_ext_config ''nginx'') fleet_env) fleet ''web.local''
      = [''10.0.0.1:8080'', ''10.0.0.2:8081'']"
    and a: "ng_all (\<lambda>i. ng_alias_writes (fleet_ext_config ''nginx'') fleet_env) fleet ''web.local''
      = [''www.local'']"
    by code_simp+
  have "map srv_Addr (nu_Servers (n_Upstream h)) = [''10.0.0.1:8080'', ''10.0.0.2:8081'']
      \<and> n_ServerNames h = [''web.local'', ''www.local'']"
    using ng_generate_upstreams [OF c] h u a by simp
  with c h show ?thesis by (intro exI [of _ conf] exI [of _ h] conjI) simp_all
qed



text \<open>No host of the configuration has a nil context root, which the template
  dereferences; its name is its path with the slashes replaced.\<close>

theorem ng_context_root_set:
  assumes "ng_GenerateProxyConfig cfg envs ord cs = Ok conf" and "h \<in> set (nc_Hosts conf)"
  shows "\<exists>cr. n_ContextRoot h = Some cr
    \<and> nr_cr_Name cr = replace_char CHR ''/'' CHR ''_'' (nr_cr_Path cr)"
proof -
  let ?ws = "ng_all (\<lambda>i. ng_context_writes cfg (envs i)) cs (n_Site h)"
  have "n_Site h \<in> fst ` set (all_writes (\<lambda>i. ng_upstream_writes cfg (envs i)) 0 cs)"
    using ng_host_sites(2) [OF assms(1)] assms(2) by blast
  then have "n_Site h \<in> fst ` set (all_writes (\<lambda>i. ng_context_writes cfg (envs i)) 0 cs)"
    by (fastforce simp: set_all_writes image_iff Bex_def dest: ng_upstream_context)
  then have ne: "?ws \<noteq> []" by (simp add: ng_all_def values_at_empty)
  then have "n_ContextRoot h = Some (last ?ws)"
    using ng_host_attributes(9) [OF assms] by (simp add: overwrite_def)
  moreover have "\<exists>config. last ?ws = ng_context config"
    using last_in_set [OF ne] ng_context_written
    by (auto simp: ng_all_def set_values_at set_all_writes)
  ultimately show ?thesis by (auto simp: ng_context_def contextRootName_def)
qed

theorem ng_context_root_set_witness:
  "\<exists>conf h. fleet_ng fleet = Ok conf \<and> h \<in> set (nc_Hosts conf) \<and> n_Site h = ''_shop_a''
    \<and> (\<exists>cr. n_ContextRoot h = Some cr
          \<and> nr_cr_Name cr = replace_char CHR ''/'' CHR ''_'' (nr_cr_Path cr))"
proof -
  obtain conf where c: "fleet_ng fleet = Ok conf" by (rule fleet_ng_ok)
  have "''_shop_a'' \<in> fst ` set (all_writes (\<lambda>i. ng_upstream_writes (fleet_ext_config ''nginx'') fleet_env) 0 fleet)"
    by code_simp
  then obtain h where h: "h \<in> set (nc_Hosts conf)" "n_Site h = ''_shop_a''"
    by (rule ng_host_ex [OF c])
  with c ng_context_root_set [OF c h(1)] show ?thesis by blast
qed

text \<open>A container that the engine cannot inspect is left out of the
  configuration and changes nothing else in it.\<close>

theorem ng_skips_uninspectable:
  assumes "12 \<le> length (ct_ID c)" and "ContainerInspect (envs (length cs)) (ct_ID c) = Err e"
  shows "ng_GenerateProxyConfig cfg envs ord (cs @ c # ds) =
    ng_GenerateProxyConfig cfg (\<lambda>i. if i < length cs then envs i else envs (Suc i)) ord (cs @ ds)"
proof -
  let ?envs = "\<lambda>i. if i < length cs then envs i else envs (Suc i)"
  have pre: "gen_loop (\<lambda>i. ng_step cfg (envs i)) 0 cs s = gen_loop (\<lambda>i. ng_step cfg (?envs i)) 0 cs s" for s
    by (rule gen_loop_cong) simp
  have "gen_loop (\<lambda>i. ng_step cfg (envs i)) (Suc (length cs)) ds s =
      gen_loop (\<lambda>i. ng_step cfg (?envs i)) (length cs) ds s" for s
    by (rule gen_loop_cong) simp
  moreover have "ng_step cfg (envs (length cs)) c s = Ok s" for s
    using assms by (simp add: ng_step_def go_slice_to_def)
  ultimately have "gen_loop (\<lambda>i. ng_step cfg (envs i)) (length cs) (c # ds) =
      gen_loop (\<lambda>i. ng_step cfg (?envs i)) (length cs) ds"
    by (simp add: fun_eq_iff)
  with pre show ?thesis by (simp add: ng_GenerateProxyConfig_def gen_loop_append)
qed

theorem ng_skips_uninspectable_witness:
  "fleet_ng ([listed web1] @ (listed web2)\<lparr>ct_ID := ''removed-container''\<rparr> # [listed app1])
     = fleet_ng ([listed web1] @ [listed app1])"
proof -
  have "12 \<le> length (ct_ID ((listed web2)\<lparr>ct_ID := ''removed-container''\<rparr>))"
    and "ContainerInspect fleet_env (ct_ID ((listed web2)\<lparr>ct_ID := ''removed-container''\<rparr>))
      = Err ''No such container''"
    by code_simp+
  then show ?thesis
    by (subst ng_skips_uninspectable [where e = "''No such container''"]) simp_all
qed

text \<open>The generator never returns an error.\<close>

theorem ng_generate_no_error: "ng_GenerateProxyConfig cfg envs ord cs \<noteq> Err e"
proof -
  have "ng_step cfg env c s \<noteq> Err e" for env c s e
    using container_addr_no_err
    by (auto simp: ng_step_def go_slice_to_def Let_def elim!: res_bind_ErrE split: res.splits option.splits)
  then have "gen_loop (\<lambda>i. ng_step cfg (envs i)) 0 cs ng_empty \<noteq> Err e"
    by (intro gen_loop_no_err) blast
  then show ?thesis
    by (cases "gen_loop (\<lambda>i. ng_step cfg (envs i)) 0 cs ng_empty") (auto simp: ng_GenerateProxyConfig_def)
qed

text \<open>What the generator relies on not to panic; unlike the HAProxy backend it does not read the
  container's name.\<close>

definition ng_container_safe :: "gen_env \<Rightarrow> container \<Rightarrow> bool" where
  "ng_container_safe env cnt \<longleftrightarrow>
     12 \<le> length (ct_ID cnt) \<and>
     (case ContainerInspect env (ct_ID cnt) of
        Panic p \<Rightarrow> False
      | Err e \<Rightarrow> True
      | Ok cInfo \<Rightarrow>
          label_port_published cInfo \<and>
          (case OverlayEnabled (cj_Config cInfo) of
             None \<Rightarrow> True | Some n \<Rightarrow> \<not> is_panic (NetworkInspect env n)))"

lemma ng_step_no_panic:
  assumes "ng_container_safe env cnt"
  shows "\<not> is_panic (ng_step cfg env cnt st)"
proof -
  from assms have len: "12 \<le> length (ct_ID cnt)"
    and np: "\<not> is_panic (ContainerInspect env (ct_ID cnt))"
    by (auto simp: ng_container_safe_def split: res.splits)
  have "\<not> is_panic (container_addr (BackendOverrideAddress cfg) env cInfo)"
    if "ContainerInspect env (ct_ID cnt) = Ok cInfo" for cInfo
    by (rule container_addr_no_panic) (use assms that in \<open>simp_all add: ng_container_safe_def\<close>)
  with len np show ?thesis
    by (auto simp: ng_step_def go_res Let_def split: option.splits res.splits)
qed

text \<open>C25: the generator returns a configuration when the engine gives full
  container ids and every port that a port label selects is published.\<close>

theorem ng_generate_no_panic:
  assumes "\<And>j. j < length cs \<Longrightarrow> ng_container_safe (envs j) (cs ! j)"
  shows "\<not> is_panic (ng_GenerateProxyConfig cfg envs ord cs)"
  using gen_loop_no_panic [of cs "\<lambda>i. ng_step cfg (envs i)" 0 ng_empty] assms
  by (simp add: ng_GenerateProxyConfig_def go_res ng_step_no_panic)

theorem ng_generate_no_panic_witness:
  "list_all (ng_container_safe fleet_env) fleet \<and> \<not> is_panic (fleet_ng fleet)"
proof -
  have safe: "list_all (ng_container_safe fleet_env) fleet" by code_simp
  then have "\<not> is_panic (fleet_ng fleet)"
    by (intro ng_generate_no_panic) (simp add: list_all_length)
  with safe show ?thesis by blast
qed

end
