(* ===== verification/Backends.thy ===== *)
theory Backends
  imports Haproxy Nginx Docker_Types
begin

text \<open>
  \<open>ext/lb/haproxy/haproxy.go\<close>, \<open>haproxy/iptables.go\<close> and \<open>ext/lb/nginx/nginx.go\<close>: what the two
  backends are and how they reload their proxy containers. The answers of the engine and of the
  operating system are arguments: \<open>ans i id\<close> is the answer to the call for the container at
  position \<open>i\<close> of the loop, \<open>run i args\<close> that to the i-th command.
\<close>

section \<open>The backends\<close>

record HAProxyLoadBalancer =
  hp_cfg :: ext_config

record NginxLoadBalancer =
  ng_cfg :: ext_config

definition hp_pluginName :: string where
  "hp_pluginName = ''haproxy''"

definition ng_pluginName :: string where
  "ng_pluginName = ''nginx''"

definition NewHAProxyLoadBalancer :: "ext_config \<Rightarrow> HAProxyLoadBalancer res" where
  "NewHAProxyLoadBalancer c = Ok \<lparr>hp_cfg = c\<rparr>"

definition NewNginxLoadBalancer :: "ext_config \<Rightarrow> NginxLoadBalancer res" where
  "NewNginxLoadBalancer c = Ok \<lparr>ng_cfg = c\<lparr>ConfigBasePath := path_Dir (ConfigPath c)\<rparr>\<rparr>"

definition hp_Name :: "HAProxyLoadBalancer \<Rightarrow> string" where
  "hp_Name p = hp_pluginName"

definition ng_Name :: "NginxLoadBalancer \<Rightarrow> string" where
  "ng_Name p = ng_pluginName"

definition hp_HandleEvent :: "HAProxyLoadBalancer \<Rightarrow> event_message \<Rightarrow> unit res" where
  "hp_HandleEvent p event = Ok ()"

definition ng_HandleEvent :: "NginxLoadBalancer \<Rightarrow> event_message \<Rightarrow> unit res" where
  "ng_HandleEvent p event = Ok ()"

definition hp_ConfigPath :: "HAProxyLoadBalancer \<Rightarrow> string" where
  "hp_ConfigPath p = ConfigPath (hp_cfg p)"

definition ng_ConfigPath :: "NginxLoadBalancer \<Rightarrow> string" where
  "ng_ConfigPath p = ConfigPath (ng_cfg p)"

text \<open>
  The template: the file the user names, the text of the error when it cannot be read, or a
  built-in one. \<open>ReadFile\<close> is the operating system's answer; the built-in texts are arguments.
\<close>

definition hp_Template :: "(string \<Rightarrow> string answer) \<Rightarrow> string \<Rightarrow> HAProxyLoadBalancer \<Rightarrow> string" where
  "hp_Template ReadFile haproxyConfTemplate p =
     (if TemplatePath (hp_cfg p) \<noteq> []
      then (case ReadFile (TemplatePath (hp_cfg p)) of
              Inr d \<Rightarrow> d | Inl err \<Rightarrow> err)
      else haproxyConfTemplate)"

definition ng_Template ::
  "(string \<Rightarrow> string answer) \<Rightarrow> string \<Rightarrow> string \<Rightarrow> NginxLoadBalancer \<Rightarrow> string" where
  "ng_Template ReadFile nginxConfTemplate nginxPlusConfTemplate p =
     (if TemplatePath (ng_cfg p) \<noteq> []
      then (case ReadFile (TemplatePath (ng_cfg p)) of
              Inr d \<Rightarrow> d | Inl err \<Rightarrow> err)
      else if NginxPlusEnabled (ng_cfg p) then nginxPlusConfTemplate
      else nginxConfTemplate)"

section \<open>Reloading the containers\<close>

text \<open>
  The loops of the two \<open>Reload\<close> methods differ in the engine call only. A container whose call fails
  is logged and skipped. Both log lines slice the id, and the second reads the first name.
\<close>

primrec reload_each ::
  "(string \<Rightarrow> effect) \<Rightarrow> (nat \<Rightarrow> string \<Rightarrow> error) \<Rightarrow> nat \<Rightarrow> container list \<Rightarrow> unit io" where
  "reload_each call ans i [] = io_return ()"
| "reload_each call ans i (cnt # cnts) =
     io_bind (io_do (call (ct_ID cnt))) (\<lambda>_.
       case ans i (ct_ID cnt) of
         Some err \<Rightarrow>
           io_bind (io_lift (go_slice_to 12 (ct_ID cnt))) (\<lambda>_.
             reload_each call ans (Suc i) cnts)
       | None \<Rightarrow>
           io_bind (io_lift (go_slice_to 12 (ct_ID cnt))) (\<lambda>_.
             io_bind (io_lift (go_first (ct_Names cnt))) (\<lambda>_.
               reload_each call ans (Suc i) cnts)))"

section \<open>The firewall (iptables.go)\<close>

definition syn_ports :: "ext_config \<Rightarrow> int list" where
  "syn_ports cfg = [Port cfg] @ (if SSLPort cfg \<noteq> 0 then [SSLPort cfg] else [])"

definition syn_args :: "string \<Rightarrow> int \<Rightarrow> string list" where
  "syn_args d port =
     [d, ''INPUT'', ''-p'', ''tcp'', ''--dport'', int_dec port, ''--syn'', ''-j'', ''DROP'']"

primrec run_rules ::
  "string \<Rightarrow> string \<Rightarrow> (nat \<Rightarrow> string list \<Rightarrow> string answer) \<Rightarrow> nat \<Rightarrow> int list \<Rightarrow> unit io" where
  "run_rules iptables d run i [] = io_return ()"
| "run_rules iptables d run i (port # ports) =
     io_bind (io_do (Exec iptables (syn_args d port))) (\<lambda>_.
       io_bind (io_lift (of_answer (run i (syn_args d port)))) (\<lambda>_.
         run_rules iptables d run (Suc i) ports))"

record shell =
  LookPath :: "string \<Rightarrow> string answer"
  Output :: "nat \<Rightarrow> string list \<Rightarrow> string answer"

definition configIPTables :: "shell \<Rightarrow> ext_config \<Rightarrow> bool \<Rightarrow> unit io" where
  "configIPTables sh cfg drop_syn =
     (let d = (if drop_syn then ''-D'' else ''-I'')
      in io_bind (io_lift (of_answer (LookPath sh ''iptables''))) (\<lambda>iptables.
           run_rules iptables d (Output sh) 0 (syn_ports cfg)))"

definition dropSYN :: "shell \<Rightarrow> HAProxyLoadBalancer \<Rightarrow> unit io" where
  "dropSYN sh p =
     io_bind (configIPTables sh (hp_cfg p) False) (\<lambda>_. io_do (SleepMs 1000))"

definition resumeSYN :: "shell \<Rightarrow> HAProxyLoadBalancer \<Rightarrow> unit io" where
  "resumeSYN sh p = configIPTables sh (hp_cfg p) False"

definition hp_Reload ::
  "shell \<Rightarrow> shell \<Rightarrow> (nat \<Rightarrow> string \<Rightarrow> error) \<Rightarrow> HAProxyLoadBalancer \<Rightarrow> container list \<Rightarrow> unit io" where
  "hp_Reload sh sh' ans p proxyContainers =
     io_bind (io_warn (dropSYN sh p)) (\<lambda>_.
       io_bind (reload_each (\<lambda>cid. ContainerRestart cid 1000) ans 0 proxyContainers) (\<lambda>_.
         io_warn (resumeSYN sh' p)))"

definition ng_Reload ::
  "(nat \<Rightarrow> string \<Rightarrow> error) \<Rightarrow> NginxLoadBalancer \<Rightarrow> container list \<Rightarrow> unit io" where
  "ng_Reload ans p proxyContainers =
     reload_each (\<lambda>cid. ContainerKill cid ''HUP'') ans 0 proxyContainers"

section \<open>What a reload does\<close>

text \<open>A container whose reload is loggable: a full id and a name, as the engine gives them.\<close>

definition loggable :: "container \<Rightarrow> bool" where
  "loggable cnt \<longleftrightarrow> 12 \<le> length (ct_ID cnt) \<and> ct_Names cnt \<noteq> []"

lemma reload_each_loggable:
  "list_all loggable cs \<Longrightarrow> reload_each call ans i cs = (map (\<lambda>c. call (ct_ID c)) cs, Ok ())"
proof (induction cs arbitrary: i)
  case Nil
  then show ?case by (simp add: io_return_def)
next
  case (Cons c cs)
  then have "go_slice_to 12 (ct_ID c) = Ok (take 12 (ct_ID c))"
    and "go_first (ct_Names c) = Ok (hd (ct_Names c))"
    by (auto simp: loggable_def go_slice_to_def go_first_def neq_Nil_conv)
  with Cons show ?case
    by (cases "ans i (ct_ID c)") simp_all
qed

lemma reload_each_not_Err: "snd (reload_each call ans i cs) \<noteq> Err e"
proof (induction cs arbitrary: i)
  case Nil
  then show ?case by simp
next
  case (Cons c cs)
  then show ?case
    by (cases "ans i (ct_ID c)"; cases "12 \<le> length (ct_ID c)"; cases "ct_Names c")
      (simp_all add: go_slice_to_def go_first_def snd_io_bind)
qed

lemma run_rules_no_panic: "\<not> is_panic (snd (run_rules iptables d run i ports))"
  by (induction ports arbitrary: i) (simp_all add: snd_io_bind go_res)

lemma configIPTables_no_panic: "\<not> is_panic (snd (configIPTables sh cfg d))"
  by (cases "LookPath sh ''iptables''")
    (simp_all add: configIPTables_def Let_def run_rules_no_panic io_lift_def)

lemma dropSYN_no_panic: "\<not> is_panic (snd (dropSYN sh p))"
  using configIPTables_no_panic [of sh "hp_cfg p" False]
  by (cases "snd (configIPTables sh (hp_cfg p) False)") (simp_all add: dropSYN_def io_bind_def io_do_def)

lemma hp_Reload_loggable:
  assumes "list_all loggable cs"
  shows "hp_Reload sh sh' ans p cs =
    (fst (dropSYN sh p) @ map (\<lambda>c. ContainerRestart (ct_ID c) 1000) cs @ fst (resumeSYN sh' p), Ok ())"
  by (simp add: hp_Reload_def reload_each_loggable [OF assms] io_warn_Ok dropSYN_no_panic
      configIPTables_no_panic resumeSYN_def)

lemma ng_Reload_loggable:
  assumes "list_all loggable cs"
  shows "ng_Reload ans p cs = (map (\<lambda>c. ContainerKill (ct_ID c) ''HUP'') cs, Ok ())"
  by (simp add: ng_Reload_def reload_each_loggable [OF assms])

lemma signalled_map [simp]:
  "signalled (map (\<lambda>c. ContainerRestart (ct_ID c) ms) cs) = map ct_ID cs"
  "signalled (map (\<lambda>c. ContainerKill (ct_ID c) sig) cs) = map ct_ID cs"
  by (induction cs) simp_all

lemma run_rules_signalled: "signalled (fst (run_rules iptables d run i ports)) = []"
  by (induction ports arbitrary: i) (auto simp: fst_io_bind split: res.splits)

lemma configIPTables_signalled: "signalled (fst (configIPTables sh cfg d)) = []"
  by (cases "LookPath sh ''iptables''") (simp_all add: configIPTables_def Let_def run_rules_signalled)

lemma dropSYN_signalled: "signalled (fst (dropSYN sh p)) = []"
  by (auto simp: dropSYN_def fst_io_bind configIPTables_signalled split: res.splits)

lemma resumeSYN_signalled: "signalled (fst (resumeSYN sh p)) = []"
  by (simp add: resumeSYN_def configIPTables_signalled)

lemma hp_Reload_not_Err: "snd (hp_Reload sh sh' ans p cs) \<noteq> Err e"
  using reload_each_not_Err [of "\<lambda>cid. ContainerRestart cid 1000" ans 0 cs e]
  by (auto simp: hp_Reload_def snd_io_bind io_warn_Ok dropSYN_no_panic resumeSYN_def
      configIPTables_no_panic elim: res_bind_ErrE)

lemma ng_Reload_not_Err: "snd (ng_Reload ans p cs) \<noteq> Err e"
  by (simp add: ng_Reload_def reload_each_not_Err)

text \<open>Whatever the engine and the shell answer, a reload of either backend
  restarts (HAProxy) or signals (Nginx) exactly the given containers, in their order, each once, and
  reports no error, as long as the containers have a full id and a name.\<close>

theorem backends_reload_all:
  assumes "list_all loggable cs"
  shows "signalled (fst (hp_Reload sh sh' ans p cs)) = map ct_ID cs
    \<and> signalled (fst (ng_Reload ans q cs)) = map ct_ID cs
    \<and> snd (hp_Reload sh sh' ans p cs) = Ok () \<and> snd (ng_Reload ans q cs) = Ok ()"
  by (simp add: hp_Reload_loggable [OF assms] ng_Reload_loggable [OF assms] dropSYN_signalled
      resumeSYN_signalled)

definition broken_shell :: shell where
  "broken_shell = \<lparr>LookPath = \<lambda>_. Inl ''not found'', Output = \<lambda>_ _. Inl ''exit status 1''\<rparr>"

definition working_shell :: shell where
  "working_shell = \<lparr>LookPath = \<lambda>_. Inr ''/sbin/iptables'', Output = \<lambda>_ _. Inr []\<rparr>"

definition fleet_hp_backend :: HAProxyLoadBalancer where
  "fleet_hp_backend = \<lparr>hp_cfg = fleet_ext_config ''haproxy''\<rparr>"

definition fleet_ng_backend :: NginxLoadBalancer where
  "fleet_ng_backend = \<lparr>ng_cfg = fleet_ext_config ''nginx''\<rparr>"

theorem backends_reload_all_witness:
  "signalled (fst (hp_Reload broken_shell working_shell (\<lambda>_ _. Some ''timeout'') fleet_hp_backend fleet))
     = map ct_ID fleet
   \<and> snd (ng_Reload (\<lambda>_ _. Some ''timeout'') fleet_ng_backend fleet) = Ok ()"
proof -
  have "list_all loggable fleet" by code_simp
  then show ?thesis using backends_reload_all [of fleet] by blast
qed

text \<open>What the firewall commands of one call of \<open>configIPTables\<close> leave behind.\<close>

definition shell_works :: "shell \<Rightarrow> bool" where
  "shell_works sh \<longleftrightarrow> (\<exists>path. LookPath sh ''iptables'' = Inr path) \<and>
     (\<forall>i args. \<exists>out. Output sh i args = Inr out)"

abbreviation syn_rule :: "int \<Rightarrow> fw_rule" where
  "syn_rule port \<equiv> tl (syn_args [] port)"

lemma run_rules_works:
  assumes "\<And>i args. \<exists>out. run i args = Inr out"
  shows "run_rules iptables d run i ports = (map (\<lambda>p. Exec iptables (syn_args d p)) ports, Ok ())"
proof (induction ports arbitrary: i)
  case Nil
  then show ?case by (simp add: io_return_def)
next
  case (Cons port ports)
  obtain out where "run i (syn_args d port) = Inr out" using assms by blast
  with Cons show ?case by simp
qed

lemma configIPTables_works:
  assumes "shell_works sh"
  obtains path where
    "configIPTables sh cfg d =
      (map (\<lambda>p. Exec path (syn_args (if d then ''-D'' else ''-I'') p)) (syn_ports cfg), Ok ())"
proof -
  from assms obtain path where path: "LookPath sh ''iptables'' = Inr path"
    and run: "\<And>i args. \<exists>out. Output sh i args = Inr out"
    by (auto simp: shell_works_def)
  show thesis
    by (rule that [of path]) (simp add: configIPTables_def path run_rules_works [OF run] Let_def)
qed

lemma firewall_insert:
  "firewall (map (\<lambda>p. Exec path (syn_args ''-I'' p)) ports) fw = rev (map syn_rule ports) @ fw"
  by (induction ports arbitrary: fw) (simp_all add: syn_args_def)

text \<open>\<open>configIPTables\<close> with the other flag takes back what it inserted.\<close>

lemma configIPTables_undo:
  assumes "shell_works sh" and "shell_works sh'"
  shows "firewall (fst (configIPTables sh' cfg True)) (firewall (fst (configIPTables sh cfg False)) fw) = fw"
proof -
  obtain path where 1: "configIPTables sh cfg False =
      (map (\<lambda>p. Exec path (syn_args (if False then ''-D'' else ''-I'') p)) (syn_ports cfg), Ok ())"
    by (rule configIPTables_works [OF assms(1)])
  obtain path' where 2: "configIPTables sh' cfg True =
      (map (\<lambda>p. Exec path' (syn_args (if True then ''-D'' else ''-I'') p)) (syn_ports cfg), Ok ())"
    by (rule configIPTables_works [OF assms(2)])
  from 1 2 show ?thesis by (simp add: syn_ports_def syn_args_def)
qed

lemma firewall_signals [simp]:
  "firewall (map (\<lambda>c. ContainerRestart (ct_ID c) ms) cs) fw = fw"
  by (induction cs) simp_all

text \<open>C27: a reload of the HAProxy backend inserts the rules that drop new
  connections twice, before and after the restarts, and never deletes them: afterwards the firewall
  holds two more drop rules for every proxy port than before.\<close>

theorem hp_reload_leaves_syn_dropped:
  assumes "shell_works sh" and "shell_works sh'" and "list_all loggable cs"
  shows "firewall (fst (hp_Reload sh sh' ans p cs)) fw =
    rev (map syn_rule (syn_ports (hp_cfg p))) @ rev (map syn_rule (syn_ports (hp_cfg p))) @ fw"
proof -
  obtain path where 1: "configIPTables sh (hp_cfg p) False =
      (map (\<lambda>p. Exec path (syn_args (if False then ''-D'' else ''-I'') p)) (syn_ports (hp_cfg p)), Ok ())"
    by (rule configIPTables_works [OF assms(1)])
  obtain path' where 2: "configIPTables sh' (hp_cfg p) False =
      (map (\<lambda>p. Exec path' (syn_args (if False then ''-D'' else ''-I'') p)) (syn_ports (hp_cfg p)), Ok ())"
    by (rule configIPTables_works [OF assms(2)])
  from 1 2 show ?thesis
    by (simp add: hp_Reload_loggable [OF assms(3)] dropSYN_def resumeSYN_def firewall_insert)
qed

theorem hp_reload_leaves_syn_dropped_witness:
  "count_list (firewall (fst (hp_Reload working_shell working_shell (\<lambda>_ _. None) fleet_hp_backend fleet)) [])
     (syn_rule 443) = 2"
proof -
  have "list_all loggable fleet" by code_simp
  moreover have "shell_works working_shell" by (simp add: shell_works_def working_shell_def)
  moreover have "count_list (rev (map syn_rule (syn_ports (hp_cfg fleet_hp_backend))) @
      rev (map syn_rule (syn_ports (hp_cfg fleet_hp_backend))) @ []) (syn_rule 443) = 2"
    by code_simp
  ultimately show ?thesis by (simp only: hp_reload_leaves_syn_dropped)
qed

end
