(* ===== verification/Node_Id.thy ===== *)
theory Node_Id
  imports Go_Strings
begin

text \<open>
  \<open>utils/node_id.go\<close>: the id of the container the program runs in, read from
  \<open>/proc/self/cgroup\<close>. What the two reads of that file give are arguments.
\<close>

text \<open>
  The lines a \<open>bufio.Scanner\<close> returns: without the newline and one carriage return before it, and
  without an empty last line. (A scanner stops at a line of 64 KiB, which the kernel does not write.)
\<close>

definition newline :: char where
  "newline = CHR 0x0A"

definition drop_cr :: "string \<Rightarrow> string" where
  "drop_cr l = (if l \<noteq> [] \<and> last l = CHR 0x0D then butlast l else l)"

definition scan_lines :: "string \<Rightarrow> string list" where
  "scan_lines content =
     (let ls = split_on newline content
      in map drop_cr (if last ls = [] then butlast ls else ls))"

text \<open>One iteration of the scan: the id it returns, or \<open>None\<close> to go on.\<close>

definition cgroup_id :: "string \<Rightarrow> string option" where
  "cgroup_id l =
     (let parts = split_on CHR '':'' l
      in if length parts < 3 then None
         else let dataParts = split_on CHR ''/'' (parts ! 2)
              in if length dataParts < 3 then None
                 else if dataParts ! 2 \<noteq> [] then Some (strings_TrimSpace (dataParts ! 2)) else None)"

primrec scan_cgroup :: "string list \<Rightarrow> string option" where
  "scan_cgroup [] = None"
| "scan_cgroup (l # ls) = (case cgroup_id l of None \<Rightarrow> scan_cgroup ls | Some cid \<Rightarrow> Some cid)"

definition GetContainerID :: "string answer \<Rightarrow> string answer \<Rightarrow> string res" where
  "GetContainerID opened reread =
     (case opened of
        Inl err \<Rightarrow> Err (''unable to detect cgroup.  are you sure you are in a container? error: '' @ err)
      | Inr f \<Rightarrow>
          (case scan_cgroup (scan_lines f) of
             Some cid \<Rightarrow> Ok cid
           | None \<Rightarrow>
               (case reread of
                  Inl err \<Rightarrow> Err err
                | Inr content \<Rightarrow> Err (''unable to get container id: '' @ content))))"

section \<open>Lemmas\<close>

text \<open>The line that the engine's cgroup driver writes for a container.\<close>

definition cgroup_line :: "string \<Rightarrow> string \<Rightarrow> string \<Rightarrow> string" where
  "cgroup_line hierarchy controllers cid =
     hierarchy @ '':'' @ controllers @ '':/docker/'' @ cid"

definition plain_field :: "string \<Rightarrow> bool" where
  "plain_field s \<longleftrightarrow> (\<forall>c \<in> set s. c \<noteq> CHR '':'' \<and> c \<noteq> CHR ''/'' \<and> \<not> is_space c)"

lemma join_trailing: "ls \<noteq> [] \<Longrightarrow> join_with [c] (ls @ [[]]) = join_with [c] ls @ [c]"
proof (induction ls)
  case Nil
  then show ?case by simp
next
  case (Cons l ls)
  then show ?case by (cases ls) auto
qed

lemma scan_lines_join:
  assumes "ls \<noteq> []" and "\<forall>l \<in> set ls. newline \<notin> set l \<and> CHR 0x0D \<notin> set l"
  shows "scan_lines (join_with [newline] ls @ [newline]) = ls"
proof -
  have "split_on newline (join_with [newline] ls @ [newline]) = ls @ [[]]"
    using split_join [of "ls @ [[]]" newline] assms by (simp add: join_trailing)
  moreover have "map drop_cr ls = ls"
    using assms(2) by (intro map_idI) (metis drop_cr_def last_in_set)
  ultimately show ?thesis by (simp add: scan_lines_def)
qed

lemma TrimSpace_plain: "plain_field s \<Longrightarrow> strings_TrimSpace s = s"
proof -
  assume "plain_field s"
  then have "\<forall>c \<in> set s. \<not> is_space c" by (simp add: plain_field_def)
  then have "dropWhile is_space s = s" and "dropWhile is_space (rev s) = rev s"
    by (metis dropWhile_eq_self_iff hd_in_set set_rev)+
  then show ?thesis by (simp add: strings_TrimSpace_def)
qed

lemma cgroup_id_line:
  assumes "plain_field h" and "plain_field c" and "plain_field cid" and "cid \<noteq> []"
  shows "cgroup_id (cgroup_line h c cid) = Some cid"
proof -
  from assms have nc: "CHR '':'' \<notin> set h" "CHR '':'' \<notin> set c" "CHR '':'' \<notin> set cid" "CHR ''/'' \<notin> set cid"
    by (auto simp: plain_field_def)
  have "CHR '':'' \<notin> set (''/docker/'' @ cid)" using nc by simp
  then have "split_on CHR '':'' (cgroup_line h c cid) = [h, c, ''/docker/'' @ cid]"
    using nc split_on_append [of "CHR '':''" h "c @ '':/docker/'' @ cid"]
      split_on_append [of "CHR '':''" c "''/docker/'' @ cid"]
      split_on_none [of "CHR '':''" "''/docker/'' @ cid"]
    by (simp add: cgroup_line_def)
  moreover have "split_on CHR ''/'' (''/docker/'' @ cid) = [[], ''docker'', cid]"
    using nc split_on_none [of "CHR ''/''" cid] by simp
  ultimately show ?thesis
    using assms by (simp add: cgroup_id_def TrimSpace_plain)
qed

lemma plain_field_lines:
  assumes "plain_field s"
  shows "CHR 0x0A \<notin> set s" and "CHR 0x0D \<notin> set s"
proof -
  have "is_space (CHR 0x0A)" and "is_space (CHR 0x0D)" by (simp_all add: is_space_def)
  with assms show "CHR 0x0A \<notin> set s" and "CHR 0x0D \<notin> set s" by (auto simp: plain_field_def)
qed

lemma scan_cgroup_skip:
  "(\<And>l. l \<in> set pre \<Longrightarrow> cgroup_id l = None) \<Longrightarrow> scan_cgroup (pre @ ls) = scan_cgroup ls"
  by (induction pre) simp_all

text \<open>The id of the container is read from the first cgroup line of the form the
  engine writes, whatever lines without an id come before it and whatever comes after.\<close>

theorem container_id_read:
  assumes "\<And>l. l \<in> set pre \<Longrightarrow> cgroup_id l = None"
    and "\<forall>l \<in> set (pre @ post). newline \<notin> set l \<and> CHR 0x0D \<notin> set l"
    and "plain_field h" and "plain_field c" and "plain_field cid" and "cid \<noteq> []"
  shows "GetContainerID
      (Inr (join_with [newline] (pre @ cgroup_line h c cid # post) @ [newline])) reread = Ok cid"
proof -
  have "newline \<notin> set (cgroup_line h c cid) \<and> CHR 0x0D \<notin> set (cgroup_line h c cid)"
    using assms(3-5) plain_field_lines by (auto simp: cgroup_line_def newline_def)
  with assms(2) have "scan_lines (join_with [newline] (pre @ cgroup_line h c cid # post) @ [newline])
      = pre @ cgroup_line h c cid # post"
    by (intro scan_lines_join) auto
  then show ?thesis
    by (simp add: GetContainerID_def scan_cgroup_skip [OF assms(1)] cgroup_id_line [OF assms(3-6)])
qed

theorem container_id_read_witness:
  "GetContainerID (Inr (join_with [newline]
      ([''11:cpuset:/''] @ cgroup_line ''10'' ''memory'' ''0f3a9c'' # [''1:name=systemd:/docker/other'']) @ [newline]))
      (Inl ''closed'') = Ok ''0f3a9c''"
proof (rule container_id_read)
  show "cgroup_id l = None" if "l \<in> set [''11:cpuset:/'']" for l
  proof -
    have "cgroup_id ''11:cpuset:/'' = None" by code_simp
    with that show ?thesis by simp
  qed
  show "\<forall>l \<in> set ([''11:cpuset:/''] @ [''1:name=systemd:/docker/other'']).
      newline \<notin> set l \<and> CHR 0x0D \<notin> set l" by code_simp
  show "plain_field ''10''" and "plain_field ''memory''" and "plain_field ''0f3a9c''" by code_simp+
qed simp

end
