(* ===== verification/Ttl_Cache.thy ===== *)
theory Ttl_Cache
  imports Prelude
begin

text \<open>
  The cache of \<open>src/vendor/github.com/ehazlett/ttlcache\<close> that the load balancer uses to wait for a
  quiet period: keys with the time of their last \<open>Set\<close>. \<open>Get\<close> does not look at the time; only the
  reaper removes keys. Times are milliseconds.
\<close>

record ttl_cache =
  tc_data :: "(string, int) gomap"
  tc_ttl :: int

definition ttl_New :: "int \<Rightarrow> ttl_cache res" where
  "ttl_New ttl = (if ttl \<le> 100 then Err ''ttl too low'' else Ok \<lparr>tc_data = [], tc_ttl = ttl\<rparr>)"

definition ttl_Set :: "string \<Rightarrow> int \<Rightarrow> ttl_cache \<Rightarrow> ttl_cache" where
  "ttl_Set k now c = c\<lparr>tc_data := gm_set k now (tc_data c)\<rparr>"

definition ttl_Get :: "ttl_cache \<Rightarrow> string \<Rightarrow> bool" where
  "ttl_Get c k = gm_has (tc_data c) k"

text \<open>A pass of the reaper: the keys it deletes, for each of which it calls the callback.\<close>

definition ttl_reaped :: "int \<Rightarrow> ttl_cache \<Rightarrow> string list" where
  "ttl_reaped now c = map fst (filter (\<lambda>(k, updated). now - updated \<ge> tc_ttl c) (tc_data c))"

definition ttl_reap :: "int \<Rightarrow> ttl_cache \<Rightarrow> ttl_cache" where
  "ttl_reap now c = c\<lparr>tc_data := filter (\<lambda>(k, updated). \<not> now - updated \<ge> tc_ttl c) (tc_data c)\<rparr>"

section \<open>The contract of an expiring store\<close>

text \<open>
  What the load balancer relies on: a key that was set is there until a pass of the reaper removes it,
  which it does exactly with the keys that were last set a full period ago; a key it removes is handed
  to the callback.
\<close>

locale expiring_store =
  fixes ok :: "'s \<Rightarrow> bool"
    and period :: "'s \<Rightarrow> int"
    and put :: "string \<Rightarrow> int \<Rightarrow> 's \<Rightarrow> 's"
    and updated :: "'s \<Rightarrow> string \<Rightarrow> int option"
    and reaped :: "int \<Rightarrow> 's \<Rightarrow> string list"
    and reap :: "int \<Rightarrow> 's \<Rightarrow> 's"
  assumes ok_put: "ok c \<Longrightarrow> ok (put k now c)"
    and ok_reap: "ok c \<Longrightarrow> ok (reap now c)"
    and period_put: "period (put k now c) = period c"
    and period_reap: "period (reap now c) = period c"
    and updated_put: "ok c \<Longrightarrow> updated (put k now c) k' = (if k' = k then Some now else updated c k')"
    and updated_reap: "ok c \<Longrightarrow> updated (reap now c) k =
      (case updated c k of None \<Rightarrow> None | Some t \<Rightarrow> if now - t \<ge> period c then None else Some t)"
    and reaped_iff: "ok c \<Longrightarrow> k \<in> set (reaped now c) \<longleftrightarrow>
      (\<exists>t. updated c k = Some t \<and> now - t \<ge> period c)"
begin

lemma reaped_gone: "ok c \<Longrightarrow> k \<in> set (reaped now c) \<Longrightarrow> updated (reap now c) k = None"
  by (auto simp: reaped_iff updated_reap)

lemma fresh_not_reaped: "ok c \<Longrightarrow> 0 < period c \<Longrightarrow> k \<notin> set (reaped now (put k now c))"
  by (simp add: reaped_iff ok_put updated_put period_put)

end

lemma map_of_filter_key:
  assumes "distinct (map fst m)"
  shows "map_of (filter (\<lambda>(k, v). P v) m) k =
    (case map_of m k of None \<Rightarrow> None | Some v \<Rightarrow> if P v then Some v else None)"
  using assms
proof (induction m)
  case Nil
  then show ?case by simp
next
  case (Cons a m)
  then have "map_of m (fst a) = None" by (simp add: map_of_eq_None_iff)
  with Cons show ?case by (cases a) auto
qed

definition ttl_ok :: "ttl_cache \<Rightarrow> bool" where
  "ttl_ok c = gm_wf (tc_data c)"

definition ttl_updated :: "ttl_cache \<Rightarrow> string \<Rightarrow> int option" where
  "ttl_updated c k = gm_get (tc_data c) k"

interpretation tc: expiring_store ttl_ok tc_ttl ttl_Set ttl_updated ttl_reaped ttl_reap
proof unfold_locales
  fix c :: ttl_cache and now t :: int and k k' :: string
  show "ttl_ok c \<Longrightarrow> ttl_ok (ttl_Set k now c)"
    by (simp add: ttl_ok_def ttl_Set_def gm_wf_set)
  show "ttl_ok c \<Longrightarrow> ttl_ok (ttl_reap now c)"
    by (simp add: ttl_ok_def ttl_reap_def gm_wf_def distinct_map_filter)
  show "tc_ttl (ttl_Set k now c) = tc_ttl c" and "tc_ttl (ttl_reap now c) = tc_ttl c"
    by (simp_all add: ttl_Set_def ttl_reap_def)
  show "ttl_updated (ttl_Set k now c) k' = (if k' = k then Some now else ttl_updated c k')"
    by (simp add: ttl_updated_def ttl_Set_def gm_get_set)
  show "ttl_ok c \<Longrightarrow> ttl_updated (ttl_reap now c) k = (case ttl_updated c k of None \<Rightarrow> None
      | Some t \<Rightarrow> if now - t \<ge> tc_ttl c then None else Some t)"
    by (auto simp: ttl_updated_def ttl_reap_def ttl_ok_def gm_wf_def map_of_filter_key split: option.split)
  show "ttl_ok c \<Longrightarrow> k \<in> set (ttl_reaped now c) \<longleftrightarrow>
      (\<exists>t. ttl_updated c k = Some t \<and> now - t \<ge> tc_ttl c)"
    by (force simp: ttl_updated_def ttl_reaped_def ttl_ok_def gm_get_in_set)
qed

lemma ttl_Get_updated: "ttl_Get c k \<longleftrightarrow> ttl_updated c k \<noteq> None"
  by (simp add: ttl_Get_def ttl_updated_def gm_has_def)

end
