(* ===== verification/Load_Balancer.thy ===== *)
theory Load_Balancer
  imports Backends Node_Id Ttl_Cache
begin

text \<open>
  \<open>ext/lb/lb.go\<close>: the load balancer extension around a backend. Here are its construction, the body
  of the update handler (list, generate, save, connect, choose the proxies of this node, reload), the
  event handler, and the clean-up of networks. When the update handler runs is the subject of
  \<open>Reload_Machine\<close>. The engine's answers are arguments, one per call.
\<close>

section \<open>Data\<close>

record proxyContainerNetworkConfig =
  pn_ContainerID :: string
  pn_ProxyNetworks :: "(string, string) gomap"

text \<open>The \<open>interface{}\<close> that \<open>GenerateProxyConfig\<close> returns.\<close>

datatype proxy_config = HAProxyConfig hp_config | NginxConfig ng_config

record LoadBalancerBackend =
  be_Name :: string
  be_ConfigPath :: string
  be_GenerateProxyConfig :: "container list \<Rightarrow> proxy_config res"
  be_Template :: string
  be_Reload :: "container list \<Rightarrow> unit io"

record LoadBalancer =
  lb_nodeID :: string
  lb_cfg :: ext_config
  lb_cache :: ttl_cache
  lb_backend :: LoadBalancerBackend

definition lb_pluginName :: string where
  "lb_pluginName = ''lb''"

definition lb_Name :: "LoadBalancer \<Rightarrow> string" where
  "lb_Name l = lb_pluginName"

definition ReloadThreshold :: int where
  "ReloadThreshold = 2000"

text \<open>What the environment answers to the calls of a backend during one update.\<close>

record backend_env =
  bv_envs :: "nat \<Rightarrow> gen_env"
  bv_ord :: order
  bv_ReadFile :: "string \<Rightarrow> string answer"
  bv_drop :: shell
  bv_resume :: shell
  bv_signal :: "nat \<Rightarrow> string \<Rightarrow> error"
  bv_haproxyConfTemplate :: string
  bv_nginxConfTemplate :: string
  bv_nginxPlusConfTemplate :: string

definition hp_backend :: "backend_env \<Rightarrow> HAProxyLoadBalancer \<Rightarrow> LoadBalancerBackend" where
  "hp_backend v p = \<lparr>be_Name = hp_Name p, be_ConfigPath = hp_ConfigPath p,
     be_GenerateProxyConfig = (\<lambda>cs. res_bind
       (hp_GenerateProxyConfig (hp_cfg p) (bv_envs v) (bv_ord v) cs) (\<lambda>c. Ok (HAProxyConfig c))),
     be_Template = hp_Template (bv_ReadFile v) (bv_haproxyConfTemplate v) p,
     be_Reload = hp_Reload (bv_drop v) (bv_resume v) (bv_signal v) p\<rparr>"

definition ng_backend :: "backend_env \<Rightarrow> NginxLoadBalancer \<Rightarrow> LoadBalancerBackend" where
  "ng_backend v p = \<lparr>be_Name = ng_Name p, be_ConfigPath = ng_ConfigPath p,
     be_GenerateProxyConfig = (\<lambda>cs. res_bind
       (ng_GenerateProxyConfig (ng_cfg p) (bv_envs v) (bv_ord v) cs) (\<lambda>c. Ok (NginxConfig c))),
     be_Template = ng_Template (bv_ReadFile v) (bv_nginxConfTemplate v) (bv_nginxPlusConfTemplate v) p,
     be_Reload = ng_Reload (bv_signal v) p\<rparr>"

section \<open>Construction\<close>

text \<open>A missing template file ends the process (\<open>log().Fatal\<close>), which is a \<open>Panic\<close> here.\<close>

definition select_backend :: "backend_env \<Rightarrow> ext_config \<Rightarrow> LoadBalancerBackend res" where
  "select_backend v c =
     (if Name c = ''haproxy'' then
        res_bind (NewHAProxyLoadBalancer c) (\<lambda>p. Ok (hp_backend v p))
      else if Name c = ''nginx'' then
        res_bind (NewNginxLoadBalancer c) (\<lambda>p. Ok (ng_backend v p))
      else Err (''unknown load balancer backend: '' @ Name c))"

definition NewLoadBalancer ::
  "(string \<Rightarrow> bool) \<Rightarrow> string res \<Rightarrow> backend_env \<Rightarrow> ext_config \<Rightarrow> LoadBalancer res" where
  "NewLoadBalancer isNotExist containerID v c =
     (if TemplatePath c \<noteq> [] \<and> isNotExist (TemplatePath c) then Panic ''exit status 1''
      else let c = c\<lparr>ConfigBasePath := path_Dir (ConfigPath c)\<rparr>
           in res_bind (ttl_New ReloadThreshold) (\<lambda>cache.
              res_bind containerID (\<lambda>nodeID.
              res_bind (select_backend v c) (\<lambda>b.
                Ok \<lparr>lb_nodeID = nodeID, lb_cfg = c, lb_cache = cache, lb_backend = b\<rparr>))))"

section \<open>Saving the configuration\<close>

definition ProxyContainers :: "container list answer \<Rightarrow> LoadBalancer \<Rightarrow> container list res" where
  "ProxyContainers containers l =
     res_bind (of_answer containers) (\<lambda>cs.
       Ok (filter (\<lambda>cnt. gm_get (ct_Labels cnt) InterlockExtNameLabel
             = Some (be_Name (lb_backend l))) cs))"

text \<open>
  A template engine: whether a text parses, and what it renders for a configuration. The proofs of
  this theory hold for every engine.
\<close>

record template_engine =
  te_Parse :: "string \<Rightarrow> error"
  te_Execute :: "string \<Rightarrow> proxy_config \<Rightarrow> string answer"

definition is_nginx_config :: "proxy_config \<Rightarrow> bool" where
  "is_nginx_config cfg = (case cfg of NginxConfig _ \<Rightarrow> True | HAProxyConfig _ \<Rightarrow> False)"

definition render_config ::
  "template_engine \<Rightarrow> LoadBalancerBackend \<Rightarrow> proxy_config \<Rightarrow> string res" where
  "render_config te b cfg =
     (case te_Parse te (be_Template b) of
        Some err \<Rightarrow> Err err
      | None \<Rightarrow>
          if be_Name b = ''nginx'' then
            (if is_nginx_config cfg then of_answer (te_Execute te (be_Template b) cfg)
             else Panic ''interface conversion'')
          else if be_Name b = ''haproxy'' then
            (if \<not> is_nginx_config cfg then of_answer (te_Execute te (be_Template b) cfg)
             else Panic ''interface conversion'')
          else Err (''unknown backend type: '' @ be_Name b))"

text \<open>
  The loop over the proxy containers. The archive is written to memory, where writing does not fail.
\<close>

primrec copy_each ::
  "string \<Rightarrow> string \<Rightarrow> string \<Rightarrow> (nat \<Rightarrow> string \<Rightarrow> error) \<Rightarrow> nat \<Rightarrow> container list \<Rightarrow> unit io" where
  "copy_each dir fName data ans i [] = io_return ()"
| "copy_each dir fName data ans i (cnt # cnts) =
     io_bind (io_do (CopyToContainer (ct_ID cnt) dir fName data)) (\<lambda>_.
       case ans i (ct_ID cnt) of
         Some err \<Rightarrow> copy_each dir fName data ans (Suc i) cnts
       | None \<Rightarrow> copy_each dir fName data ans (Suc i) cnts)"

definition SaveConfig ::
  "template_engine \<Rightarrow> (nat \<Rightarrow> string \<Rightarrow> error) \<Rightarrow> LoadBalancer \<Rightarrow> proxy_config \<Rightarrow> container list \<Rightarrow> unit io" where
  "SaveConfig te ans l cfg proxyContainers =
     io_bind (io_lift (render_config te (lb_backend l) cfg)) (\<lambda>data.
       copy_each (path_Dir (be_ConfigPath (lb_backend l))) (path_Base (be_ConfigPath (lb_backend l)))
         data ans 0 proxyContainers)"

section \<open>Networks of the proxies\<close>

definition proxy_networks :: "string \<Rightarrow> proxy_config \<Rightarrow> (string, string) gomap res" where
  "proxy_networks name cfg =
     (if name = ''nginx'' then
        (case cfg of NginxConfig c \<Rightarrow> Ok (nc_Networks c) | _ \<Rightarrow> Panic ''interface conversion'')
      else if name = ''haproxy'' then
        (case cfg of HAProxyConfig c \<Rightarrow> Ok (hc_Networks c) | _ \<Rightarrow> Panic ''interface conversion'')
      else Err (''unable to connect to networks; unknown backend: '' @ name))"

text \<open>A failed connect is logged, so the answers do not matter to what follows.\<close>

definition connect_one :: "order \<Rightarrow> (string, string) gomap \<Rightarrow> container \<Rightarrow> effect list" where
  "connect_one ord nets cnt =
     map (\<lambda>(net, _). NetworkConnect net (ct_ID cnt))
       (filter (\<lambda>(net, _). \<not> gm_has (ct_Networks cnt) net) (go_range ord nets))"

primrec connect_each ::
  "(nat \<Rightarrow> order) \<Rightarrow> nat \<Rightarrow> (string, string) gomap \<Rightarrow> container list \<Rightarrow> effect list" where
  "connect_each ord i nets [] = []"
| "connect_each ord i nets (cnt # cnts) = connect_one (ord i) nets cnt @ connect_each ord (Suc i) nets cnts"

text \<open>
  The goroutine that removes the proxies from networks they no longer need: at most five tries per
  network, two seconds apart. Nothing in the program sends to its channel.
\<close>

primrec disconnect_tries :: "(nat \<Rightarrow> error) \<Rightarrow> string \<Rightarrow> string \<Rightarrow> nat \<Rightarrow> nat \<Rightarrow> effect list" where
  "disconnect_tries ans net cid i 0 = []"
| "disconnect_tries ans net cid i (Suc n) =
     NetworkDisconnect net cid #
       (case ans i of
          None \<Rightarrow> []
        | Some err \<Rightarrow> SleepMs 2000 # disconnect_tries ans net cid (Suc i) n)"

definition cleanup_one ::
  "order \<Rightarrow> (string \<Rightarrow> container_json answer) \<Rightarrow> (string \<Rightarrow> nat \<Rightarrow> error) \<Rightarrow>
     proxyContainerNetworkConfig \<Rightarrow> effect list" where
  "cleanup_one ord inspect ans c =
     (case inspect (pn_ContainerID c) of
        Inl err \<Rightarrow> []
      | Inr cnt \<Rightarrow>
          concat (map (\<lambda>(net, _).
            if net = ''bridge'' then []
            else if gm_has (pn_ProxyNetworks c) net then []
            else disconnect_tries (ans net) net (pn_ContainerID c) 0 5) (go_range ord (cj_Networks cnt))))"

primrec cleanup_networks ::
  "(nat \<Rightarrow> order) \<Rightarrow> (nat \<Rightarrow> string \<Rightarrow> container_json answer) \<Rightarrow> (nat \<Rightarrow> string \<Rightarrow> nat \<Rightarrow> error) \<Rightarrow>
     nat \<Rightarrow> proxyContainerNetworkConfig list \<Rightarrow> effect list" where
  "cleanup_networks ord inspect ans i [] = []"
| "cleanup_networks ord inspect ans i (c # nc) =
     cleanup_one (ord i) (inspect i) (ans i) c @ cleanup_networks ord inspect ans (Suc i) nc"

section \<open>Which proxies this node reloads\<close>

primrec interlock_nodes ::
  "string \<Rightarrow> (nat \<Rightarrow> string \<Rightarrow> container_json answer) \<Rightarrow> nat \<Rightarrow> container list \<Rightarrow> container list" where
  "interlock_nodes containerID inspect i [] = []"
| "interlock_nodes containerID inspect i (cnt # cnts) =
     (if ct_ID cnt = containerID \<and> ct_State cnt = ''running'' then [cnt]
      else case inspect i (ct_ID cnt) of
             Inl err \<Rightarrow> []
           | Inr cInfo \<Rightarrow>
               if strings_Index (cc_Image (cj_Config cInfo)) ''interlock'' > 0
                  \<and> gm_has (cc_Labels (cj_Config cInfo)) InterlockAppLabel
               then [cnt] else [])
     @ interlock_nodes containerID inspect (Suc i) cnts"

text \<open>The loop that gives each node but the last the \<open>sub\<close> last of the proxies that are left.\<close>

primrec split_work ::
  "nat \<Rightarrow> container list \<Rightarrow> container list \<Rightarrow> (string, container list) gomap \<Rightarrow>
     (container list \<times> (string, container list) gomap) res" where
  "split_work sub [] proxies work = Ok (proxies, work)"
| "split_work sub (nd # nds) proxies work =
     (if length proxies < sub then Panic ''slice bounds out of range''
      else split_work sub nds (take (length proxies - sub) proxies)
             (gm_set (ct_ID nd) (drop (length proxies - sub) proxies) work))"

primrec log_ids :: "container list \<Rightarrow> unit res" where
  "log_ids [] = Ok ()"
| "log_ids (c # cs) = res_bind (go_slice_to 8 (ct_ID c)) (\<lambda>_. log_ids cs)"

definition proxyContainersToRestart ::
  "string \<Rightarrow> container list \<Rightarrow> container list \<Rightarrow> container list res" where
  "proxyContainersToRestart nodeID nodes proxyContainers =
     (let numNodes = length nodes
      in if numNodes = 0 then Ok proxyContainers
         else if numNodes = 1 then Ok proxyContainers
         else let sub = length proxyContainers div numNodes
              in res_bind (split_work sub (butlast nodes) proxyContainers []) (\<lambda>(rest, work).
                   let work = gm_set (ct_ID (last nodes)) rest work;
                       containersToRestart = gm_at [] work nodeID
                   in res_bind (log_ids containersToRestart) (\<lambda>_. Ok containersToRestart)))"

section \<open>The update handler\<close>

record update_env =
  ue_ContainerList :: "container list answer"
  ue_ProxyList :: "container list answer"
  ue_Copy :: "nat \<Rightarrow> string \<Rightarrow> error"
  ue_ord :: "nat \<Rightarrow> order"
  ue_Inspect :: "nat \<Rightarrow> string \<Rightarrow> container_json answer"

text \<open>
  One update, from the listing of the containers to the reload; an \<open>Err\<close> is what is sent to \<open>errChan\<close>
  before the handler goes back to waiting.
\<close>

definition lb_update :: "template_engine \<Rightarrow> update_env \<Rightarrow> LoadBalancer \<Rightarrow> unit io" where
  "lb_update te u l =
     io_bind (io_lift (of_answer (ue_ContainerList u))) (\<lambda>containers.
     io_bind (io_lift (be_GenerateProxyConfig (lb_backend l) containers)) (\<lambda>cfg.
     io_bind (io_lift (ProxyContainers (ue_ProxyList u) l)) (\<lambda>proxyContainers.
     io_bind (SaveConfig te (ue_Copy u) l cfg proxyContainers) (\<lambda>_.
     io_bind (io_lift (proxy_networks (be_Name (lb_backend l)) cfg)) (\<lambda>proxyNetworks.
     io_bind (connect_each (ue_ord u) 0 proxyNetworks proxyContainers, Ok ()) (\<lambda>_.
     io_bind (io_lift (proxyContainersToRestart (lb_nodeID l)
         (interlock_nodes (lb_nodeID l) (ue_Inspect u) 0 containers) proxyContainers)) (\<lambda>restart.
     io_bind (io_do (SleepMs 1000)) (\<lambda>_.
       be_Reload (lb_backend l) restart))))))))"

section \<open>Events\<close>

definition isExposedContainer :: "container_json answer \<Rightarrow> bool" where
  "isExposedContainer inspected =
     (case inspected of
        Inl err \<Rightarrow> False
      | Inr c \<Rightarrow>
          if gm_has (cc_Labels (cj_Config c)) InterlockExtNameLabel then False
          else if gm_has (cc_Labels (cj_Config c)) InterlockAppLabel then False
          else if cc_ExposedPorts (cj_Config c) = [] then False
          else True)"

definition isContainerConnected :: "network_resource answer \<Rightarrow> string \<Rightarrow> bool res" where
  "isContainerConnected inspected cid =
     res_bind (of_answer inspected) (\<lambda>network. Ok (gm_has (nr_Containers network) cid))"

record event_env =
  ev_Inspect :: "string \<Rightarrow> container_json answer"
  ev_Network :: "nat \<Rightarrow> string \<Rightarrow> network_resource answer"
  ev_Inspect_net :: "string \<Rightarrow> container_json answer"

text \<open>The wait for the connection: \<open>n\<close> tries are left, the next is number \<open>i\<close>.\<close>

primrec wait_connected :: "(nat \<Rightarrow> network_resource answer) \<Rightarrow> string \<Rightarrow> nat \<Rightarrow> nat \<Rightarrow> unit io" where
  "wait_connected ans cid i 0 = io_return ()"
| "wait_connected ans cid i (Suc n) =
     io_bind (io_lift (isContainerConnected (ans i) cid)) (\<lambda>connected.
       if connected then io_return ()
       else io_bind (io_do (SleepMs 500)) (\<lambda>_. wait_connected ans cid (Suc i) n))"

definition status_reload :: "event_env \<Rightarrow> event_message \<Rightarrow> bool io" where
  "status_reload v event =
     (if em_Status event = ''start'' then io_return (isExposedContainer (ev_Inspect v (em_ID event)))
      else if em_Status event = ''stop'' then
        (let reload = isExposedContainer (ev_Inspect v (em_ID event))
         in io_bind (io_do (SleepMs 250)) (\<lambda>_. io_return reload))
      else if em_Status event \<in> {''interlock-start'', ''interlock-restart'', ''destroy''}
      then io_return True
      else io_return False)"

definition action_reload :: "event_env \<Rightarrow> event_message \<Rightarrow> bool \<Rightarrow> bool io" where
  "action_reload v event reload =
     (if em_Action event \<in> {''connect'', ''disconnect''} then
        (case gm_get (em_Attributes event) ''container'' of
           None \<Rightarrow> io_lift (Err ''unable to detect container id for network event'')
         | Some cid \<Rightarrow>
             (case gm_get (em_Attributes event) ''name'' of
                None \<Rightarrow> io_lift (Err ''unable to detect container network name for network event'')
              | Some net \<Rightarrow>
                  io_bind (wait_connected (\<lambda>i. ev_Network v i net) cid 0 5) (\<lambda>_.
                    io_return (isExposedContainer (ev_Inspect_net v cid)))))
      else io_return reload)"

text \<open>The result says whether the handler put \<open>reload\<close> into the cache.\<close>

definition lb_HandleEvent :: "event_env \<Rightarrow> event_message \<Rightarrow> bool io" where
  "lb_HandleEvent v event = io_bind (status_reload v event) (action_reload v event)"

section \<open>The shares of the nodes\<close>

primrec shares :: "nat \<Rightarrow> 'n list \<Rightarrow> container list \<Rightarrow> container list list" where
  "shares sub [] proxies = [proxies]"
| "shares sub (nd # nds) proxies =
     drop (length proxies - sub) proxies # shares sub nds (take (length proxies - sub) proxies)"

lemma length_shares [simp]: "length (shares sub nds proxies) = Suc (length nds)"
  by (induction nds arbitrary: proxies) simp_all

lemma shares_nonempty [simp]: "shares sub nds proxies \<noteq> []"
  by (cases nds) simp_all

lemma concat_shares: "concat (rev (shares sub nds proxies)) = proxies"
  by (induction nds arbitrary: proxies) simp_all

lemma set_shares: "sh \<in> set (shares sub nds proxies) \<Longrightarrow> set sh \<subseteq> set proxies"
  by (metis (no_types, lifting) Sup_upper concat_shares image_eqI set_concat set_rev)

lemma length_share:
  assumes "length nds * sub \<le> length proxies" and "i < length nds"
  shows "length (shares sub nds proxies ! i) = sub"
  using assms
proof (induction nds arbitrary: proxies i)
  case Nil
  then show ?case by simp
next
  case (Cons nd nds)
  then show ?case by (cases i) auto
qed

lemma length_last_share:
  assumes "length nds * sub \<le> length proxies"
  shows "length (last (shares sub nds proxies)) = length proxies - length nds * sub"
  using assms
proof (induction nds arbitrary: proxies)
  case Nil
  then show ?case by simp
next
  case (Cons nd nds)
  then show ?case by auto
qed

lemma split_work_shares:
  assumes "length nds * sub \<le> length proxies"
  shows "split_work sub nds proxies work =
    Ok (last (shares sub nds proxies),
        AList.updates (map ct_ID nds) (butlast (shares sub nds proxies)) work)"
  using assms
proof (induction nds arbitrary: proxies work)
  case Nil
  then show ?case by simp
next
  case (Cons nd nds)
  then have "length nds * sub \<le> length (take (length proxies - sub) proxies)" by auto
  from Cons.IH [OF this] Cons.prems show ?case by simp
qed

lemma update_updates:
  "length ks = length vs \<Longrightarrow>
    AList.update k v (AList.updates ks vs al) = AList.updates (ks @ [k]) (vs @ [v]) al"
  by (induction ks vs arbitrary: al rule: list_induct2) simp_all

lemma gm_at_updates:
  assumes "distinct ks" and "length ks = length vs" and "i < length ks"
  shows "gm_at z (AList.updates ks vs []) (ks ! i) = vs ! i"
proof -
  have "map_of (AList.updates ks vs []) (ks ! i) = map_of (rev (zip ks vs)) (ks ! i)"
    by (simp add: updates_conv' map_upds_def)
  also have "map_of (rev (zip ks vs)) = map_of (zip ks vs)"
    using assms(1,2) by (intro map_of_inject_set [THEN iffD2]) (auto simp flip: rev_map)
  also have "map_of (zip ks vs) (ks ! i) = Some (vs ! i)"
    using assms by (simp add: map_of_zip_nth)
  finally show ?thesis by (simp add: gm_at_def)
qed

lemma gm_at_updates_cases: "gm_at z (AList.updates ks vs []) k \<in> insert z (set vs)"
proof (cases "map_of (AList.updates ks vs []) k")
  case None
  then show ?thesis by (simp add: gm_at_def)
next
  case (Some v)
  then have "(k, v) \<in> set (rev (zip ks vs))"
    by (intro map_of_SomeD) (simp add: updates_conv' map_upds_def)
  then have "v \<in> set vs" by (auto dest: set_zip_rightD)
  with Some show ?thesis by (simp add: gm_at_def)
qed

lemma gm_at_updates_other:
  "k \<notin> set ks \<Longrightarrow> gm_at z (AList.updates ks vs []) k = z"
  by (simp add: gm_at_def updates_conv' map_upd_upds_conv_if)

lemma log_ids_Ok: "list_all (\<lambda>c. 8 \<le> length (ct_ID c)) cs \<Longrightarrow> log_ids cs = Ok ()"
  by (induction cs) (simp_all add: go_slice_to_def)

text \<open>With two nodes or more, the work map is the shares of the nodes.\<close>

lemma proxyContainersToRestart_work:
  fixes nodes proxies
  defines "sub \<equiv> length proxies div length nodes"
  assumes "2 \<le> length nodes" and "list_all (\<lambda>c. 8 \<le> length (ct_ID c)) proxies"
  shows "proxyContainersToRestart nodeID nodes proxies =
    Ok (gm_at [] (AList.updates (map ct_ID nodes) (shares sub (butlast nodes) proxies) []) nodeID)"
proof -
  let ?sh = "shares sub (butlast nodes) proxies"
  let ?w = "AList.updates (map ct_ID nodes) ?sh []"
  from assms(2) have ne: "nodes \<noteq> []" by auto
  have "(length nodes - 1) * sub \<le> length nodes * sub" by simp
  also have "\<dots> \<le> length proxies" by (simp add: sub_def)
  finally have le: "length (butlast nodes) * sub \<le> length proxies" by simp
  have "AList.update (ct_ID (last nodes)) (last ?sh) (AList.updates (map ct_ID (butlast nodes)) (butlast ?sh) [])
      = AList.updates (map ct_ID (butlast nodes) @ [ct_ID (last nodes)]) (butlast ?sh @ [last ?sh]) []"
    by (rule update_updates) simp
  also have "map ct_ID (butlast nodes) @ [ct_ID (last nodes)] = map ct_ID nodes"
    using ne by (metis append_butlast_last_id list.simps(8,9) map_append)
  finally have w: "AList.update (ct_ID (last nodes)) (last ?sh)
      (AList.updates (map ct_ID (butlast nodes)) (butlast ?sh) []) = ?w"
    by simp
  have "set (gm_at [] ?w nodeID) \<subseteq> set proxies"
    using gm_at_updates_cases [of "[]" "map ct_ID nodes" ?sh nodeID] set_shares by fastforce
  then have "log_ids (gm_at [] ?w nodeID) = Ok ()"
    using assms(3) by (intro log_ids_Ok) (auto simp: list_all_iff)
  with assms(2) ne show ?thesis
    by (simp add: proxyContainersToRestart_def Let_def sub_def [symmetric] split_work_shares [OF le] w)
qed

text \<open>C10: when the interlock nodes agree on the list of nodes and of proxies,
  every proxy is reloaded by exactly one node: the lists of the nodes, put together from the last node
  to the first, are the list of proxies. Every node but the last reloads \<open>p div n\<close> of the \<open>p\<close> proxies
  and the last one the remainder too.\<close>

theorem restart_shares_partition:
  fixes nodes proxies :: "container list"
  assumes "nodes \<noteq> []" and "distinct (map ct_ID nodes)"
    and "list_all (\<lambda>c. 8 \<le> length (ct_ID c)) proxies"
  shows "\<exists>sh. length sh = length nodes
    \<and> (\<forall>i < length nodes. proxyContainersToRestart (ct_ID (nodes ! i)) nodes proxies = Ok (sh ! i))
    \<and> concat (rev sh) = proxies
    \<and> (\<forall>i < length nodes - 1. length (sh ! i) = length proxies div length nodes)
    \<and> length (last sh) = length proxies div length nodes + length proxies mod length nodes"
proof (cases "length nodes = 1")
  case True
  then show ?thesis
    by (intro exI [of _ "[proxies]"]) (simp add: proxyContainersToRestart_def)
next
  case False
  define n where "n = length nodes"
  define sub where "sub = length proxies div n"
  let ?sh = "shares sub (butlast nodes) proxies"
  from False assms(1) have n: "2 \<le> n" by (cases nodes) (auto simp: n_def Suc_le_eq)
  have p: "length proxies = n * sub + length proxies mod n" by (simp add: sub_def)
  have eq: "n * sub = (n - 1) * sub + sub" using n by (cases n) simp_all
  have le: "length (butlast nodes) * sub \<le> length proxies"
    using p eq by (simp add: n_def [symmetric])
  have len: "length ?sh = length nodes" using n by (simp add: n_def)
  have "proxyContainersToRestart (ct_ID (nodes ! i)) nodes proxies = Ok (?sh ! i)" if "i < length nodes" for i
    using proxyContainersToRestart_work [of nodes proxies "ct_ID (nodes ! i)"]
      gm_at_updates [OF assms(2), of ?sh i "[]"] assms(3) n that len
    by (simp add: n_def sub_def)
  moreover have "length (?sh ! i) = sub" if "i < length nodes - 1" for i
    using length_share [OF le, of i] that by simp
  moreover have "length (last ?sh) = sub + length proxies mod n"
    using length_last_share [OF le] p eq by (simp add: n_def [symmetric])
  ultimately show ?thesis
    using len concat_shares [of sub "butlast nodes" proxies]
    by (intro exI [of _ ?sh]) (simp add: n_def [symmetric] sub_def [symmetric])
qed

definition proxy_named :: "string \<Rightarrow> container" where
  "proxy_named cid = \<lparr>ct_ID = cid, ct_Names = [CHR ''/'' # cid], ct_Image = ''nginx:latest'',
     ct_State = ''running'', ct_Labels = [(InterlockExtNameLabel, ''nginx'')], ct_Ports = [80],
     ct_Networks = []\<rparr>"

theorem restart_shares_partition_witness:
  "\<exists>sh. length sh = 2
    \<and> proxyContainersToRestart ''nodeA'' (map proxy_named [''nodeA'', ''nodeB''])
        (map proxy_named [''proxy000001a'', ''proxy000002b'', ''proxy000003c'']) = Ok (sh ! 0)
    \<and> concat (rev sh) = map proxy_named [''proxy000001a'', ''proxy000002b'', ''proxy000003c'']"
proof -
  have "distinct (map ct_ID (map proxy_named [''nodeA'', ''nodeB'']))"
    "list_all (\<lambda>c. 8 \<le> length (ct_ID c)) (map proxy_named [''proxy000001a'', ''proxy000002b'', ''proxy000003c''])"
    by code_simp+
  from restart_shares_partition [OF _ this] obtain sh where
    "length sh = length (map proxy_named [''nodeA'', ''nodeB''])"
    "\<forall>i < length (map proxy_named [''nodeA'', ''nodeB'']).
       proxyContainersToRestart (ct_ID (map proxy_named [''nodeA'', ''nodeB''] ! i))
         (map proxy_named [''nodeA'', ''nodeB''])
         (map proxy_named [''proxy000001a'', ''proxy000002b'', ''proxy000003c'']) = Ok (sh ! i)"
    "concat (rev sh) = map proxy_named [''proxy000001a'', ''proxy000002b'', ''proxy000003c'']"
    by blast
  then show ?thesis by (intro exI [of _ sh]) (force simp: proxy_named_def)
qed

text \<open>A node that is not in a list of two or more nodes reloads nothing.\<close>

lemma restart_unlisted_node:
  assumes "2 \<le> length nodes" and "list_all (\<lambda>c. 8 \<le> length (ct_ID c)) proxies"
    and "nodeID \<notin> set (map ct_ID nodes)"
  shows "proxyContainersToRestart nodeID nodes proxies = Ok []"
  using proxyContainersToRestart_work [OF assms(1,2)] gm_at_updates_other [OF assms(3)] by simp

lemma restart_subset:
  assumes "list_all (\<lambda>c. 8 \<le> length (ct_ID c)) proxies"
  obtains cs where "proxyContainersToRestart nodeID nodes proxies = Ok cs" and "set cs \<subseteq> set proxies"
proof (cases "2 \<le> length nodes")
  case True
  let ?sh = "shares (length proxies div length nodes) (butlast nodes) proxies"
  have "set (gm_at [] (AList.updates (map ct_ID nodes) ?sh []) nodeID) \<subseteq> set proxies"
    using gm_at_updates_cases [of "[]" "map ct_ID nodes" ?sh nodeID] set_shares by fastforce
  with proxyContainersToRestart_work [OF True assms] that show thesis by blast
next
  case False
  then have "length nodes = 0 \<or> length nodes = 1" by linarith
  then have "proxyContainersToRestart nodeID nodes proxies = Ok proxies"
    by (auto simp: proxyContainersToRestart_def)
  with that show thesis by blast
qed

text \<open>Nodes other than this one are those whose image name holds the word after its first letter.\<close>

lemma interlock_nodes_only_self:
  assumes "\<And>j cInfo. inspect j (ct_ID (cs ! (j - i))) = Inr cInfo \<Longrightarrow> i \<le> j \<Longrightarrow> j < i + length cs \<Longrightarrow>
      strings_Index (cc_Image (cj_Config cInfo)) ''interlock'' \<le> 0"
  shows "interlock_nodes nodeID inspect i cs
    = filter (\<lambda>c. ct_ID c = nodeID \<and> ct_State c = ''running'') cs"
  using assms
proof (induction cs arbitrary: i)
  case Nil
  then show ?case by simp
next
  case (Cons c cs)
  have tl: "interlock_nodes nodeID inspect (Suc i) cs
      = filter (\<lambda>c. ct_ID c = nodeID \<and> ct_State c = ''running'') cs"
  proof (rule Cons.IH)
    fix j cInfo
    assume j: "inspect j (ct_ID (cs ! (j - Suc i))) = Inr cInfo" "Suc i \<le> j" "j < Suc i + length cs"
    then have "(c # cs) ! (j - i) = cs ! (j - Suc i)" by (simp add: nth_Cons')
    with j Cons.prems [of j cInfo] show "strings_Index (cc_Image (cj_Config cInfo)) ''interlock'' \<le> 0"
      by simp
  qed
  have "strings_Index (cc_Image (cj_Config cInfo)) ''interlock'' \<le> 0"
    if "inspect i (ct_ID c) = Inr cInfo" for cInfo
    using Cons.prems [of i cInfo] that by simp
  then show ?case
    by (simp only: interlock_nodes.simps tl filter.simps) (auto simp: not_less split: sum.splits)
qed

lemma filter_distinct_le_1:
  "distinct (map f xs) \<Longrightarrow> length (filter (\<lambda>x. f x = k \<and> Q x) xs) \<le> 1"
proof (induction xs)
  case Nil
  then show ?case by simp
next
  case (Cons x xs)
  then show ?case by (auto simp: filter_empty_conv image_iff)
qed

text \<open>C33: the search for the other interlock nodes asks for the
  word \<open>interlock\<close> after the first letter of the image name. When the image of the nodes starts with
  it (\<open>interlock:1.4\<close>), no node sees the others, and each one reloads all the proxies.\<close>

theorem unprefixed_image_reloads_everything:
  assumes "distinct (map ct_ID containers)"
    and "\<And>j cInfo. j < length containers \<Longrightarrow> inspect j (ct_ID (containers ! j)) = Inr cInfo \<Longrightarrow>
      strings_Index (cc_Image (cj_Config cInfo)) ''interlock'' \<le> 0"
  shows "proxyContainersToRestart nodeID (interlock_nodes nodeID inspect 0 containers) proxies = Ok proxies"
proof -
  have "interlock_nodes nodeID inspect 0 containers
      = filter (\<lambda>c. ct_ID c = nodeID \<and> ct_State c = ''running'') containers"
    by (rule interlock_nodes_only_self) (use assms(2) in auto)
  then have "length (interlock_nodes nodeID inspect 0 containers) \<le> 1"
    using filter_distinct_le_1 [OF assms(1)] by simp
  then have "length (interlock_nodes nodeID inspect 0 containers) = 0
      \<or> length (interlock_nodes nodeID inspect 0 containers) = 1"
    by linarith
  then show ?thesis by (auto simp: proxyContainersToRestart_def)
qed

definition interlock_json :: "string \<Rightarrow> container_json" where
  "interlock_json img = \<lparr>cj_ID = [], cj_Name = ''/il'',
     cj_Config = \<lparr>cc_Hostname = [], cc_Domainname = [], cc_ExposedPorts = [], cc_Image = img,
       cc_Labels = [(InterlockAppLabel, [])]\<rparr>, cj_Ports = [], cj_Networks = []\<rparr>"

theorem unprefixed_image_reloads_everything_witness:
  "proxyContainersToRestart ''nodeA'' (interlock_nodes ''nodeA'' (\<lambda>_ _. Inr (interlock_json ''interlock:1.4'')) 0
      (map proxy_named [''nodeA'', ''nodeB''])) (map proxy_named [''p1'', ''p2'']) = Ok (map proxy_named [''p1'', ''p2''])
   \<and> map ct_ID (interlock_nodes ''nodeA'' (\<lambda>_ _. Inr (interlock_json ''ehazlett/interlock:1.4'')) 0
      (map proxy_named [''nodeA'', ''nodeB''])) = [''nodeA'', ''nodeB'']"
proof
  have "distinct (map ct_ID (map proxy_named [''nodeA'', ''nodeB'']))"
    and i: "strings_Index (cc_Image (cj_Config (interlock_json ''interlock:1.4''))) ''interlock'' \<le> 0"
    by code_simp+
  then show "proxyContainersToRestart ''nodeA''
      (interlock_nodes ''nodeA'' (\<lambda>_ _. Inr (interlock_json ''interlock:1.4'')) 0
        (map proxy_named [''nodeA'', ''nodeB''])) (map proxy_named [''p1'', ''p2''])
      = Ok (map proxy_named [''p1'', ''p2''])"
    by (intro unprefixed_image_reloads_everything) auto
  show "map ct_ID (interlock_nodes ''nodeA'' (\<lambda>_ _. Inr (interlock_json ''ehazlett/interlock:1.4'')) 0
      (map proxy_named [''nodeA'', ''nodeB''])) = [''nodeA'', ''nodeB'']"
    by code_simp
qed

section \<open>What an event does\<close>

definition forced_status :: "string \<Rightarrow> bool" where
  "forced_status status \<longleftrightarrow> status \<in> {''interlock-start'', ''interlock-restart'', ''destroy''}"

definition network_action :: "string \<Rightarrow> bool" where
  "network_action action \<longleftrightarrow> action \<in> {''connect'', ''disconnect''}"

lemma status_reload_result:
  "snd (status_reload v e) =
     Ok (forced_status (em_Status e) \<or>
         em_Status e \<in> {''start'', ''stop''} \<and> isExposedContainer (ev_Inspect v (em_ID e)))"
  by (simp add: status_reload_def forced_status_def Let_def)

lemma status_reload_effects:
  "fst (status_reload v e) = (if em_Status e = ''stop'' then [SleepMs 250] else [])"
  by (simp add: status_reload_def Let_def)

lemma isExposedContainer_iff:
  "isExposedContainer a \<longleftrightarrow>
    (\<exists>c. a = Inr c \<and> \<not> gm_has (cc_Labels (cj_Config c)) InterlockExtNameLabel
      \<and> \<not> gm_has (cc_Labels (cj_Config c)) InterlockAppLabel \<and> cc_ExposedPorts (cj_Config c) \<noteq> [])"
  by (cases a) (auto simp: isExposedContainer_def)

lemma HandleEvent_split:
  "lb_HandleEvent v e =
    (fst (status_reload v e) @ fst (action_reload v e (forced_status (em_Status e) \<or>
         em_Status e \<in> {''start'', ''stop''} \<and> isExposedContainer (ev_Inspect v (em_ID e)))),
     snd (action_reload v e (forced_status (em_Status e) \<or>
         em_Status e \<in> {''start'', ''stop''} \<and> isExposedContainer (ev_Inspect v (em_ID e)))))"
  by (simp add: lb_HandleEvent_def io_bind_def status_reload_result)

text \<open>C28: an event that is not a network connect or disconnect never fails, and
  asks for a reload exactly when it is an interlock start or restart or a destroyed container, or the
  start or stop of a container that can be inspected, is neither a proxy nor interlock itself, and
  exposes a port.\<close>

theorem container_event_reloads:
  assumes "\<not> network_action (em_Action e)"
  shows "snd (lb_HandleEvent v e) = Ok (forced_status (em_Status e) \<or> em_Status e \<in> {''start'', ''stop''} \<and>
    (\<exists>c. ev_Inspect v (em_ID e) = Inr c
      \<and> \<not> gm_has (cc_Labels (cj_Config c)) InterlockExtNameLabel
      \<and> \<not> gm_has (cc_Labels (cj_Config c)) InterlockAppLabel
      \<and> cc_ExposedPorts (cj_Config c) \<noteq> []))"
  unfolding isExposedContainer_iff [symmetric]
  using assms by (simp add: HandleEvent_split action_reload_def network_action_def)

definition fleet_event_env :: event_env where
  "fleet_event_env = \<lparr>ev_Inspect = (\<lambda>cid. if cid = ''web1web1web1'' then Inr web1 else Inl ''gone''),
     ev_Network = (\<lambda>i n. if i < 2 then Inr \<lparr>nr_Name = n, nr_Containers = []\<rparr>
       else Inr \<lparr>nr_Name = n, nr_Containers = [(''web1web1web1'', \<lparr>IPv4Address = ''10.1.0.8/24''\<rparr>)]\<rparr>),
     ev_Inspect_net = (\<lambda>_. Inr web1)\<rparr>"

definition start_event :: "string \<Rightarrow> string \<Rightarrow> event_message" where
  "start_event status cid = \<lparr>em_Status = status, em_ID = cid, em_Type = ''container'', em_Action = status,
     em_Attributes = []\<rparr>"

definition connect_event :: event_message where
  "connect_event = \<lparr>em_Status = [], em_ID = [], em_Type = ''network'', em_Action = ''connect'',
     em_Attributes = [(''container'', ''web1web1web1''), (''name'', ''blue'')]\<rparr>"

theorem container_event_reloads_witness:
  "snd (lb_HandleEvent fleet_event_env (start_event ''start'' ''web1web1web1'')) = Ok True"
proof -
  have "\<not> network_action (em_Action (start_event ''start'' ''web1web1web1''))" by code_simp
  from container_event_reloads [OF this, of fleet_event_env] show ?thesis
    by (simp add: start_event_def fleet_event_env_def web1_def fleet_labels_def gm_has_def label_names)
qed

lemma wait_connected_tries:
  assumes "\<And>j. j < k \<Longrightarrow> \<exists>nw. ans (i + j) = Inr nw \<and> \<not> gm_has (nr_Containers nw) cid"
    and "k \<le> n" and "k < n \<Longrightarrow> \<exists>nw. ans (i + k) = Inr nw \<and> gm_has (nr_Containers nw) cid"
  shows "wait_connected ans cid i n = (replicate k (SleepMs 500), Ok ())"
  using assms
proof (induction k arbitrary: i n)
  case 0
  then show ?case by (cases n) (auto simp: isContainerConnected_def io_return_def)
next
  case (Suc k)
  from Suc.prems(2) obtain m where m: "n = Suc m" by (cases n) auto
  obtain nw where nw: "ans i = Inr nw" "\<not> gm_has (nr_Containers nw) cid"
    using Suc.prems(1) [of 0] by auto
  have "wait_connected ans cid (Suc i) m = (replicate k (SleepMs 500), Ok ())"
    by (rule Suc.IH) (use Suc.prems(1) [of "Suc _"] Suc.prems(2,3) m in auto)
  with nw show ?case by (simp add: m isContainerConnected_def)
qed

text \<open>C29: for a network event the handler asks the engine up to five times, half a
  second apart, whether the container is on the network. It goes on as soon as the answer is yes and
  also after five times no (for a disconnect the expected answer), and then asks for a reload exactly
  when the container is exposed, whatever the status field said.\<close>

theorem network_event_waits:
  assumes "network_action (em_Action e)"
    and "gm_get (em_Attributes e) ''container'' = Some cid" and "gm_get (em_Attributes e) ''name'' = Some net"
    and "\<And>j. j < k \<Longrightarrow> \<exists>nw. ev_Network v j net = Inr nw \<and> \<not> gm_has (nr_Containers nw) cid"
    and "k \<le> 5" and "k < 5 \<Longrightarrow> \<exists>nw. ev_Network v k net = Inr nw \<and> gm_has (nr_Containers nw) cid"
  shows "lb_HandleEvent v e =
    ((if em_Status e = ''stop'' then [SleepMs 250] else []) @ replicate k (SleepMs 500),
     Ok (isExposedContainer (ev_Inspect_net v cid)))"
proof -
  have "wait_connected (\<lambda>i. ev_Network v i net) cid 0 5 = (replicate k (SleepMs 500), Ok ())"
    by (rule wait_connected_tries) (use assms(4-6) in simp_all)
  with assms(1-3) show ?thesis
    by (simp add: HandleEvent_split action_reload_def network_action_def status_reload_effects)
qed

theorem network_event_waits_witness:
  "lb_HandleEvent fleet_event_env connect_event = ([SleepMs 500, SleepMs 500], Ok True)"
proof -
  have a: "network_action (em_Action connect_event)"
    "gm_get (em_Attributes connect_event) ''container'' = Some ''web1web1web1''"
    "gm_get (em_Attributes connect_event) ''name'' = Some ''blue''"
    "isExposedContainer (ev_Inspect_net fleet_event_env ''web1web1web1'')"
    "em_Status connect_event \<noteq> ''stop''"
    by code_simp+
  have "lb_HandleEvent fleet_event_env connect_event =
    ((if em_Status connect_event = ''stop'' then [SleepMs 250] else []) @ replicate 2 (SleepMs 500),
     Ok (isExposedContainer (ev_Inspect_net fleet_event_env ''web1web1web1'')))"
    by (rule network_event_waits [OF a(1-3)]) (simp_all add: fleet_event_env_def gm_has_def)
  with a show ?thesis by (simp add: numeral_2_eq_2)
qed

lemma wait_connected_slept: "0 \<le> slept (fst (wait_connected ans cid i n)) \<and>
    slept (fst (wait_connected ans cid i n)) \<le> 500 * int n"
proof (induction n arbitrary: i)
  case 0
  then show ?case by simp
next
  case (Suc n)
  show ?case
  proof (cases "ans i")
    case (Inl e)
    then show ?thesis by (simp add: isContainerConnected_def)
  next
    case (Inr nw)
    then show ?thesis using Suc [of "Suc i"] by (simp add: isContainerConnected_def)
  qed
qed

lemma wait_connected_no_panic: "\<not> is_panic (snd (wait_connected ans cid i n))"
proof (induction n arbitrary: i)
  case 0
  then show ?case by simp
next
  case (Suc n)
  then show ?case by (cases "ans i") (simp_all add: isContainerConnected_def)
qed

text \<open>The handler never panics and never sleeps longer than 2.75 seconds,
  whatever the event and the engine's answers.\<close>

theorem event_handler_bounded:
  "slept (fst (lb_HandleEvent v e)) \<le> 2750 \<and> \<not> is_panic (snd (lb_HandleEvent v e))"
proof -
  have s: "slept (fst (status_reload v e)) \<le> 250" by (simp add: status_reload_effects)
  have a: "slept (fst (action_reload v e r)) \<le> 2500 \<and> \<not> is_panic (snd (action_reload v e r))" for r
    using wait_connected_slept [of "\<lambda>i. ev_Network v i n" c 0 5 for n c]
      wait_connected_no_panic [of "\<lambda>i. ev_Network v i n" c 0 5 for n c]
    by (auto simp: action_reload_def fst_io_bind snd_io_bind go_res split: option.splits res.splits)
  obtain r where "lb_HandleEvent v e =
      (fst (status_reload v e) @ fst (action_reload v e r), snd (action_reload v e r))"
    using HandleEvent_split by blast
  with s a [of r] show ?thesis by simp
qed

section \<open>The update handler over any backend\<close>

text \<open>
  What the update handler relies on of a backend: its configurations are of the type that goes with
  its name, so that the casts succeed, and a reload reaches exactly the containers it is given and
  reports no error.
\<close>

locale proxy_backend =
  fixes b :: LoadBalancerBackend
  assumes config_kind: "be_GenerateProxyConfig b cs = Ok cfg \<Longrightarrow>
      be_Name b = (if is_nginx_config cfg then ''nginx'' else ''haproxy'')"
    and reload_not_Err: "snd (be_Reload b cs) \<noteq> Err e"
    and reload_loggable: "list_all loggable cs \<Longrightarrow>
      snd (be_Reload b cs) = Ok () \<and> signalled (fst (be_Reload b cs)) = map ct_ID cs"
begin

lemma render_config_generated:
  assumes "be_GenerateProxyConfig b cs = Ok cfg"
  shows "render_config te b cfg =
    (case te_Parse te (be_Template b) of
       Some err \<Rightarrow> Err err | None \<Rightarrow> of_answer (te_Execute te (be_Template b) cfg))"
  using config_kind [OF assms] by (simp add: render_config_def split: option.split)

lemma proxy_networks_generated:
  assumes "be_GenerateProxyConfig b cs = Ok cfg"
  obtains nets where "proxy_networks (be_Name b) cfg = Ok nets"
  using config_kind [OF assms]
  by (cases cfg) (simp_all add: proxy_networks_def is_nginx_config_def)

end

interpretation hp_be: proxy_backend "hp_backend v p" for v p
proof unfold_locales
  fix cs cfg e
  show "be_GenerateProxyConfig (hp_backend v p) cs = Ok cfg \<Longrightarrow>
      be_Name (hp_backend v p) = (if is_nginx_config cfg then ''nginx'' else ''haproxy'')"
    by (auto simp: hp_backend_def hp_Name_def hp_pluginName_def go_res is_nginx_config_def)
  show "snd (be_Reload (hp_backend v p) cs) \<noteq> Err e"
    by (simp add: hp_backend_def hp_Reload_not_Err)
  show "list_all loggable cs \<Longrightarrow> snd (be_Reload (hp_backend v p) cs) = Ok ()
      \<and> signalled (fst (be_Reload (hp_backend v p) cs)) = map ct_ID cs"
    by (simp add: hp_backend_def hp_Reload_loggable dropSYN_signalled resumeSYN_signalled)
qed

interpretation ng_be: proxy_backend "ng_backend v p" for v p
proof unfold_locales
  fix cs cfg e
  show "be_GenerateProxyConfig (ng_backend v p) cs = Ok cfg \<Longrightarrow>
      be_Name (ng_backend v p) = (if is_nginx_config cfg then ''nginx'' else ''haproxy'')"
    by (auto simp: ng_backend_def ng_Name_def ng_pluginName_def go_res is_nginx_config_def)
  show "snd (be_Reload (ng_backend v p) cs) \<noteq> Err e"
    by (simp add: ng_backend_def ng_Reload_not_Err)
  show "list_all loggable cs \<Longrightarrow> snd (be_Reload (ng_backend v p) cs) = Ok ()
      \<and> signalled (fst (be_Reload (ng_backend v p) cs)) = map ct_ID cs"
    by (simp add: ng_backend_def ng_Reload_loggable)
qed

text \<open>Every load balancer that is constructed has one of the two backends.\<close>

lemma NewLoadBalancer_backend:
  assumes "NewLoadBalancer isNotExist containerID v c = Ok l"
  shows "proxy_backend (lb_backend l)"
  using assms hp_be.proxy_backend_axioms ng_be.proxy_backend_axioms
  by (auto simp: NewLoadBalancer_def select_backend_def Let_def go_res NewHAProxyLoadBalancer_def
      NewNginxLoadBalancer_def split: if_splits)

lemma copy_each_effects:
  "copy_each dir fName data ans i cs = (map (\<lambda>c. CopyToContainer (ct_ID c) dir fName data) cs, Ok ())"
proof (induction cs arbitrary: i)
  case Nil
  then show ?case by (simp add: io_return_def)
next
  case (Cons c cs)
  then show ?case by (cases "ans i (ct_ID c)") simp_all
qed

lemma SaveConfig_rendered:
  "render_config te (lb_backend l) cfg = Ok data \<Longrightarrow> SaveConfig te ans l cfg cs =
    (map (\<lambda>c. CopyToContainer (ct_ID c) (path_Dir (be_ConfigPath (lb_backend l)))
       (path_Base (be_ConfigPath (lb_backend l))) data) cs, Ok ())"
  by (simp add: SaveConfig_def copy_each_effects)

lemma SaveConfig_not_rendered:
  "render_config te (lb_backend l) cfg = Err e \<Longrightarrow> SaveConfig te ans l cfg cs = ([], Err e)"
  by (simp add: SaveConfig_def)

lemma signalled_copies [simp]:
  "signalled (map (\<lambda>c. CopyToContainer (ct_ID c) dir fName data) cs) = []"
  by (induction cs) simp_all

lemma signalled_connects [simp]: "signalled (connect_each ord i nets cs) = []"
proof -
  have "signalled (map (\<lambda>(net, _). NetworkConnect net cid) xs) = []" for xs :: "(string \<times> string) list" and cid
    by (induction xs) auto
  then show ?thesis by (induction cs arbitrary: i) (simp_all add: connect_one_def)
qed

lemma in_gm_keys: "k \<in> gm_keys m \<longleftrightarrow> (\<exists>v. (k, v) \<in> set m)"
  by (force simp: gm_keys_def)

lemma set_connect_each:
  "set (connect_each ord i nets cs) =
     {NetworkConnect net (ct_ID c) |net c. c \<in> set cs \<and> net \<in> gm_keys nets \<and> \<not> gm_has (ct_Networks c) net}"
proof (induction cs arbitrary: i)
  case Nil
  then show ?case by simp
next
  case (Cons c cs)
  have "set (connect_one (ord i) nets c) =
      {NetworkConnect net (ct_ID c) |net. net \<in> gm_keys nets \<and> \<not> gm_has (ct_Networks c) net}"
    by (auto simp: connect_one_def in_gm_keys image_iff)
  with Cons show ?case by auto
qed

lemma loggable_ids: "list_all loggable cs \<Longrightarrow> list_all (\<lambda>c. 8 \<le> length (ct_ID c)) cs"
  by (auto simp: list_all_iff loggable_def)

lemma proxyContainersToRestart_not_Err: "proxyContainersToRestart nodeID nodes proxies \<noteq> Err e"
proof -
  have "split_work sub nds ps work \<noteq> Err e" for sub nds ps work
    by (induction nds arbitrary: ps work) simp_all
  moreover have "log_ids cs \<noteq> Err e" for cs
    by (induction cs) (simp_all add: go_slice_to_def)
  ultimately show ?thesis
    by (auto simp: proxyContainersToRestart_def Let_def elim!: res_bind_ErrE)
qed

abbreviation lb_proxies :: "LoadBalancer \<Rightarrow> container list \<Rightarrow> container list" where
  "lb_proxies l \<equiv> filter (\<lambda>cnt. gm_get (ct_Labels cnt) InterlockExtNameLabel = Some (be_Name (lb_backend l)))"

abbreviation lb_copies :: "LoadBalancer \<Rightarrow> string \<Rightarrow> container list \<Rightarrow> effect list" where
  "lb_copies l data \<equiv> map (\<lambda>c. CopyToContainer (ct_ID c) (path_Dir (be_ConfigPath (lb_backend l)))
     (path_Base (be_ConfigPath (lb_backend l))) data)"

abbreviation lb_nodes :: "update_env \<Rightarrow> LoadBalancer \<Rightarrow> container list \<Rightarrow> container list" where
  "lb_nodes u l \<equiv> interlock_nodes (lb_nodeID l) (ue_Inspect u) 0"

context proxy_backend
begin

text \<open>An update that reports an error has done nothing.\<close>

lemma update_Err_no_effect:
  assumes "lb_backend l = b" and "snd (lb_update te u l) = Err e"
  shows "fst (lb_update te u l) = []"
proof -
  consider (list) e where "ue_ContainerList u = Inl e"
    | (gen) cs where "ue_ContainerList u = Inr cs" "\<nexists>cfg. be_GenerateProxyConfig b cs = Ok cfg"
    | (proxies) cs cfg e where "ue_ContainerList u = Inr cs" "be_GenerateProxyConfig b cs = Ok cfg"
        "ue_ProxyList u = Inl e"
    | (all) cs cfg ps where "ue_ContainerList u = Inr cs" "be_GenerateProxyConfig b cs = Ok cfg"
        "ue_ProxyList u = Inr ps"
    by (cases "ue_ContainerList u"; cases "ue_ProxyList u") blast+
  then show ?thesis
  proof cases
    case list
    then show ?thesis by (simp add: lb_update_def)
  next
    case gen
    then show ?thesis using assms(1)
      by (cases "be_GenerateProxyConfig b cs") (simp_all add: lb_update_def)
  next
    case proxies
    then show ?thesis using assms(1) by (simp add: lb_update_def ProxyContainers_def)
  next
    case all
    obtain nets where nets: "proxy_networks (be_Name b) cfg = Ok nets"
      by (rule proxy_networks_generated [OF all(2)])
    show ?thesis
    proof (cases "render_config te b cfg")
      case (Ok data)
      with all assms nets have "\<exists>r. proxyContainersToRestart (lb_nodeID l) (lb_nodes u l cs) (lb_proxies l ps) = r
          \<and> (r = Err e \<or> (\<exists>cs'. r = res.Ok cs' \<and> snd (be_Reload b cs') = Err e))"
        by (auto simp: lb_update_def ProxyContainers_def SaveConfig_rendered snd_io_bind elim!: res_bind_ErrE)
      then show ?thesis using proxyContainersToRestart_not_Err reload_not_Err by metis
    qed (use all assms in \<open>simp_all add: lb_update_def ProxyContainers_def SaveConfig_def\<close>)
  qed
qed

text \<open>An update all of whose preparations succeed.\<close>

lemma update_effects:
  assumes "lb_backend l = b" and "ue_ContainerList u = Inr cs" and "be_GenerateProxyConfig b cs = Ok cfg"
    and "ue_ProxyList u = Inr ps" and "render_config te b cfg = Ok data" and "list_all loggable (lb_proxies l ps)"
  obtains nets restart rs where
    "proxy_networks (be_Name b) cfg = Ok nets"
    "proxyContainersToRestart (lb_nodeID l) (lb_nodes u l cs) (lb_proxies l ps) = Ok restart"
    "set restart \<subseteq> set (lb_proxies l ps)"
    "signalled rs = map ct_ID restart"
    "lb_update te u l = (lb_copies l data (lb_proxies l ps)
        @ connect_each (ue_ord u) 0 nets (lb_proxies l ps) @ SleepMs 1000 # rs, Ok ())"
proof -
  obtain nets where nets: "proxy_networks (be_Name b) cfg = Ok nets"
    by (rule proxy_networks_generated [OF assms(3)])
  obtain restart where r: "proxyContainersToRestart (lb_nodeID l) (lb_nodes u l cs) (lb_proxies l ps) = Ok restart"
    and sub: "set restart \<subseteq> set (lb_proxies l ps)"
    by (rule restart_subset [OF loggable_ids [OF assms(6)]])
  from sub assms(6) have "list_all loggable restart" by (auto simp: list_all_iff)
  from reload_loggable [OF this] obtain rs
    where rs: "be_Reload b restart = (rs, Ok ())" "signalled rs = map ct_ID restart"
    by (metis prod.collapse)
  show thesis
    by (rule that [OF nets r sub rs(2)])
      (use assms nets r rs(1) in \<open>simp add: lb_update_def ProxyContainers_def SaveConfig_rendered\<close>)
qed

end

text \<open>C6: an update that ends in an error has not copied a configuration,
  connected a network, restarted a proxy or slept: the proxies keep running as they were.\<close>

theorem update_error_changes_nothing:
  assumes "NewLoadBalancer isNotExist containerID v c = Ok l"
    and "snd (lb_update te u l) = Err e"
  shows "fst (lb_update te u l) = []"
  by (rule proxy_backend.update_Err_no_effect [OF NewLoadBalancer_backend [OF assms(1)] refl assms(2)])

text \<open>A load balancer over the sample fleet.\<close>

definition fleet_backend_env :: backend_env where
  "fleet_backend_env = \<lparr>bv_envs = (\<lambda>_. fleet_env), bv_ord = (\<lambda>_. 0), bv_ReadFile = (\<lambda>_. Inl ''no such file''),
     bv_drop = working_shell, bv_resume = working_shell, bv_signal = (\<lambda>_ _. None),
     bv_haproxyConfTemplate = ''haproxy'', bv_nginxConfTemplate = ''nginx'', bv_nginxPlusConfTemplate = ''plus''\<rparr>"

definition fleet_lb :: LoadBalancer where
  "fleet_lb = \<lparr>lb_nodeID = ''nodeA'',
     lb_cfg = (fleet_ext_config ''nginx'')\<lparr>ConfigBasePath := path_Dir (ConfigPath (fleet_ext_config ''nginx''))\<rparr>,
     lb_cache = \<lparr>tc_data = [], tc_ttl = ReloadThreshold\<rparr>,
     lb_backend = ng_backend fleet_backend_env \<lparr>ng_cfg = (fleet_ext_config ''nginx'')
       \<lparr>ConfigBasePath := path_Dir (ConfigPath (fleet_ext_config ''nginx''))\<rparr>\<rparr>\<rparr>"

lemma fleet_lb_new:
  "NewLoadBalancer (\<lambda>_. False) (Ok ''nodeA'') fleet_backend_env (fleet_ext_config ''nginx'') = Ok fleet_lb"
proof -
  have "Name (fleet_ext_config ''nginx'') = ''nginx''" by (simp add: fleet_ext_config_def)
  then show ?thesis
    by (simp add: NewLoadBalancer_def ttl_New_def ReloadThreshold_def select_backend_def
        NewNginxLoadBalancer_def fleet_lb_def Let_def)
qed

definition fleet_engine :: template_engine where
  "fleet_engine = \<lparr>te_Parse = (\<lambda>_. None), te_Execute = (\<lambda>_ _. Inr ''events {}'')\<rparr>"

definition fleet_update :: update_env where
  "fleet_update = \<lparr>ue_ContainerList = Inr fleet, ue_ProxyList = Inr [proxy_named ''proxy000001a''],
     ue_Copy = (\<lambda>_ _. Some ''timeout''), ue_ord = (\<lambda>_ _. 0), ue_Inspect = (\<lambda>_ _. Inl ''gone'')\<rparr>"

theorem update_error_changes_nothing_witness:
  "snd (lb_update fleet_engine (fleet_update\<lparr>ue_ProxyList := Inl ''down''\<rparr>) fleet_lb) = Err ''down''
   \<and> fst (lb_update fleet_engine (fleet_update\<lparr>ue_ProxyList := Inl ''down''\<rparr>) fleet_lb) = []"
proof -
  have "snd (lb_update fleet_engine (fleet_update\<lparr>ue_ProxyList := Inl ''down''\<rparr>) fleet_lb) = Err ''down''"
    by code_simp
  with update_error_changes_nothing [OF fleet_lb_new this] show ?thesis by blast
qed

text \<open>C5: an update whose listing, generation and rendering succeed copies the
  rendered configuration to every proxy of the backend, then connects every proxy to every network of
  the configuration it is not on, then sleeps a second, and only then reloads the proxies chosen for
  this node, each once and in order. It reports no error, whatever the engine answers to the copies and
  the connects.\<close>

theorem update_copies_then_reloads:
  assumes "NewLoadBalancer isNotExist containerID v c = Ok l"
    and "ue_ContainerList u = Inr cs" and "be_GenerateProxyConfig (lb_backend l) cs = Ok cfg"
    and "ue_ProxyList u = Inr ps" and "render_config te (lb_backend l) cfg = Ok data"
    and "list_all loggable (lb_proxies l ps)"
  shows "\<exists>nets conns restart rs.
      lb_update te u l = (lb_copies l data (lb_proxies l ps) @ conns @ SleepMs 1000 # rs, Ok ())
    \<and> proxy_networks (be_Name (lb_backend l)) cfg = Ok nets
    \<and> set conns = {NetworkConnect net (ct_ID p) |net p.
          p \<in> set (lb_proxies l ps) \<and> net \<in> gm_keys nets \<and> \<not> gm_has (ct_Networks p) net}
    \<and> proxyContainersToRestart (lb_nodeID l) (lb_nodes u l cs) (lb_proxies l ps) = Ok restart
    \<and> signalled rs = map ct_ID restart \<and> set restart \<subseteq> set (lb_proxies l ps)"
proof -
  from proxy_backend.update_effects [OF NewLoadBalancer_backend [OF assms(1)] refl assms(2-6)]
  obtain nets restart rs where
    "proxy_networks (be_Name (lb_backend l)) cfg = Ok nets"
    "proxyContainersToRestart (lb_nodeID l) (lb_nodes u l cs) (lb_proxies l ps) = Ok restart"
    "set restart \<subseteq> set (lb_proxies l ps)" "signalled rs = map ct_ID restart"
    "lb_update te u l = (lb_copies l data (lb_proxies l ps)
        @ connect_each (ue_ord u) 0 nets (lb_proxies l ps) @ SleepMs 1000 # rs, Ok ())"
    by blast
  then show ?thesis
    by (intro exI [of _ nets] exI [of _ "connect_each (ue_ord u) 0 nets (lb_proxies l ps)"]
        exI [of _ restart] exI [of _ rs]) (simp add: set_connect_each)
qed

theorem update_copies_then_reloads_witness:
  "\<exists>conns (restart :: container list) rs. lb_update fleet_engine fleet_update fleet_lb =
      (lb_copies fleet_lb ''events {}'' [proxy_named ''proxy000001a''] @ conns @ SleepMs 1000 # rs, Ok ())
    \<and> signalled rs = map ct_ID restart"
proof -
  have "is_ok (be_GenerateProxyConfig (lb_backend fleet_lb) fleet)" by code_simp
  then obtain cfg where g: "be_GenerateProxyConfig (lb_backend fleet_lb) fleet = Ok cfg" by (rule is_okE)
  have r: "render_config fleet_engine (lb_backend fleet_lb) cfg = Ok ''events {}''"
    using proxy_backend.render_config_generated [OF NewLoadBalancer_backend [OF fleet_lb_new] g]
    by (simp add: fleet_engine_def)
  have p: "lb_proxies fleet_lb [proxy_named ''proxy000001a''] = [proxy_named ''proxy000001a'']"
    by (simp add: proxy_named_def fleet_lb_def ng_backend_def ng_Name_def ng_pluginName_def)
  have lg: "list_all loggable (lb_proxies fleet_lb [proxy_named ''proxy000001a''])"
    unfolding p by code_simp
  have "ue_ContainerList fleet_update = Inr fleet"
    and "ue_ProxyList fleet_update = Inr [proxy_named ''proxy000001a'']"
    by (simp_all add: fleet_update_def)
  from update_copies_then_reloads [OF fleet_lb_new this(1) g this(2) r lg]
  obtain conns rs and restart :: "container list" where "lb_update fleet_engine fleet_update fleet_lb =
      (lb_copies fleet_lb ''events {}'' [proxy_named ''proxy000001a''] @ conns @ SleepMs 1000 # rs, Ok ())"
    and "signalled rs = map ct_ID restart"
    unfolding p by (elim exE conjE) (rule that, assumption+)
  then show ?thesis by (intro exI conjI)
qed

section \<open>Which configurations are accepted\<close>

lemma NewLoadBalancer_ok_iff:
  "is_ok (NewLoadBalancer isNotExist containerID v c) \<longleftrightarrow>
    \<not> (TemplatePath c \<noteq> [] \<and> isNotExist (TemplatePath c)) \<and> is_ok containerID
    \<and> Name c \<in> {''haproxy'', ''nginx''}"
  by (cases containerID) (auto simp: NewLoadBalancer_def ttl_New_def ReloadThreshold_def
      select_backend_def NewHAProxyLoadBalancer_def NewNginxLoadBalancer_def Let_def)

section \<open>The clean-up of networks\<close>

lemma disconnect_tries_set:
  "NetworkDisconnect net' cid' \<in> set (disconnect_tries ans net cid i n) \<longleftrightarrow> 0 < n \<and> net' = net \<and> cid' = cid"
proof (induction n arbitrary: i)
  case 0
  then show ?case by simp
next
  case (Suc n)
  then show ?case by (cases "ans i") auto
qed

lemma disconnect_tries_length: "length (disconnect_tries ans net cid i n) \<le> 2 * n"
proof (induction n arbitrary: i)
  case 0
  then show ?case by simp
next
  case (Suc n)
  then show ?case by (cases "ans i") auto
qed

lemma cleanup_one_set:
  "NetworkDisconnect net cid \<in> set (cleanup_one ord inspect ans c) \<longleftrightarrow>
    cid = pn_ContainerID c \<and> net \<noteq> ''bridge'' \<and> \<not> gm_has (pn_ProxyNetworks c) net
    \<and> (\<exists>cnt. inspect cid = Inr cnt \<and> net \<in> gm_keys (cj_Networks cnt))"
proof (cases "inspect (pn_ContainerID c)")
  case (Inl e)
  then show ?thesis by (auto simp: cleanup_one_def)
next
  case (Inr cnt)
  then show ?thesis
    by (auto simp: cleanup_one_def in_gm_keys disconnect_tries_set split: if_splits)
qed

text \<open>The clean-up tries to disconnect a proxy from a network exactly when
  the proxy can be inspected and is on that network, the network is not the bridge, and the
  configuration does not use it.\<close>

theorem cleanup_disconnects_unused:
  "NetworkDisconnect net cid \<in> set (cleanup_networks ord inspect ans i nc) \<longleftrightarrow>
    (\<exists>j. j < length nc \<and> cid = pn_ContainerID (nc ! j) \<and> net \<noteq> ''bridge''
      \<and> \<not> gm_has (pn_ProxyNetworks (nc ! j)) net
      \<and> (\<exists>cnt. inspect (i + j) cid = Inr cnt \<and> net \<in> gm_keys (cj_Networks cnt)))"
proof (induction nc arbitrary: i)
  case Nil
  then show ?case by simp
next
  case (Cons c nc)
  have split: "(\<exists>j. j < length (c # nc) \<and> P j) \<longleftrightarrow> P 0 \<or> (\<exists>j. j < length nc \<and> P (Suc j))" for P
    by (auto simp: less_Suc_eq_0_disj)
  show ?case
    unfolding split by (simp add: cleanup_one_set Cons.IH)
qed

end
