(* ===== verification/Reload_Machine.thy ===== *)
theory Reload_Machine
  imports Load_Balancer
begin

text \<open>
  When an update runs (\<open>ext/lb/lb.go\<close>). Three goroutines share the cache and a channel without a
  buffer: the event handler sets the key \<open>reload\<close>; the cache's reaper deletes the key once it is as
  old as the threshold and then blocks until it can send on \<open>lbUpdateChan\<close>; the update handler
  receives, skips the update when the key is back in the cache, and else lists the containers and goes
  through the rest of the update. Each step of the machine is one of these actions, or the passing of
  time; any interleaving is allowed.

  Two components of the state are bookkeeping: \<open>rl_dirty\<close>, whether a reload was requested since the
  containers were last listed, and \<open>rl_requested\<close>, the time of the last request.
\<close>

datatype rl_handler = Waiting | Checking | Updating

datatype rl_label = Tick nat | Request | Reap | Deliver | Skip | Start | Finish

record rl_state =
  rl_now :: int
  rl_cache :: ttl_cache
  rl_sending :: bool
  rl_handler :: rl_handler
  rl_dirty :: bool
  rl_requested :: int

definition rl_init :: rl_state where
  "rl_init = \<lparr>rl_now = 0, rl_cache = \<lparr>tc_data = [], tc_ttl = ReloadThreshold\<rparr>, rl_sending = False,
     rl_handler = Waiting, rl_dirty = False, rl_requested = - ReloadThreshold\<rparr>"

definition rl_pending :: "rl_state \<Rightarrow> bool" where
  "rl_pending s = ttl_Get (rl_cache s) ''reload''"

text \<open>The step as a partial function: \<open>None\<close> where the action is not possible.\<close>

fun rl_do :: "rl_label \<Rightarrow> rl_state \<Rightarrow> rl_state option" where
  "rl_do (Tick d) s = Some (s\<lparr>rl_now := rl_now s + int d\<rparr>)"
| "rl_do Request s = Some (s\<lparr>rl_cache := ttl_Set ''reload'' (rl_now s) (rl_cache s),
     rl_dirty := True, rl_requested := rl_now s\<rparr>)"
| "rl_do Reap s =
     (if \<not> rl_sending s \<and> ''reload'' \<in> set (ttl_reaped (rl_now s) (rl_cache s))
      then Some (s\<lparr>rl_cache := ttl_reap (rl_now s) (rl_cache s), rl_sending := True\<rparr>) else None)"
| "rl_do Deliver s =
     (if rl_sending s \<and> rl_handler s = Waiting
      then Some (s\<lparr>rl_sending := False, rl_handler := Checking\<rparr>) else None)"
| "rl_do Skip s =
     (if rl_handler s = Checking \<and> rl_pending s then Some (s\<lparr>rl_handler := Waiting\<rparr>) else None)"
| "rl_do Start s =
     (if rl_handler s = Checking \<and> \<not> rl_pending s
      then Some (s\<lparr>rl_handler := Updating, rl_dirty := False\<rparr>) else None)"
| "rl_do Finish s =
     (if rl_handler s = Updating then Some (s\<lparr>rl_handler := Waiting\<rparr>) else None)"

inductive rl_run :: "rl_label list \<Rightarrow> rl_state \<Rightarrow> bool" where
  rl_start: "rl_run [] rl_init"
| rl_step: "rl_run ls s \<Longrightarrow> rl_do l s = Some s' \<Longrightarrow> rl_run (ls @ [l]) s'"

inductive_cases rl_run_snocE: "rl_run (ls @ [l]) s"

section \<open>Invariants\<close>

definition rl_inv :: "rl_state \<Rightarrow> bool" where
  "rl_inv s \<longleftrightarrow> ttl_ok (rl_cache s) \<and> tc_ttl (rl_cache s) = ReloadThreshold
    \<and> (rl_dirty s \<longrightarrow> rl_pending s \<or> rl_sending s \<or> rl_handler s = Checking)
    \<and> (\<forall>t. ttl_updated (rl_cache s) ''reload'' = Some t \<longrightarrow> t = rl_requested s)
    \<and> (\<not> rl_pending s \<longrightarrow> rl_now s - rl_requested s \<ge> ReloadThreshold)
    \<and> rl_requested s \<le> rl_now s"

lemma rl_pending_updated: "rl_pending s \<longleftrightarrow> ttl_updated (rl_cache s) ''reload'' \<noteq> None"
  by (simp add: rl_pending_def ttl_Get_updated)

lemma rl_inv_init: "rl_inv rl_init"
  by (simp add: rl_inv_def rl_init_def ttl_ok_def ttl_updated_def rl_pending_updated ReloadThreshold_def)

lemma rl_inv_step:
  assumes "rl_inv s" and "rl_do l s = Some s'"
  shows "rl_inv s'"
proof (cases l)
  case (Tick d)
  with assms show ?thesis by (auto simp: rl_inv_def rl_pending_updated)
next
  case Request
  with assms show ?thesis
    by (auto simp: rl_inv_def rl_pending_updated tc.updated_put tc.ok_put tc.period_put)
next
  case Reap
  with assms have "''reload'' \<in> set (ttl_reaped (rl_now s) (rl_cache s))" and ok: "ttl_ok (rl_cache s)"
    by (auto simp: rl_inv_def split: if_splits)
  then obtain t where "ttl_updated (rl_cache s) ''reload'' = Some t"
    and "rl_now s - t \<ge> tc_ttl (rl_cache s)"
    and "ttl_updated (ttl_reap (rl_now s) (rl_cache s)) ''reload'' = None"
    using tc.reaped_gone [OF ok] by (auto simp: tc.reaped_iff)
  with Reap assms show ?thesis
    by (auto simp: rl_inv_def rl_pending_updated tc.ok_reap tc.period_reap split: if_splits)
qed (use assms in \<open>auto simp: rl_inv_def rl_pending_updated split: if_splits\<close>)

lemma rl_run_inv: "rl_run ls s \<Longrightarrow> rl_inv s"
  by (induction rule: rl_run.induct) (auto intro: rl_inv_init rl_inv_step)

section \<open>Paths\<close>

text \<open>Several steps from a state, for evaluation.\<close>

fun rl_path :: "rl_label list \<Rightarrow> rl_state \<Rightarrow> rl_state option" where
  "rl_path [] s = Some s"
| "rl_path (l # ls) s = (case rl_do l s of None \<Rightarrow> None | Some s' \<Rightarrow> rl_path ls s')"

lemma rl_path_run: "rl_path ls' s = Some s' \<Longrightarrow> rl_run ls s \<Longrightarrow> rl_run (ls @ ls') s'"
proof (induction ls' arbitrary: ls s)
  case Nil
  then show ?case by simp
next
  case (Cons l ls')
  then obtain t where t: "rl_do l s = Some t" "rl_path ls' t = Some s'" by (auto split: option.splits)
  from rl_step [OF Cons.prems(2) t(1)] Cons.IH [OF t(2)] show ?case by fastforce
qed

lemma rl_path_init: "rl_path ls rl_init = Some s \<Longrightarrow> rl_run ls s"
  using rl_path_run [OF _ rl_start] by simp

lemma rl_path_append:
  "rl_path ls s = Some t \<Longrightarrow> rl_path ls' t = Some u \<Longrightarrow> rl_path (ls @ ls') s = Some u"
  by (induction ls arbitrary: s) (auto split: option.splits)

section \<open>Properties\<close>

text \<open>C8: in every interleaving, a reload that was requested since the containers were
  last listed is still on its way: its key is in the cache, or the reaper is sending, or the update
  handler is about to look at the cache.\<close>

theorem reload_never_lost:
  assumes "rl_run ls s" and "rl_dirty s"
  shows "rl_pending s \<or> rl_sending s \<or> rl_handler s = Checking"
  using rl_run_inv [OF assms(1)] assms(2) by (auto simp: rl_inv_def)

definition busy_trace :: "rl_label list" where
  "busy_trace = [Request, Tick 2000, Reap, Request, Deliver, Skip, Tick 2500, Reap, Request]"

theorem reload_never_lost_witness:
  "\<exists>s. rl_run busy_trace s \<and> rl_dirty s \<and> (rl_pending s \<or> rl_sending s \<or> rl_handler s = Checking)"
proof -
  have "case rl_path busy_trace rl_init of None \<Rightarrow> False | Some s \<Rightarrow> rl_dirty s" by code_simp
  then obtain s where s: "rl_path busy_trace rl_init = Some s" "rl_dirty s" by (auto split: option.splits)
  from rl_path_init [OF s(1)] s(2) reload_never_lost show ?thesis by blast
qed

text \<open>An update starts only when the last request is at least the reload
  threshold of two seconds ago.\<close>

theorem reload_after_quiet_period:
  assumes "rl_run ls s" and "rl_do Start s = Some s'"
  shows "rl_now s - rl_requested s \<ge> ReloadThreshold"
  using rl_run_inv [OF assms(1)] assms(2) by (auto simp: rl_inv_def split: if_splits)

theorem reload_after_quiet_period_witness:
  "\<exists>s s'. rl_run [Request, Tick 2500, Reap, Deliver] s \<and> rl_do Start s = Some s'
    \<and> rl_now s - rl_requested s \<ge> ReloadThreshold"
proof -
  have "case rl_path [Request, Tick 2500, Reap, Deliver] rl_init of None \<Rightarrow> False
      | Some s \<Rightarrow> rl_handler s = Checking \<and> \<not> rl_pending s" by code_simp
  then obtain s where s: "rl_path [Request, Tick 2500, Reap, Deliver] rl_init = Some s"
    and "rl_handler s = Checking \<and> \<not> rl_pending s" by (auto split: option.splits)
  then obtain s' where s': "rl_do Start s = Some s'" by simp
  from rl_path_init [OF s] s' reload_after_quiet_period [OF rl_path_init [OF s] s'] show ?thesis by blast
qed

text \<open>Each update uses up a request.\<close>

definition rl_tokens :: "rl_state \<Rightarrow> nat" where
  "rl_tokens s = of_bool (rl_pending s) + of_bool (rl_sending s) + of_bool (rl_handler s = Checking)"

lemma rl_tokens_step:
  assumes "rl_inv s" and "rl_do l s = Some s'"
  shows "rl_tokens s' + of_bool (l = Start) \<le> rl_tokens s + of_bool (l = Request)"
proof (cases l)
  case Request
  with assms show ?thesis
    by (auto simp: rl_tokens_def rl_pending_updated tc.updated_put rl_inv_def)
next
  case Reap
  with assms have r: "''reload'' \<in> set (ttl_reaped (rl_now s) (rl_cache s))" and ok: "ttl_ok (rl_cache s)"
    by (auto simp: rl_inv_def split: if_splits)
  with Reap assms tc.reaped_gone [OF ok r] show ?thesis
    by (auto simp: rl_tokens_def rl_pending_updated tc.reaped_iff split: if_splits)
qed (use assms in \<open>auto simp: rl_tokens_def rl_pending_updated split: if_splits\<close>)

lemma rl_tokens_run: "rl_run ls s \<Longrightarrow> count_list ls Start + rl_tokens s \<le> count_list ls Request"
proof (induction rule: rl_run.induct)
  case rl_start
  then show ?case by (simp add: rl_tokens_def rl_init_def rl_pending_def ttl_Get_def)
next
  case (rl_step ls s l s')
  from rl_tokens_step [OF rl_run_inv [OF rl_step(1)] rl_step(2)] rl_step(3) show ?case
    by (auto simp: of_bool_def split: if_splits)
qed

text \<open>There are never more updates than requests, in any interleaving.\<close>

theorem reloads_coalesced:
  assumes "rl_run ls s"
  shows "count_list ls Start \<le> count_list ls Request"
  using rl_tokens_run [OF assms] by simp

theorem reloads_coalesced_witness:
  "\<exists>s. rl_run [Request, Tick 10, Request, Tick 2500, Reap, Deliver, Start, Finish] s
    \<and> count_list [Request, Tick 10, Request, Tick 2500, Reap, Deliver, Start, Finish] Start
        \<le> count_list [Request, Tick 10, Request, Tick 2500, Reap, Deliver, Start, Finish] Request"
proof -
  have "rl_path [Request, Tick 10, Request, Tick 2500, Reap, Deliver, Start, Finish] rl_init \<noteq> None"
    by code_simp
  then obtain s where "rl_path [Request, Tick 10, Request, Tick 2500, Reap, Deliver, Start, Finish] rl_init = Some s"
    by blast
  from reloads_coalesced [OF rl_path_init [OF this]] rl_path_init [OF this] show ?thesis by blast
qed

section \<open>Progress\<close>

fun ticks :: "rl_label list \<Rightarrow> nat" where
  "ticks [] = 0"
| "ticks (Tick d # ls) = d + ticks ls"
| "ticks (l # ls) = ticks ls"

lemma ticks_append [simp]: "ticks (ls @ ls') = ticks ls + ticks ls'"
  by (induction ls rule: ticks.induct) simp_all

text \<open>A path without requests, with at most one quiet period of waiting, to a listing.\<close>

definition rl_served_from :: "rl_state \<Rightarrow> bool" where
  "rl_served_from s \<longleftrightarrow> (\<exists>ls s'. Request \<notin> set ls \<and> Start \<in> set ls \<and> ticks ls \<le> nat ReloadThreshold
     \<and> rl_path ls s = Some s' \<and> \<not> rl_dirty s')"

lemma rl_served_step:
  assumes "rl_do l s = Some t" and "rl_served_from t" and "l \<in> {Reap, Deliver, Skip, Finish}"
  shows "rl_served_from s"
proof -
  from assms(2) obtain ls s' where "Request \<notin> set ls" "Start \<in> set ls" "ticks ls \<le> nat ReloadThreshold"
    "rl_path ls t = Some s'" "\<not> rl_dirty s'" by (auto simp: rl_served_from_def)
  with assms(1,3) show ?thesis
    unfolding rl_served_from_def by (intro exI [of _ "l # ls"] exI [of _ s']) auto
qed

lemma rl_served_unpending:
  assumes "rl_handler s = Checking" and "\<not> rl_pending s"
  shows "rl_served_from s"
  unfolding rl_served_from_def
  using assms by (intro exI [of _ "[Start]"] exI [of _ "s\<lparr>rl_handler := Updating, rl_dirty := False\<rparr>"]) simp

lemma rl_served_pending:
  assumes inv: "rl_inv s" and "rl_pending s" and "\<not> rl_sending s" and "rl_handler s = Waiting"
  shows "rl_served_from s"
proof -
  from assms(2) obtain t where t: "ttl_updated (rl_cache s) ''reload'' = Some t"
    by (auto simp: rl_pending_updated)
  with inv have ok: "ttl_ok (rl_cache s)" and ttl: "tc_ttl (rl_cache s) = ReloadThreshold"
    and le: "t \<le> rl_now s" by (auto simp: rl_inv_def)
  define d where "d = nat (ReloadThreshold - (rl_now s - t))"
  define now where "now = rl_now s + int d"
  have old: "now - t \<ge> ReloadThreshold" and d: "d \<le> nat ReloadThreshold"
    using le by (simp_all add: d_def now_def)
  have r: "''reload'' \<in> set (ttl_reaped now (rl_cache s))"
    using t old ttl by (simp add: tc.reaped_iff [OF ok])
  have "ttl_updated (ttl_reap now (rl_cache s)) ''reload'' = None"
    by (rule tc.reaped_gone [OF ok r])
  with r assms(3,4) have "rl_path [Tick d, Reap, Deliver, Start] s =
      Some (s\<lparr>rl_now := now, rl_cache := ttl_reap now (rl_cache s), rl_sending := False,
        rl_handler := Updating, rl_dirty := False\<rparr>)"
    by (simp add: rl_pending_updated now_def)
  with d show ?thesis
    unfolding rl_served_from_def
    by (intro exI [of _ "[Tick d, Reap, Deliver, Start]"]
        exI [of _ "s\<lparr>rl_now := now, rl_cache := ttl_reap now (rl_cache s), rl_sending := False,
        rl_handler := Updating, rl_dirty := False\<rparr>"]) simp
qed

lemma rl_served_checking:
  assumes inv: "rl_inv s" and "\<not> rl_sending s" and "rl_handler s = Checking"
  shows "rl_served_from s"
proof (cases "rl_pending s")
  case True
  let ?t = "s\<lparr>rl_handler := Waiting\<rparr>"
  have do: "rl_do Skip s = Some ?t" using True assms(3) by simp
  have "rl_served_from ?t"
    by (rule rl_served_pending [OF rl_inv_step [OF inv do]]) (use True assms(2) in \<open>simp_all add: rl_pending_def\<close>)
  with do show ?thesis by (rule rl_served_step) simp
next
  case False
  with assms(3) show ?thesis by (rule rl_served_unpending)
qed

lemma rl_served_waiting:
  assumes inv: "rl_inv s" and "rl_handler s = Waiting" and "rl_pending s \<or> rl_sending s"
  shows "rl_served_from s"
proof (cases "rl_sending s")
  case True
  let ?t = "s\<lparr>rl_sending := False, rl_handler := Checking\<rparr>"
  have do: "rl_do Deliver s = Some ?t" using True assms(2) by simp
  have "rl_served_from ?t" by (rule rl_served_checking [OF rl_inv_step [OF inv do]]) simp_all
  with do show ?thesis by (rule rl_served_step) simp
next
  case False
  with assms show ?thesis by (intro rl_served_pending) auto
qed



section \<open>Postponement\<close>

text \<open>The time since the last request of a trace.\<close>

definition idle :: "rl_label list \<Rightarrow> nat" where
  "idle ls = ticks (rev (takeWhile (\<lambda>l. l \<noteq> Request) (rev ls)))"

lemma idle_snoc: "idle (ls @ [l]) = (if l = Request then 0 else idle ls + ticks [l])"
  by (simp add: idle_def)

lemma rl_busy_state:
  assumes "rl_run ls s"
    and "\<And>p q. ls = p @ q \<Longrightarrow> Request \<in> set p \<Longrightarrow> idle p < nat ReloadThreshold"
  shows "Start \<notin> set ls \<and> \<not> rl_sending s \<and> rl_handler s = Waiting
    \<and> (if Request \<in> set ls then rl_now s - rl_requested s = int (idle ls) else \<not> rl_pending s)"
  using assms
proof (induction rule: rl_run.induct)
  case rl_start
  then show ?case by (simp add: rl_init_def rl_pending_def ttl_Get_def)
next
  case (rl_step ls s l s')
  have IH: "Start \<notin> set ls \<and> \<not> rl_sending s \<and> rl_handler s = Waiting
      \<and> (if Request \<in> set ls then rl_now s - rl_requested s = int (idle ls) else \<not> rl_pending s)"
    by (rule rl_step.IH) (use rl_step.prems in \<open>metis append.assoc\<close>)
  have inv: "rl_inv s" by (rule rl_run_inv [OF rl_step.hyps(1)])
  show ?case
  proof (cases l)
    case Reap
    with rl_step.hyps(2) have "''reload'' \<in> set (ttl_reaped (rl_now s) (rl_cache s))" by (auto split: if_splits)
    then obtain t where "ttl_updated (rl_cache s) ''reload'' = Some t" "rl_now s - t \<ge> ReloadThreshold"
      using inv by (auto simp: tc.reaped_iff rl_inv_def)
    with inv have "rl_pending s" "rl_now s - rl_requested s \<ge> ReloadThreshold"
      by (auto simp: rl_inv_def rl_pending_updated)
    with IH rl_step.prems [of ls "[l]"] have False by (auto split: if_splits)
    then show ?thesis ..
  qed (use IH rl_step.hyps(2) in \<open>auto simp: idle_snoc rl_pending_def split: if_splits\<close>)
qed

text \<open>As long as the pause after every request stays below the threshold,
  no update starts at all, however long the run.\<close>

theorem reload_postponed_while_busy:
  assumes "rl_run ls s"
    and "\<And>p q. ls = p @ q \<Longrightarrow> Request \<in> set p \<Longrightarrow> idle p < nat ReloadThreshold"
  shows "Start \<notin> set ls"
  using rl_busy_state [OF assms] by simp

theorem reload_postponed_while_busy_witness:
  "\<exists>s. rl_run [Request, Tick 1999, Request, Tick 1999, Request] s
    \<and> Start \<notin> set [Request, Tick 1999, Request, Tick 1999, Request]"
proof -
  let ?ls = "[Request, Tick 1999, Request, Tick 1999, Request]"
  have "rl_path ?ls rl_init \<noteq> None" by code_simp
  then obtain s where s: "rl_path ?ls rl_init = Some s" by blast
  have all: "idle (take n ?ls) < nat ReloadThreshold" if "n < 6" for n
  proof -
    from that have "n \<in> {0, 1, 2, 3, 4, 5}" by auto
    then show ?thesis by (auto simp: idle_def ReloadThreshold_def)
  qed
  have "Start \<notin> set ?ls"
  proof (rule reload_postponed_while_busy [OF rl_path_init [OF s]])
    fix p q assume ls: "?ls = p @ q" and "Request \<in> set p"
    have "p = take (length p) ?ls" unfolding ls by simp
    moreover have "length p < 6" using arg_cong [OF ls, of length] by simp
    ultimately show "idle p < nat ReloadThreshold" using all [of "length p"] by simp
  qed
  with rl_path_init [OF s] show ?thesis by blast
qed

end
