(* ===== verification/Beacon_Metrics.thy ===== *)
theory Beacon_Metrics
  imports Docker_Types "HOL-Library.Word"
begin

text \<open>
  \<open>ext/beacon/prometheus_metrics.go\<close> and the Prometheus part of \<open>stats.go\<close>: the gauges, their
  registration, and the samples that one container's statistics set. The client library's registry
  is a map from a metric's name and label values to a value; \<open>With\<close> panics when the labels are not
  exactly the declared ones, and \<open>MustRegister\<close> when a name is taken.

  The values are 64-bit floating-point numbers in the code; the model keeps the expression that the
  code converts, so nothing is claimed about rounding.
\<close>

section \<open>Gauges\<close>

record gauge_vec =
  gv_Namespace :: string
  gv_Subsystem :: string
  gv_Name :: string
  gv_Help :: string
  gv_Labels :: "string list"

definition gv_fqName :: "gauge_vec \<Rightarrow> string" where
  "gv_fqName g = gv_Namespace g @ ''_'' @ gv_Subsystem g @ ''_'' @ gv_Name g"

definition counterTotalContainers :: gauge_vec where
  "counterTotalContainers = \<lparr>gv_Namespace = ''beacon'', gv_Subsystem = ''docker'', gv_Name = ''total_containers'',
     gv_Help = ''Total number of containers'',
     gv_Labels = [''type'']\<rparr>"

definition counterTotalImages :: gauge_vec where
  "counterTotalImages = \<lparr>gv_Namespace = ''beacon'', gv_Subsystem = ''docker'', gv_Name = ''total_images'',
     gv_Help = ''Total number of images'',
     gv_Labels = [''type'']\<rparr>"

definition counterTotalVolumes :: gauge_vec where
  "counterTotalVolumes = \<lparr>gv_Namespace = ''beacon'', gv_Subsystem = ''docker'', gv_Name = ''total_volumes'',
     gv_Help = ''Total number of volumes'',
     gv_Labels = [''type'']\<rparr>"

definition counterTotalNetworks :: gauge_vec where
  "counterTotalNetworks = \<lparr>gv_Namespace = ''beacon'', gv_Subsystem = ''docker'', gv_Name = ''total_networks'',
     gv_Help = ''Total number of networks'',
     gv_Labels = [''type'']\<rparr>"

definition counterCpuTotalUsage :: gauge_vec where
  "counterCpuTotalUsage = \<lparr>gv_Namespace = ''beacon'', gv_Subsystem = ''docker'', gv_Name = ''cpu_total_time_nanoseconds'',
     gv_Help = ''Total CPU time used in nanoseconds'',
     gv_Labels = [''container'', ''image'', ''name'', ''type'']\<rparr>"

definition counterMemoryUsage :: gauge_vec where
  "counterMemoryUsage = \<lparr>gv_Namespace = ''beacon'', gv_Subsystem = ''docker'', gv_Name = ''memory_usage_bytes'',
     gv_Help = ''Memory used in bytes'',
     gv_Labels = [''container'', ''image'', ''name'', ''type'']\<rparr>"

definition counterMemoryMaxUsage :: gauge_vec where
  "counterMemoryMaxUsage = \<lparr>gv_Namespace = ''beacon'', gv_Subsystem = ''docker'', gv_Name = ''memory_max_usage_bytes'',
     gv_Help = ''Memory max used in bytes'',
     gv_Labels = [''container'', ''image'', ''name'', ''type'']\<rparr>"

definition counterMemoryPercent :: gauge_vec where
  "counterMemoryPercent = \<lparr>gv_Namespace = ''beacon'', gv_Subsystem = ''docker'', gv_Name = ''memory_usage_percent'',
     gv_Help = ''Percentage of memory used'',
     gv_Labels = [''container'', ''image'', ''name'', ''type'']\<rparr>"

definition counterNetworkRxBytes :: gauge_vec where
  "counterNetworkRxBytes = \<lparr>gv_Namespace = ''beacon'', gv_Subsystem = ''docker'', gv_Name = ''network_rx_bytes'',
     gv_Help = ''Network (rx) in bytes'',
     gv_Labels = [''container'', ''image'', ''name'', ''network'', ''type'']\<rparr>"

definition counterNetworkRxPackets :: gauge_vec where
  "counterNetworkRxPackets = \<lparr>gv_Namespace = ''beacon'', gv_Subsystem = ''docker'', gv_Name = ''network_rx_packets_total'',
     gv_Help = ''Network (rx) packet total'',
     gv_Labels = [''container'', ''image'', ''name'', ''network'', ''type'']\<rparr>"

definition counterNetworkRxErrors :: gauge_vec where
  "counterNetworkRxErrors = \<lparr>gv_Namespace = ''beacon'', gv_Subsystem = ''docker'', gv_Name = ''network_rx_errors_total'',
     gv_Help = ''Network (rx) error total'',
     gv_Labels = [''container'', ''image'', ''name'', ''network'', ''type'']\<rparr>"

definition counterNetworkRxDropped :: gauge_vec where
  "counterNetworkRxDropped = \<lparr>gv_Namespace = ''beacon'', gv_Subsystem = ''docker'', gv_Name = ''network_rx_dropped_total'',
     gv_Help = ''Network (rx) dropped total'',
     gv_Labels = [''container'', ''image'', ''name'', ''network'', ''type'']\<rparr>"

definition counterNetworkTxBytes :: gauge_vec where
  "counterNetworkTxBytes = \<lparr>gv_Namespace = ''beacon'', gv_Subsystem = ''docker'', gv_Name = ''network_tx_bytes'',
     gv_Help = ''Network (tx) in bytes'',
     gv_Labels = [''container'', ''image'', ''name'', ''network'', ''type'']\<rparr>"

definition counterNetworkTxPackets :: gauge_vec where
  "counterNetworkTxPackets = \<lparr>gv_Namespace = ''beacon'', gv_Subsystem = ''docker'', gv_Name = ''network_tx_packets_total'',
     gv_Help = ''Network (tx) packet total'',
     gv_Labels = [''container'', ''image'', ''name'', ''network'', ''type'']\<rparr>"

definition counterNetworkTxErrors :: gauge_vec where
  "counterNetworkTxErrors = \<lparr>gv_Namespace = ''beacon'', gv_Subsystem = ''docker'', gv_Name = ''network_tx_errors_total'',
     gv_Help = ''Network (tx) error total'',
     gv_Labels = [''container'', ''image'', ''name'', ''network'', ''type'']\<rparr>"

definition counterNetworkTxDropped :: gauge_vec where
  "counterNetworkTxDropped = \<lparr>gv_Namespace = ''beacon'', gv_Subsystem = ''docker'', gv_Name = ''network_tx_dropped_total'',
     gv_Help = ''Network (tx) dropped total'',
     gv_Labels = [''container'', ''image'', ''name'', ''network'', ''type'']\<rparr>"

definition allCounters :: "gauge_vec list" where
  "allCounters = [counterTotalContainers, counterTotalImages, counterTotalVolumes, counterTotalNetworks,
     counterCpuTotalUsage, counterMemoryUsage, counterMemoryMaxUsage, counterMemoryPercent,
     counterNetworkRxBytes, counterNetworkRxPackets, counterNetworkRxErrors, counterNetworkRxDropped,
     counterNetworkTxBytes, counterNetworkTxPackets, counterNetworkTxErrors, counterNetworkTxDropped]"

text \<open>\<open>init\<close>: the registration of all gauges with an empty registry.\<close>

primrec register_all :: "gauge_vec list \<Rightarrow> string list \<Rightarrow> string list res" where
  "register_all [] names = Ok names"
| "register_all (g # gs) names =
     (if gv_fqName g \<in> set names then Panic ''duplicate metrics collector registration attempted''
      else register_all gs (names @ [gv_fqName g]))"

definition beacon_init :: "string list res" where
  "beacon_init = register_all allCounters []"

section \<open>Samples\<close>

datatype sample = OfInt int | OfUint64 "64 word" | Percent "64 word" "64 word"

type_synonym sample_key = "string \<times> string list"
type_synonym samples = "(sample_key, sample) gomap"

definition gauge_key :: "gauge_vec \<Rightarrow> (string, string) gomap \<Rightarrow> sample_key res" where
  "gauge_key g labels =
     (if length labels \<noteq> length (gv_Labels g) then Panic ''inconsistent label cardinality''
      else if list_all (gm_has labels) (gv_Labels g)
           then Ok (gv_fqName g, map (gm_at [] labels) (gv_Labels g))
           else Panic ''label name missing in label map'')"

definition gauge_set :: "gauge_vec \<Rightarrow> (string, string) gomap \<Rightarrow> sample \<Rightarrow> samples \<Rightarrow> samples res" where
  "gauge_set g labels v reg = res_bind (gauge_key g labels) (\<lambda>k. Ok (gm_set k v reg))"

section \<open>Statistics\<close>

record network_stats =
  RxBytes :: "64 word"
  RxPackets :: "64 word"
  RxErrors :: "64 word"
  RxDropped :: "64 word"
  TxBytes :: "64 word"
  TxPackets :: "64 word"
  TxErrors :: "64 word"
  TxDropped :: "64 word"

record stats_json =
  sj_TotalUsage :: "64 word"
  sj_MemUsage :: "64 word"
  sj_MemMaxUsage :: "64 word"
  sj_MemLimit :: "64 word"
  sj_Networks :: "(string, network_stats) gomap"

record stat =
  st_ID :: string
  st_Name :: string
  st_Image :: string
  st_ContainerJSON :: container_json
  st_NumContainers :: int
  st_NumImages :: int
  st_NumVolumes :: int
  st_NumNetworks :: int
  st_CPUTotalUsage :: "64 word"
  st_MemUsagePercent :: sample
  st_Networks :: "(string, network_stats) gomap"
  st_Stats :: stats_json

definition totals_labels :: "(string, string) gomap" where
  "totals_labels = [(''type'', ''totals'')]"

definition stat_labels :: "stat \<Rightarrow> string \<Rightarrow> (string, string) gomap" where
  "stat_labels s t = [(''container'', st_ID s), (''image'', st_Image s), (''name'', st_Name s), (''type'', t)]"

definition network_labels :: "stat \<Rightarrow> string \<Rightarrow> (string, string) gomap" where
  "network_labels s netName = [(''container'', st_ID s), (''image'', st_Image s), (''name'', st_Name s),
     (''network'', netName), (''type'', ''network'')]"

text \<open>The sets that \<open>sendPrometheus\<close> performs, in order.\<close>

type_synonym gauge_write = "gauge_vec \<times> (string, string) gomap \<times> sample"

definition container_writes :: "stat \<Rightarrow> gauge_write list" where
  "container_writes s =
     [(counterTotalContainers, totals_labels, OfInt (st_NumContainers s)),
      (counterTotalImages, totals_labels, OfInt (st_NumImages s)),
      (counterTotalNetworks, totals_labels, OfInt (st_NumNetworks s)),
      (counterTotalVolumes, totals_labels, OfInt (st_NumVolumes s)),
      (counterCpuTotalUsage, stat_labels s ''cpu'', OfUint64 (st_CPUTotalUsage s)),
      (counterMemoryUsage, stat_labels s ''memory'', OfUint64 (sj_MemUsage (st_Stats s))),
      (counterMemoryMaxUsage, stat_labels s ''memory'', OfUint64 (sj_MemMaxUsage (st_Stats s))),
      (counterMemoryPercent, stat_labels s ''memory'', st_MemUsagePercent s)]"

definition network_writes :: "stat \<Rightarrow> string \<times> network_stats \<Rightarrow> gauge_write list" where
  "network_writes s nn = (case nn of (netName, net) \<Rightarrow>
     [(counterNetworkRxBytes, network_labels s netName, OfUint64 (RxBytes net)),
      (counterNetworkRxPackets, network_labels s netName, OfUint64 (RxPackets net)),
      (counterNetworkRxErrors, network_labels s netName, OfUint64 (RxErrors net)),
      (counterNetworkRxDropped, network_labels s netName, OfUint64 (RxDropped net)),
      (counterNetworkTxBytes, network_labels s netName, OfUint64 (TxBytes net)),
      (counterNetworkTxPackets, network_labels s netName, OfUint64 (TxPackets net)),
      (counterNetworkTxErrors, network_labels s netName, OfUint64 (TxErrors net)),
      (counterNetworkTxDropped, network_labels s netName, OfUint64 (TxDropped net))])"

primrec set_all :: "gauge_write list \<Rightarrow> samples \<Rightarrow> samples res" where
  "set_all [] reg = Ok reg"
| "set_all (w # ws) reg =
     (case w of (g, labels, v) \<Rightarrow> res_bind (gauge_set g labels v reg) (set_all ws))"

definition prometheus_writes :: "order \<Rightarrow> stat \<Rightarrow> gauge_write list" where
  "prometheus_writes ord s =
     container_writes s @ concat (map (network_writes s) (go_range ord (st_Networks s)))"

definition sendPrometheus :: "order \<Rightarrow> stat \<Rightarrow> samples \<Rightarrow> samples res" where
  "sendPrometheus ord s reg = set_all (prometheus_writes ord s) reg"

text \<open>
  \<open>resetStats\<close>: \<open>Reset\<close> of a gauge removes all its samples. The id is not used.
\<close>

definition gauge_reset :: "gauge_vec \<Rightarrow> samples \<Rightarrow> samples" where
  "gauge_reset g reg = filter (\<lambda>((name, _), _). name \<noteq> gv_fqName g) reg"

definition resetStats :: "string \<Rightarrow> samples \<Rightarrow> samples" where
  "resetStats cid reg = fold gauge_reset allCounters reg"

section \<open>Registration\<close>

text \<open>The sixteen gauges have different names, so their registration when the
  program starts does not panic, and registers each of them.\<close>

theorem beacon_gauges_register: "beacon_init = Ok (map gv_fqName allCounters)"
  by code_simp

lemma gauge_names_distinct: "distinct (map gv_fqName allCounters)"
  by code_simp

section \<open>Setting samples\<close>

definition write_key :: "gauge_write \<Rightarrow> sample_key" where
  "write_key w = (case w of (g, labels, v) \<Rightarrow> (gv_fqName g, map (gm_at [] labels) (gv_Labels g)))"

definition write_val :: "gauge_write \<Rightarrow> sample" where
  "write_val w = (case w of (g, labels, v) \<Rightarrow> v)"

definition write_ok :: "gauge_write \<Rightarrow> bool" where
  "write_ok w = (case w of (g, labels, v) \<Rightarrow>
     length labels = length (gv_Labels g) \<and> list_all (gm_has labels) (gv_Labels g))"

lemma set_all_Ok:
  "list_all write_ok ws \<Longrightarrow> set_all ws reg = Ok (fold (\<lambda>w. gm_set (write_key w) (write_val w)) ws reg)"
  by (induction ws arbitrary: reg)
    (auto simp: write_ok_def write_key_def write_val_def gauge_set_def gauge_key_def)

lemmas gauge_label_names =
  counterTotalContainers_def counterTotalImages_def counterTotalVolumes_def counterTotalNetworks_def
  counterCpuTotalUsage_def counterMemoryUsage_def counterMemoryMaxUsage_def counterMemoryPercent_def
  counterNetworkRxBytes_def counterNetworkRxPackets_def counterNetworkRxErrors_def
  counterNetworkRxDropped_def counterNetworkTxBytes_def counterNetworkTxPackets_def
  counterNetworkTxErrors_def counterNetworkTxDropped_def

text \<open>The label lists of the gauges, without their names.\<close>

lemma gv_Labels_simps:
  "gv_Labels counterTotalContainers = [''type'']" "gv_Labels counterTotalImages = [''type'']"
  "gv_Labels counterTotalVolumes = [''type'']" "gv_Labels counterTotalNetworks = [''type'']"
  "gv_Labels counterCpuTotalUsage = [''container'', ''image'', ''name'', ''type'']"
  "gv_Labels counterMemoryUsage = [''container'', ''image'', ''name'', ''type'']"
  "gv_Labels counterMemoryMaxUsage = [''container'', ''image'', ''name'', ''type'']"
  "gv_Labels counterMemoryPercent = [''container'', ''image'', ''name'', ''type'']"
  "gv_Labels counterNetworkRxBytes = [''container'', ''image'', ''name'', ''network'', ''type'']"
  "gv_Labels counterNetworkRxPackets = [''container'', ''image'', ''name'', ''network'', ''type'']"
  "gv_Labels counterNetworkRxErrors = [''container'', ''image'', ''name'', ''network'', ''type'']"
  "gv_Labels counterNetworkRxDropped = [''container'', ''image'', ''name'', ''network'', ''type'']"
  "gv_Labels counterNetworkTxBytes = [''container'', ''image'', ''name'', ''network'', ''type'']"
  "gv_Labels counterNetworkTxPackets = [''container'', ''image'', ''name'', ''network'', ''type'']"
  "gv_Labels counterNetworkTxErrors = [''container'', ''image'', ''name'', ''network'', ''type'']"
  "gv_Labels counterNetworkTxDropped = [''container'', ''image'', ''name'', ''network'', ''type'']"
  by (simp_all add: gauge_label_names)

lemma label_values [simp]:
  "map (gm_at [] totals_labels) [''type''] = [''totals'']"
  "map (gm_at [] (stat_labels s t)) [''container'', ''image'', ''name'', ''type'']
     = [st_ID s, st_Image s, st_Name s, t]"
  "map (gm_at [] (network_labels s n)) [''container'', ''image'', ''name'', ''network'', ''type'']
     = [st_ID s, st_Image s, st_Name s, n, ''network'']"
  by (simp_all add: totals_labels_def stat_labels_def network_labels_def gm_at_def)

lemma labels_complete [simp]:
  "length totals_labels = 1" "length (stat_labels s t) = 4" "length (network_labels s n) = 5"
  "gm_has totals_labels ''type''"
  "gm_has (stat_labels s t) ''container''" "gm_has (stat_labels s t) ''image''"
  "gm_has (stat_labels s t) ''name''" "gm_has (stat_labels s t) ''type''"
  "gm_has (network_labels s n) ''container''" "gm_has (network_labels s n) ''image''"
  "gm_has (network_labels s n) ''name''" "gm_has (network_labels s n) ''network''"
  "gm_has (network_labels s n) ''type''"
  by (simp_all add: totals_labels_def stat_labels_def network_labels_def gm_has_def)

lemma container_writes_ok: "list_all write_ok (container_writes s)"
  by (simp add: container_writes_def write_ok_def gv_Labels_simps)

lemma network_writes_ok: "list_all write_ok (network_writes s nn)"
  by (cases nn) (simp add: network_writes_def write_ok_def gv_Labels_simps)

lemma prometheus_writes_ok: "list_all write_ok (prometheus_writes ord s)"
  using container_writes_ok network_writes_ok
  by (auto simp: prometheus_writes_def list_all_iff)

text \<open>The samples that one container's statistics should give.\<close>

definition container_samples :: "stat \<Rightarrow> (sample_key \<times> sample) list" where
  "container_samples s =
     [((gv_fqName counterTotalContainers, [''totals'']), OfInt (st_NumContainers s)),
      ((gv_fqName counterTotalImages, [''totals'']), OfInt (st_NumImages s)),
      ((gv_fqName counterTotalNetworks, [''totals'']), OfInt (st_NumNetworks s)),
      ((gv_fqName counterTotalVolumes, [''totals'']), OfInt (st_NumVolumes s)),
      ((gv_fqName counterCpuTotalUsage, [st_ID s, st_Image s, st_Name s, ''cpu'']), OfUint64 (st_CPUTotalUsage s)),
      ((gv_fqName counterMemoryUsage, [st_ID s, st_Image s, st_Name s, ''memory'']), OfUint64 (sj_MemUsage (st_Stats s))),
      ((gv_fqName counterMemoryMaxUsage, [st_ID s, st_Image s, st_Name s, ''memory'']),
        OfUint64 (sj_MemMaxUsage (st_Stats s))),
      ((gv_fqName counterMemoryPercent, [st_ID s, st_Image s, st_Name s, ''memory'']), st_MemUsagePercent s)]"

definition network_samples :: "stat \<Rightarrow> string \<Rightarrow> network_stats \<Rightarrow> (sample_key \<times> sample) list" where
  "network_samples s net ns =
     map (\<lambda>(g, v). ((gv_fqName g, [st_ID s, st_Image s, st_Name s, net, ''network'']), OfUint64 v))
       [(counterNetworkRxBytes, RxBytes ns), (counterNetworkRxPackets, RxPackets ns),
        (counterNetworkRxErrors, RxErrors ns), (counterNetworkRxDropped, RxDropped ns),
        (counterNetworkTxBytes, TxBytes ns), (counterNetworkTxPackets, TxPackets ns),
        (counterNetworkTxErrors, TxErrors ns), (counterNetworkTxDropped, TxDropped ns)]"

abbreviation write_sample :: "gauge_write \<Rightarrow> sample_key \<times> sample" where
  "write_sample w \<equiv> (write_key w, write_val w)"

lemma container_writes_samples: "map write_sample (container_writes s) = container_samples s"
  by (simp only: container_writes_def container_samples_def write_key_def write_val_def list.map
      prod.case gv_Labels_simps label_values [unfolded list.map])

lemma network_writes_samples: "map write_sample (network_writes s (net, ns)) = network_samples s net ns"
  by (simp only: network_writes_def network_samples_def write_key_def write_val_def list.map
      prod.case gv_Labels_simps label_values [unfolded list.map])

lemma prometheus_writes_samples:
  "write_sample ` set (prometheus_writes ord s) =
    set (container_samples s) \<union> (\<Union>(net, ns) \<in> set (st_Networks s). set (network_samples s net ns))"
  by (force simp: prometheus_writes_def container_writes_samples [symmetric] network_writes_samples [symmetric])

text \<open>No two of them have the same key.\<close>

lemma container_names: "distinct (map (\<lambda>p. fst (fst p)) (container_samples s))"
  by code_simp

lemma samples_functional:
  assumes "(k, v) \<in> set (container_samples s) \<union> (\<Union>(net, ns) \<in> set (st_Networks s). set (network_samples s net ns))"
    and "(k, v') \<in> set (container_samples s) \<union> (\<Union>(net, ns) \<in> set (st_Networks s). set (network_samples s net ns))"
    and "gm_wf (st_Networks s)"
  shows "v' = v"
proof -
  have d: "distinct [gv_fqName counterNetworkRxBytes, gv_fqName counterNetworkRxPackets,
      gv_fqName counterNetworkRxErrors, gv_fqName counterNetworkRxDropped, gv_fqName counterNetworkTxBytes,
      gv_fqName counterNetworkTxPackets, gv_fqName counterNetworkTxErrors, gv_fqName counterNetworkTxDropped]"
    by code_simp
  have c: "length (snd k) \<noteq> 5" if "(k, v) \<in> set (container_samples s)" for k v
    using that by (auto simp: container_samples_def)
  have n: "length (snd k) = 5" if "(k, v) \<in> set (network_samples s net ns)" for k v net ns
    using that by (auto simp: network_samples_def)
  consider "(k, v) \<in> set (container_samples s)" "(k, v') \<in> set (container_samples s)"
    | net ns net' ns' where "(net, ns) \<in> set (st_Networks s)" "(k, v) \<in> set (network_samples s net ns)"
      "(net', ns') \<in> set (st_Networks s)" "(k, v') \<in> set (network_samples s net' ns')"
  proof -
    from assms(1) consider "(k, v) \<in> set (container_samples s)"
      | net ns where "(net, ns) \<in> set (st_Networks s)" "(k, v) \<in> set (network_samples s net ns)"
      by blast
    then show thesis
    proof cases
      case 1
      then have "length (snd k) \<noteq> 5" by (rule c)
      then have "(k, v') \<notin> set (network_samples s net ns)" for net ns using n by blast
      with assms(2) 1 that(1) show thesis by blast
    next
      case 2
      then have "length (snd k) = 5" by (intro n)
      then have "(k, v') \<notin> set (container_samples s)" using c by blast
      with assms(2) 2 that(2) show thesis by blast
    qed
  qed
  then show ?thesis
  proof cases
    case 1
    have "distinct (map fst (container_samples s))"
      using container_names [of s] by (simp add: distinct_map inj_on_def)
    with 1 show ?thesis by (metis map_of_is_SomeI option.inject)
  next
    case 2
    then have "net' = net" by (auto simp: network_samples_def)
    with 2 assms(3) have "ns' = ns" by (metis gm_get_in_set option.inject)
    have "distinct (map fst (network_samples s net ns))"
      using d by (simp add: network_samples_def)
    with 2 \<open>net' = net\<close> \<open>ns' = ns\<close> show ?thesis by (metis map_of_is_SomeI option.inject)
  qed
qed

lemma fold_set_get:
  "gm_get (fold (\<lambda>w. gm_set (f w) (g w)) ws reg) k =
    (case map_of (rev (map (\<lambda>w. (f w, g w)) ws)) k of None \<Rightarrow> gm_get reg k | Some v \<Rightarrow> Some v)"
  by (induction ws arbitrary: reg) (auto simp: gm_get_set map_add_def split: option.split)

lemma map_of_rev_unique:
  assumes "(k, v) \<in> set kvs" and "\<And>v'. (k, v') \<in> set kvs \<Longrightarrow> v' = v"
  shows "map_of (rev kvs) k = Some v"
proof (cases "map_of (rev kvs) k")
  case None
  with assms(1) show ?thesis by (auto simp: map_of_eq_None_iff image_iff)
next
  case (Some v')
  then have "(k, v') \<in> set kvs" by (auto dest: map_of_SomeD)
  with assms(2) Some show ?thesis by simp
qed

lemma sendPrometheus_Ok:
  "sendPrometheus ord s reg = Ok (fold (\<lambda>w. gm_set (write_key w) (write_val w)) (prometheus_writes ord s) reg)"
  by (simp add: sendPrometheus_def set_all_Ok prometheus_writes_ok)

lemma sendPrometheus_get:
  assumes "sendPrometheus ord s reg = Ok reg'" and "w \<in> set (prometheus_writes ord s)"
    and "\<And>w'. w' \<in> set (prometheus_writes ord s) \<Longrightarrow> write_key w' = write_key w \<Longrightarrow> write_val w' = write_val w"
  shows "gm_get reg' (write_key w) = Some (write_val w)"
proof -
  have "map_of (rev (map write_sample (prometheus_writes ord s))) (write_key w) = Some (write_val w)"
  proof (rule map_of_rev_unique)
    show "(write_key w, write_val w) \<in> set (map write_sample (prometheus_writes ord s))"
      using assms(2) by simp
    fix v' assume "(write_key w, v') \<in> set (map write_sample (prometheus_writes ord s))"
    then obtain w' where "w' \<in> set (prometheus_writes ord s)" "write_key w' = write_key w" "v' = write_val w'"
      by auto
    then show "v' = write_val w" by (simp only: assms(3))
  qed
  with assms(1) show ?thesis by (auto simp: sendPrometheus_Ok fold_set_get)
qed

lemma sendPrometheus_frame:
  assumes "sendPrometheus ord s reg = Ok reg'" and "k \<notin> write_key ` set (prometheus_writes ord s)"
  shows "gm_get reg' k = gm_get reg k"
proof -
  have "map_of (rev (map write_sample (prometheus_writes ord s))) k = None"
    using assms(2) by (auto simp: map_of_eq_None_iff image_iff)
  with assms(1) show ?thesis by (auto simp: sendPrometheus_Ok fold_set_get)
qed

lemma sendPrometheus_sample:
  assumes "sendPrometheus ord s reg = Ok reg'" and "gm_wf (st_Networks s)"
    and "(k, v) \<in> set (container_samples s) \<union> (\<Union>(net, ns) \<in> set (st_Networks s). set (network_samples s net ns))"
  shows "gm_get reg' k = Some v"
proof -
  from assms(3) obtain w where w: "w \<in> set (prometheus_writes ord s)" "(k, v) = write_sample w"
    unfolding prometheus_writes_samples [where ord = ord, symmetric] by blast
  have "gm_get reg' (write_key w) = Some (write_val w)"
  proof (rule sendPrometheus_get [OF assms(1) w(1)])
    fix w' assume "w' \<in> set (prometheus_writes ord s)" "write_key w' = write_key w"
    then have "(k, write_val w') \<in> write_sample ` set (prometheus_writes ord s)"
      using w(2) by (auto intro: image_eqI [where x = w'])
    from samples_functional [OF assms(3) this [unfolded prometheus_writes_samples] assms(2)]
    show "write_val w' = write_val w" using w(2) by simp
  qed
  with w(2) show ?thesis by simp
qed

lemma sample_owner:
  assumes "(k, v) \<in> set (container_samples s) \<union> (\<Union>(net, ns) \<in> set (st_Networks s). set (network_samples s net ns))"
  shows "snd k = [''totals''] \<or> hd (snd k) = st_ID s"
  using assms by (auto simp: container_samples_def network_samples_def)

text \<open>C34: sending one container's statistics never panics; afterwards every total, CPU
  and memory gauge has this container's sample, every network gauge one sample per network of the
  container, each with the value of the field it is named after, and the samples of other containers
  are what they were.\<close>

theorem beacon_samples_set:
  assumes "gm_wf (st_Networks s)"
  shows "\<exists>reg'. sendPrometheus ord s reg = Ok reg'
    \<and> (\<forall>(k, v) \<in> set (container_samples s). gm_get reg' k = Some v)
    \<and> (\<forall>net ns. gm_get (st_Networks s) net = Some ns \<longrightarrow>
          (\<forall>(k, v) \<in> set (network_samples s net ns). gm_get reg' k = Some v))
    \<and> (\<forall>name vals. vals \<noteq> [''totals''] \<and> hd vals \<noteq> st_ID s \<longrightarrow>
          gm_get reg' (name, vals) = gm_get reg (name, vals))"
proof -
  obtain reg' where r: "sendPrometheus ord s reg = Ok reg'" by (simp add: sendPrometheus_Ok)
  have 1: "gm_get reg' k = Some v" if "(k, v) \<in> set (container_samples s)" for k v
    by (rule sendPrometheus_sample [OF r assms]) (use that in blast)
  have 2: "gm_get reg' k = Some v"
    if "gm_get (st_Networks s) net = Some ns" "(k, v) \<in> set (network_samples s net ns)" for net ns k v
  proof (rule sendPrometheus_sample [OF r assms])
    from that(1) assms have "(net, ns) \<in> set (st_Networks s)" by (simp add: gm_get_in_set)
    with that(2) show "(k, v) \<in> set (container_samples s) \<union>
        (\<Union>(net, ns) \<in> set (st_Networks s). set (network_samples s net ns))" by blast
  qed
  have 3: "gm_get reg' (name, vals) = gm_get reg (name, vals)"
    if "vals \<noteq> [''totals''] \<and> hd vals \<noteq> st_ID s" for name vals
  proof (rule sendPrometheus_frame [OF r], rule notI)
    assume "(name, vals) \<in> write_key ` set (prometheus_writes ord s)"
    then obtain w where "w \<in> set (prometheus_writes ord s)" "write_key w = (name, vals)" by auto
    then have "((name, vals), write_val w) \<in> write_sample ` set (prometheus_writes ord s)"
      by (auto intro: image_eqI [where x = w])
    from sample_owner [OF this [unfolded prometheus_writes_samples]] that show False by simp
  qed
  from r 1 2 3 show ?thesis by (intro exI [of _ reg']) blast
qed

definition sample_stat :: stat where
  "sample_stat = \<lparr>st_ID = ''web1web1web1'', st_Name = ''web1'', st_Image = ''web:1'',
     st_ContainerJSON = \<lparr>cj_ID = ''web1web1web1'', cj_Name = ''/web1'', cj_Config = \<lparr>cc_Hostname = [],
       cc_Domainname = [], cc_ExposedPorts = [], cc_Image = ''web:1'', cc_Labels = []\<rparr>, cj_Ports = [],
       cj_Networks = []\<rparr>,
     st_NumContainers = 3, st_NumImages = 7, st_NumVolumes = 1, st_NumNetworks = 4,
     st_CPUTotalUsage = 100, st_MemUsagePercent = Percent 20 80,
     st_Networks = [(''eth0'', \<lparr>RxBytes = 1, RxPackets = 2, RxErrors = 0, RxDropped = 0,
       TxBytes = 5, TxPackets = 6, TxErrors = 0, TxDropped = 8\<rparr>)],
     st_Stats = \<lparr>sj_TotalUsage = 100, sj_MemUsage = 20, sj_MemMaxUsage = 40, sj_MemLimit = 80,
       sj_Networks = []\<rparr>\<rparr>"

theorem beacon_samples_set_witness:
  "\<exists>reg'. sendPrometheus (\<lambda>_. 0) sample_stat [] = Ok reg'
    \<and> gm_get reg' (gv_fqName counterNetworkTxDropped, [''web1web1web1'', ''web:1'', ''web1'', ''eth0'', ''network''])
        = Some (OfUint64 8)"
proof -
  have "gm_wf (st_Networks sample_stat)" by (simp add: sample_stat_def gm_wf_def)
  from beacon_samples_set [OF this] obtain reg'
    where r: "sendPrometheus (\<lambda>_. 0) sample_stat [] = Ok reg'"
      and n: "\<forall>net ns. gm_get (st_Networks sample_stat) net = Some ns \<longrightarrow>
          (\<forall>(k, v) \<in> set (network_samples sample_stat net ns). gm_get reg' k = Some v)"
    by blast
  have "gm_get (st_Networks sample_stat) ''eth0'' = Some (snd (hd (st_Networks sample_stat)))"
    by (simp add: sample_stat_def)
  moreover have "((gv_fqName counterNetworkTxDropped, [''web1web1web1'', ''web:1'', ''web1'', ''eth0'', ''network'']),
      OfUint64 8) \<in> set (network_samples sample_stat ''eth0'' (snd (hd (st_Networks sample_stat))))"
    by (simp add: network_samples_def sample_stat_def)
  ultimately show ?thesis using r n by blast
qed

section \<open>Resetting\<close>

lemma fold_reset: "fold gauge_reset gs reg = filter (\<lambda>p. fst (fst p) \<notin> gv_fqName ` set gs) reg"
  by (induction gs arbitrary: reg) (auto simp: gauge_reset_def case_prod_beta intro: filter_cong)

text \<open>The reset that follows the end of one container removes the samples
  of every container and every total from all sixteen gauges, whatever the id.\<close>

theorem reset_clears_every_container:
  assumes "\<And>name vals v. ((name, vals), v) \<in> set reg \<Longrightarrow> name \<in> set (map gv_fqName allCounters)"
  shows "resetStats cid reg = []"
  using assms by (auto simp: resetStats_def fold_reset filter_empty_conv)

theorem reset_clears_every_container_witness:
  "resetStats ''some other container'' [((gv_fqName counterCpuTotalUsage, [''web1web1web1'', ''web:1'', ''web1'', ''cpu'']),
      OfUint64 100)] = []"
proof (rule reset_clears_every_container)
  fix name vals v
  assume "((name, vals), v) \<in> set [((gv_fqName counterCpuTotalUsage,
      [''web1web1web1'', ''web:1'', ''web1'', ''cpu'']), OfUint64 100)]"
  then show "name \<in> set (map gv_fqName allCounters)" by (simp add: allCounters_def)
qed

end
