(* ===== verification/Beacon.thy ===== *)
theory Beacon
  imports Beacon_Metrics Ext_Config Go_Path Node_Id Sample_Fleet
begin

text \<open>
  \<open>ext/beacon/beacon.go\<close>, \<open>rules.go\<close>, \<open>stats.go\<close> and \<open>influxdb.go\<close>: the metrics extension. It keeps the
  set of monitored containers, and on every tick collects the statistics of those that match a rule
  and sends them to Prometheus gauges or to InfluxDB. Regular expressions, the InfluxDB client and the
  engine are arguments. The goroutines of one collection are run one after the other, in any order;
  \<open>Beacon_Machine\<close> has their interleavings.
\<close>

section \<open>Data and construction (beacon.go)\<close>

record Beacon =
  bn_cfg :: ext_config
  bn_monitored :: "(string, int) gomap"

definition bn_pluginName :: string where
  "bn_pluginName = ''beacon''"

definition bn_Name :: "Beacon \<Rightarrow> string" where
  "bn_Name b = bn_pluginName"

text \<open>\<open>time.NewTicker\<close> panics for an interval that is not positive.\<close>

definition NewBeacon :: "string res \<Rightarrow> (string \<Rightarrow> int answer) \<Rightarrow> ext_config \<Rightarrow> Beacon res" where
  "NewBeacon containerID ParseDuration c =
     (let c = c\<lparr>ConfigBasePath := path_Dir (ConfigPath c)\<rparr>
      in res_bind containerID (\<lambda>_.
           case ParseDuration (StatsInterval c) of
             Inl err \<Rightarrow> Err (''unable to parse stat interval: '' @ err)
           | Inr d \<Rightarrow>
               if d \<le> 0 then Panic ''non-positive interval for NewTicker''
               else Ok \<lparr>bn_cfg = c, bn_monitored = []\<rparr>))"

definition bn_HandleEvent ::
  "container list answer \<Rightarrow> event_message \<Rightarrow> Beacon \<Rightarrow> samples \<Rightarrow> (Beacon \<times> samples) \<times> unit res" where
  "bn_HandleEvent containers event b reg =
     (if em_Status event = ''interlock-start'' then
        (case containers of
           Inl err \<Rightarrow> ((b, reg), Err err)
         | Inr cs \<Rightarrow>
             ((b\<lparr>bn_monitored := fold (\<lambda>c. gm_set (ct_ID c) 1) cs (bn_monitored b)\<rparr>, reg), Ok ()))
      else if em_Status event = ''start'' then
        ((b\<lparr>bn_monitored := gm_set (em_ID event) 1 (bn_monitored b)\<rparr>, reg), Ok ())
      else if em_Status event \<in> {''kill'', ''die'', ''stop'', ''destroy''} then
        ((b\<lparr>bn_monitored := gm_del (em_ID event) (bn_monitored b)\<rparr>, resetStats (em_ID event) reg), Ok ())
      else ((b, reg), Ok ()))"

section \<open>Rules (rules.go)\<close>

text \<open>\<open>compile\<close> is \<open>regexp.Compile\<close> with the matcher it gives, \<open>None\<close> for an invalid expression.\<close>

definition isLabelMatch :: "string \<Rightarrow> container_config \<Rightarrow> bool" where
  "isLabelMatch regex cfg = False"

definition isNameMatch :: "string \<Rightarrow> container_config \<Rightarrow> bool" where
  "isNameMatch regex cfg = False"

definition isImageMatch ::
  "(string \<Rightarrow> (string \<Rightarrow> bool) option) \<Rightarrow> string \<Rightarrow> container_config \<Rightarrow> bool res" where
  "isImageMatch compile regex cfg =
     (case compile regex of None \<Rightarrow> Panic ''regexp: Compile'' | Some r \<Rightarrow> Ok (r (cc_Image cfg)))"

primrec rule_loop ::
  "(string \<Rightarrow> (string \<Rightarrow> bool) option) \<Rightarrow> container_config \<Rightarrow> bool \<Rightarrow> (string \<times> rule) list \<Rightarrow> bool res" where
  "rule_loop compile cfg isMatch [] = Ok isMatch"
| "rule_loop compile cfg isMatch (kr # rules) =
     (if Rule_Type (snd kr) = ''label'' then
        rule_loop compile cfg (if isLabelMatch (Rule_Regex (snd kr)) cfg then True else isMatch) rules
      else if Rule_Type (snd kr) = ''name'' then
        rule_loop compile cfg (if isNameMatch (Rule_Regex (snd kr)) cfg then True else isMatch) rules
      else if Rule_Type (snd kr) = ''image'' then
        res_bind (isImageMatch compile (Rule_Regex (snd kr)) cfg) (\<lambda>m.
          rule_loop compile cfg (if m then m else isMatch) rules)
      else rule_loop compile cfg isMatch rules)"

definition ruleMatch ::
  "(string \<Rightarrow> (string \<Rightarrow> bool) option) \<Rightarrow> order \<Rightarrow> Beacon \<Rightarrow> container_config \<Rightarrow> bool res" where
  "ruleMatch compile ord b cfg = rule_loop compile cfg False (go_range ord (Rules (bn_cfg b)))"

section \<open>InfluxDB (influxdb.go, stats.go)\<close>

record influx_point =
  ip_Name :: string
  ip_Tags :: "(string, string) gomap"
  ip_Fields :: "(string, sample) gomap"

text \<open>
  The client: the error of its construction; the i-th query fails, or its response carries an error or
  not; the errors of a batch, of a point and of the i-th write.
\<close>

record influx_env =
  ix_NewHTTPClient :: error
  ix_Query :: "nat \<Rightarrow> string \<Rightarrow> error answer"
  ix_NewBatchPoints :: error
  ix_NewPoint :: "influx_point \<Rightarrow> error"
  ix_Write :: "nat \<Rightarrow> influx_point list \<Rightarrow> error"

definition queryDB :: "influx_env \<Rightarrow> nat \<Rightarrow> string \<Rightarrow> error" where
  "queryDB v i cmd = (case ix_Query v i cmd of Inl err \<Rightarrow> Some err | Inr response_err \<Rightarrow> response_err)"

definition NewInfluxDBClient :: "influx_env \<Rightarrow> ext_config \<Rightarrow> string list \<times> unit res" where
  "NewInfluxDBClient v cfg =
     (case ix_NewHTTPClient v of
        Some err \<Rightarrow> ([], Err err)
      | None \<Rightarrow>
          let check = ''SELECT * from cpu_usage limit 1'';
              create = ''CREATE DATABASE '' @ StatsInfluxDBDatabase cfg
          in case queryDB v 0 check of
               None \<Rightarrow> ([check], Ok ())
             | Some err \<Rightarrow>
                 if strings_Index err ''database not found'' \<noteq> -1 then
                   (case queryDB v 1 create of
                      None \<Rightarrow> ([check, create], Ok ())
                    | Some err' \<Rightarrow> ([check, create], Err err'))
                 else ([check], Err err))"

definition total_point :: "string \<Rightarrow> string \<Rightarrow> int \<Rightarrow> influx_point" where
  "total_point name field n =
     \<lparr>ip_Name = name, ip_Tags = [(''type'', ''totals'')], ip_Fields = [(field, OfInt n)]\<rparr>"

definition resource_point :: "string \<Rightarrow> string \<times> string \<Rightarrow> stat \<Rightarrow> sample \<Rightarrow> influx_point" where
  "resource_point name tag s v =
     \<lparr>ip_Name = name,
      ip_Tags = [tag, (''resource'', ''container''), (''container'', st_ID s), (''image'', st_Image s),
        (''name'', st_Name s)],
      ip_Fields = [(''value'', v)]\<rparr>"

definition network_point :: "string \<Rightarrow> string \<Rightarrow> stat \<Rightarrow> 64 word \<Rightarrow> influx_point" where
  "network_point name netName s v =
     \<lparr>ip_Name = name,
      ip_Tags = [(''resource'', ''network''), (''container'', st_ID s), (''network'', netName),
        (''image'', st_Image s), (''name'', st_Name s)],
      ip_Fields = [(''value'', OfUint64 v)]\<rparr>"

definition containers_point :: "stat \<Rightarrow> influx_point" where
  "containers_point s = total_point ''containers'' ''total_containers'' (st_NumContainers s)"

definition network_points :: "stat \<Rightarrow> string \<times> network_stats \<Rightarrow> influx_point list" where
  "network_points s nn = (case nn of (netName, net) \<Rightarrow>
     [network_point ''net_rx_bytes'' netName s (RxBytes net),
      network_point ''net_rx_packets'' netName s (RxPackets net),
      network_point ''net_rx_errors'' netName s (RxErrors net),
      network_point ''net_rx_dropped'' netName s (RxDropped net),
      network_point ''net_tx_bytes'' netName s (TxBytes net),
      network_point ''net_tx_packets'' netName s (TxPackets net),
      network_point ''net_tx_errors'' netName s (TxErrors net),
      network_point ''net_tx_dropped'' netName s (TxDropped net)])"

definition more_points :: "order \<Rightarrow> stat \<Rightarrow> influx_point list" where
  "more_points ord s =
     [total_point ''images'' ''total_images'' (st_NumImages s),
      total_point ''networks'' ''total_networks'' (st_NumNetworks s),
      total_point ''volumes'' ''total_volumes'' (st_NumVolumes s),
      resource_point ''cpu_usage'' (''cpu'', ''cpu-total'') s (OfUint64 (st_CPUTotalUsage s)),
      resource_point ''mem_usage'' (''memory'', ''memory-usage'') s (OfUint64 (sj_MemUsage (st_Stats s))),
      resource_point ''mem_max_usage'' (''memory'', ''memory-max-usage'') s (OfUint64 (sj_MemMaxUsage (st_Stats s))),
      resource_point ''mem_usage_percent'' (''memory'', ''memory-usage-percent'') s (st_MemUsagePercent s)]
     @ concat (map (network_points s) (go_range ord (st_Networks s)))"

primrec add_points :: "(influx_point \<Rightarrow> error) \<Rightarrow> influx_point list \<Rightarrow> influx_point list \<Rightarrow> influx_point list res" where
  "add_points NewPoint bp [] = Ok bp"
| "add_points NewPoint bp (p # ps) =
     (case NewPoint p of Some err \<Rightarrow> Err err | None \<Rightarrow> add_points NewPoint (bp @ [p]) ps)"

text \<open>The batches that were handed to \<open>Write\<close>, and the result.\<close>

definition sendInfluxDB ::
  "influx_env \<Rightarrow> order \<Rightarrow> Beacon \<Rightarrow> stat \<Rightarrow> influx_point list list \<times> unit res" where
  "sendInfluxDB v ord b s =
     (case snd (NewInfluxDBClient v (bn_cfg b)) of
        Panic p \<Rightarrow> ([], Panic p)
      | Err err \<Rightarrow> ([], Err err)
      | Ok _ \<Rightarrow>
     (case ix_NewBatchPoints v of
        Some err \<Rightarrow> ([], Err err)
      | None \<Rightarrow>
     (case add_points (ix_NewPoint v) [] [containers_point s] of
        Panic p \<Rightarrow> ([], Panic p)
      | Err err \<Rightarrow> ([], Err err)
      | Ok bp \<Rightarrow>
     (case ix_Write v 0 bp of
        Some err \<Rightarrow> ([bp], Err err)
      | None \<Rightarrow>
     (case add_points (ix_NewPoint v) bp (more_points ord s) of
        Panic p \<Rightarrow> ([bp], Panic p)
      | Err err \<Rightarrow> ([bp], Err err)
      | Ok bp' \<Rightarrow>
     (case ix_Write v 1 bp' of
        Some err \<Rightarrow> ([bp, bp'], Err err)
      | None \<Rightarrow> ([bp, bp'], Ok ())))))))"

section \<open>Collecting (stats.go)\<close>

record stats_env =
  se_ContainerList :: "container list answer"
  se_ContainerInspect :: "string \<Rightarrow> container_json answer"
  se_ImageList :: "nat answer"
  se_VolumeList :: "nat answer"
  se_NetworkList :: "nat answer"
  se_ord :: order
  se_influx :: influx_env

record beacon_world =
  bw_samples :: samples
  bw_batches :: "influx_point list list"

text \<open>The \<open>Stat\<close> that is sent; \<open>None\<close> where the code logs an error and returns.\<close>

definition mk_stat :: "stats_env \<Rightarrow> string \<Rightarrow> stats_json \<Rightarrow> stat option res" where
  "mk_stat v cid stats =
     (let cid = (if length cid \<ge> 12 then take 12 cid else cid)
      in case se_ContainerList v of
           Inl err \<Rightarrow> Ok None
         | Inr allContainers \<Rightarrow>
         (case se_ContainerInspect v cid of
            Inl err \<Rightarrow> Ok None
          | Inr cInfo \<Rightarrow>
          res_bind (go_first (cj_Name cInfo)) (\<lambda>c.
            let cName = (if c = CHR ''/'' then drop 1 (cj_Name cInfo) else cj_Name cInfo)
            in case (se_ImageList v, se_VolumeList v, se_NetworkList v) of
                 (Inr numImages, Inr numVolumes, Inr numNetworks) \<Rightarrow>
                   Ok (Some \<lparr>st_ID = cid, st_Name = cName, st_Image = cc_Image (cj_Config cInfo),
                     st_ContainerJSON = cInfo, st_NumContainers = int (length allContainers),
                     st_NumImages = int numImages, st_NumVolumes = int numVolumes,
                     st_NumNetworks = int numNetworks, st_CPUTotalUsage = sj_TotalUsage stats,
                     st_MemUsagePercent = Percent (sj_MemUsage stats) (sj_MemLimit stats),
                     st_Networks = sj_Networks stats, st_Stats = stats\<rparr>)
               | _ \<Rightarrow> Ok None)))"

definition sendContainerStats ::
  "stats_env \<Rightarrow> Beacon \<Rightarrow> string \<Rightarrow> stats_json \<Rightarrow> beacon_world \<Rightarrow> beacon_world res" where
  "sendContainerStats v b cid stats w =
     res_bind (mk_stat v cid stats) (\<lambda>s.
       case s of
         None \<Rightarrow> Ok w
       | Some s \<Rightarrow>
           if StatsBackendType (bn_cfg b) = ''prometheus'' then
             res_bind (sendPrometheus (se_ord v) s (bw_samples w)) (\<lambda>reg. Ok (w\<lparr>bw_samples := reg\<rparr>))
           else if StatsBackendType (bn_cfg b) = ''influxdb'' then
             (case sendInfluxDB (se_influx v) (se_ord v) b s of (batches, r) \<Rightarrow>
                case r of
                  Panic p \<Rightarrow> Panic p
                | _ \<Rightarrow> Ok (w\<lparr>bw_batches := bw_batches w @ batches\<rparr>))
           else Ok w)"

text \<open>The lines of a statistics response; a line that does not parse ends the loop.\<close>

primrec stats_loop ::
  "stats_env \<Rightarrow> Beacon \<Rightarrow> string \<Rightarrow> stats_json answer list \<Rightarrow> beacon_world \<Rightarrow> beacon_world res" where
  "stats_loop v b cid [] w = Ok w"
| "stats_loop v b cid (l # ls) w =
     (case l of
        Inl err \<Rightarrow> Ok w
      | Inr stats \<Rightarrow> res_bind (sendContainerStats v b cid stats w) (stats_loop v b cid ls))"

record collect_env =
  ce_Inspect :: "string \<Rightarrow> container_json answer"
  ce_compile :: "string \<Rightarrow> (string \<Rightarrow> bool) option"
  ce_rules :: order
  ce_Stats :: "string \<Rightarrow> stats_json answer list answer"
  ce_stats_env :: stats_env

definition collect_one :: "collect_env \<Rightarrow> Beacon \<Rightarrow> string \<Rightarrow> beacon_world \<Rightarrow> beacon_world res" where
  "collect_one v b cid w =
     (case ce_Inspect v cid of
        Inl err \<Rightarrow> Ok w
      | Inr c \<Rightarrow>
          res_bind (ruleMatch (ce_compile v) (ce_rules v) b (cj_Config c)) (\<lambda>m.
            if \<not> m then Ok w
            else case ce_Stats v cid of
                   Inl err \<Rightarrow> Ok w
                 | Inr ls \<Rightarrow> stats_loop (ce_stats_env v) b cid ls w))"

primrec collect_all ::
  "collect_env \<Rightarrow> Beacon \<Rightarrow> (string \<times> int) list \<Rightarrow> beacon_world \<Rightarrow> beacon_world res" where
  "collect_all v b [] w = Ok w"
| "collect_all v b (m # ms) w = res_bind (collect_one v b (fst m) w) (collect_all v b ms)"

definition collectStats :: "collect_env \<Rightarrow> order \<Rightarrow> Beacon \<Rightarrow> beacon_world \<Rightarrow> beacon_world res" where
  "collectStats v ord b w = collect_all v b (go_range ord (bn_monitored b)) w"

text \<open>
  One tick of the ticker: a collection, and then the job, instance and address of the push to the
  gateway, if one is configured. An error of the push is only logged.
\<close>

definition stats_tick ::
  "collect_env \<Rightarrow> order \<Rightarrow> string \<Rightarrow> Beacon \<Rightarrow> beacon_world \<Rightarrow> (beacon_world \<times> (string \<times> string \<times> string) option) res" where
  "stats_tick v ord containerID b w =
     res_bind (collectStats v ord b w) (\<lambda>w'.
       let gw = StatsPrometheusPushGatewayURL (bn_cfg b)
       in Ok (w', if gw \<noteq> [] then Some (''beacon'', containerID, gw) else None))"

section \<open>Monitored containers\<close>

text \<open>The abstract state is the set of monitored ids.\<close>

definition monitor_step :: "container list answer \<Rightarrow> event_message \<Rightarrow> string set \<Rightarrow> string set" where
  "monitor_step containers e ids =
     (if em_Status e = ''interlock-start''
      then (case containers of Inl err \<Rightarrow> ids | Inr cs \<Rightarrow> ids \<union> ct_ID ` set cs)
      else if em_Status e = ''start'' then insert (em_ID e) ids
      else if em_Status e \<in> {''kill'', ''die'', ''stop'', ''destroy''} then ids - {em_ID e}
      else ids)"

lemma gm_keys_del: "gm_keys (gm_del k m) = gm_keys m - {k}"
  by (force simp: gm_keys_def AList.delete_eq)

lemma gm_keys_fold_set: "gm_keys (fold (\<lambda>c. gm_set (f c) v) cs m) = gm_keys m \<union> f ` set cs"
  by (induction cs arbitrary: m) (auto simp: gm_keys_set)

primrec bn_run ::
  "(container list answer \<times> event_message) list \<Rightarrow> Beacon \<times> samples \<Rightarrow> Beacon \<times> samples" where
  "bn_run [] st = st"
| "bn_run (ae # aes) st = bn_run aes (fst (bn_HandleEvent (fst ae) (snd ae) (fst st) (snd st)))"

lemma bn_HandleEvent_monitors:
  "gm_keys (bn_monitored (fst (fst (bn_HandleEvent cs e b reg)))) = monitor_step cs e (gm_keys (bn_monitored b))"
  by (simp add: bn_HandleEvent_def monitor_step_def gm_keys_set gm_keys_del gm_keys_fold_set split: sum.split)

text \<open>Over any sequence of events the monitored containers are those of the
  abstract set: the containers listed at an interlock start and those started since, without those
  that were killed, died, stopped or were destroyed. Other events, a container list that fails, and
  the samples do not matter.\<close>

theorem beacon_monitors_running:
  "gm_keys (bn_monitored (fst (bn_run aes (b, reg)))) =
     fold (\<lambda>(cs, e). monitor_step cs e) aes (gm_keys (bn_monitored b))"
proof (induction aes arbitrary: b reg)
  case Nil
  then show ?case by simp
next
  case (Cons ae aes)
  obtain cs e where ae: "ae = (cs, e)" by (cases ae)
  obtain b' reg' r where h: "bn_HandleEvent cs e b reg = ((b', reg'), r)" by (metis surj_pair)
  from Cons.IH [of b' reg'] bn_HandleEvent_monitors [of cs e b reg] show ?case by (simp add: ae h)
qed

section \<open>Rules\<close>

definition image_rule :: "rule \<Rightarrow> bool" where
  "image_rule r \<longleftrightarrow> Rule_Type r = ''image''"

lemma rule_loop_result:
  "rule_loop compile cfg m rules =
    (if list_ex (\<lambda>kr. image_rule (snd kr) \<and> compile (Rule_Regex (snd kr)) = None) rules
     then Panic ''regexp: Compile''
     else Ok (m \<or> list_ex (\<lambda>kr. image_rule (snd kr) \<and>
       (\<exists>r. compile (Rule_Regex (snd kr)) = Some r \<and> r (cc_Image cfg))) rules))"
proof (induction rules arbitrary: m)
  case Nil
  then show ?case by simp
next
  case (Cons kr rules)
  show ?case
  proof (cases "image_rule (snd kr)")
    case True
    then have t: "Rule_Type (snd kr) = ''image''" by (simp add: image_rule_def)
    show ?thesis
      by (cases "compile (Rule_Regex (snd kr))") (simp_all add: t True isImageMatch_def Cons)
  next
    case False
    then show ?thesis
      by (simp add: image_rule_def [symmetric] Cons isLabelMatch_def isNameMatch_def)
  qed
qed

text \<open>A container is reported exactly when an image rule matches its image, in
  whatever order the rules are visited; rules on names and labels never match. One image rule that is
  not a regular expression makes the match panic, even if another rule matches.\<close>

theorem rules_match_images_only:
  "ruleMatch compile ord b cfg =
    (if \<exists>k r. (k, r) \<in> set (Rules (bn_cfg b)) \<and> image_rule r \<and> compile (Rule_Regex r) = None
     then Panic ''regexp: Compile''
     else Ok (\<exists>k r. (k, r) \<in> set (Rules (bn_cfg b)) \<and> image_rule r \<and>
       (\<exists>f. compile (Rule_Regex r) = Some f \<and> f (cc_Image cfg))))"
proof -
  have ex: "list_ex (\<lambda>kr. P (snd kr)) (go_range ord rules) \<longleftrightarrow> (\<exists>k r. (k, r) \<in> set rules \<and> P r)"
    for P and rules :: "(string \<times> rule) list"
    by (force simp: list_ex_iff)
  show ?thesis
    unfolding ruleMatch_def rule_loop_result
      ex [of "\<lambda>r. image_rule r \<and> compile (Rule_Regex r) = None"]
      ex [of "\<lambda>r. image_rule r \<and> (\<exists>f. compile (Rule_Regex r) = Some f \<and> f (cc_Image cfg))"]
    by (simp only: simp_thms)
qed

section \<open>InfluxDB\<close>

lemma add_points_Ok: "add_points np bp ps = Ok bp' \<Longrightarrow> bp' = bp @ ps"
proof (induction ps arbitrary: bp)
  case Nil
  then show ?case by simp
next
  case (Cons p ps)
  then have "add_points np (bp @ [p]) ps = Ok bp'" by (simp split: option.splits)
  from Cons.IH [OF this] show ?case by simp
qed

text \<open>A successful report to InfluxDB writes two batches: the first holds the
  number of containers, and the second holds that point again together with all the others.\<close>

theorem influx_total_sent_twice:
  assumes "sendInfluxDB v ord b s = (batches, Ok ())"
  shows "batches = [[containers_point s], containers_point s # more_points ord s]"
proof -
  from assms obtain bp bp' where b: "add_points (ix_NewPoint v) [] [containers_point s] = Ok bp"
    "add_points (ix_NewPoint v) bp (more_points ord s) = Ok bp'" "batches = [bp, bp']"
    by (auto simp: sendInfluxDB_def split: res.splits option.splits)
  from add_points_Ok [OF b(1)] add_points_Ok [OF b(2)] b(3) show ?thesis by simp
qed

definition influx_up :: influx_env where
  "influx_up = \<lparr>ix_NewHTTPClient = None, ix_Query = (\<lambda>_ _. Inr None), ix_NewBatchPoints = None,
     ix_NewPoint = (\<lambda>_. None), ix_Write = (\<lambda>_ _. None)\<rparr>"

definition sample_beacon :: Beacon where
  "sample_beacon = \<lparr>bn_cfg = (fleet_ext_config ''beacon'')\<lparr>StatsBackendType := ''influxdb''\<rparr>,
     bn_monitored = [(''web1web1web1'', 1)]\<rparr>"

theorem influx_total_sent_twice_witness:
  "\<exists>batches. sendInfluxDB influx_up (\<lambda>_. 0) sample_beacon sample_stat = (batches, Ok ())
    \<and> count_list (concat batches) (containers_point sample_stat) \<ge> 2"
proof -
  have "snd (sendInfluxDB influx_up (\<lambda>_. 0) sample_beacon sample_stat) = Ok ()" by code_simp
  then obtain batches where b: "sendInfluxDB influx_up (\<lambda>_. 0) sample_beacon sample_stat = (batches, Ok ())"
    by (metis prod.collapse)
  from influx_total_sent_twice [OF b] b show ?thesis by simp
qed

section \<open>Only matching containers are reported\<close>

definition reported_id :: "collect_env \<Rightarrow> Beacon \<Rightarrow> string \<Rightarrow> bool" where
  "reported_id v b short \<longleftrightarrow> (\<exists>cid c. cid \<in> gm_keys (bn_monitored b) \<and> take 12 cid = short
     \<and> ce_Inspect v cid = Inr c \<and> ruleMatch (ce_compile v) (ce_rules v) b (cj_Config c) = Ok True)"

lemma mk_stat_ID: "mk_stat v cid stats = Ok (Some s) \<Longrightarrow> st_ID s = take 12 cid"
  by (cases "se_ImageList v"; cases "se_VolumeList v"; cases "se_NetworkList v")
    (auto simp: mk_stat_def Let_def go_res split: sum.splits if_splits)

lemma sendPrometheus_others:
  assumes "sendPrometheus ord s reg = Ok reg'" and "vals \<noteq> [''totals'']" and "hd vals \<noteq> st_ID s"
  shows "gm_get reg' (name, vals) = gm_get reg (name, vals)"
proof (rule sendPrometheus_frame [OF assms(1)], rule notI)
  assume "(name, vals) \<in> write_key ` set (prometheus_writes ord s)"
  then obtain w where "w \<in> set (prometheus_writes ord s)" "write_key w = (name, vals)" by auto
  then have "((name, vals), write_val w) \<in> write_sample ` set (prometheus_writes ord s)"
    by (auto intro: image_eqI [where x = w])
  from sample_owner [OF this [unfolded prometheus_writes_samples]] assms(2,3) show False by simp
qed

lemma sendContainerStats_others:
  assumes "sendContainerStats v b cid stats w = Ok w'" and "vals \<noteq> [''totals'']" and "hd vals \<noteq> take 12 cid"
  shows "gm_get (bw_samples w') (name, vals) = gm_get (bw_samples w) (name, vals)"
proof -
  from assms(1) obtain os where m: "mk_stat v cid stats = Ok os"
    by (auto simp: sendContainerStats_def go_res)
  show ?thesis
  proof (cases os)
    case None
    with assms(1) m show ?thesis by (simp add: sendContainerStats_def)
  next
    case (Some s)
    with m have "st_ID s = take 12 cid" by (simp add: mk_stat_ID)
    with assms m Some show ?thesis
      by (auto simp: sendContainerStats_def go_res sendPrometheus_others split: if_splits prod.splits res.splits)
  qed
qed

lemma stats_loop_others:
  assumes "stats_loop v b cid ls w = Ok w'" and "vals \<noteq> [''totals'']" and "hd vals \<noteq> take 12 cid"
  shows "gm_get (bw_samples w') (name, vals) = gm_get (bw_samples w) (name, vals)"
  using assms(1)
proof (induction ls arbitrary: w)
  case Nil
  then show ?case by simp
next
  case (Cons l ls)
  show ?case
  proof (cases l)
    case (Inl e)
    with Cons.prems show ?thesis by simp
  next
    case (Inr stats)
    with Cons.prems obtain u where "sendContainerStats v b cid stats w = Ok u" "stats_loop v b cid ls u = Ok w'"
      by (auto simp: go_res)
    with Cons.IH sendContainerStats_others assms(2,3) show ?thesis by simp
  qed
qed

lemma collect_one_others:
  assumes "collect_one v b cid w = Ok w'" and "cid \<in> gm_keys (bn_monitored b)"
    and "vals \<noteq> [''totals'']" and "\<not> reported_id v b (hd vals)"
  shows "gm_get (bw_samples w') (name, vals) = gm_get (bw_samples w) (name, vals)"
proof (cases "ce_Inspect v cid")
  case (Inl e)
  with assms(1) show ?thesis by (simp add: collect_one_def)
next
  case (Inr c)
  with assms(1) obtain m where m: "ruleMatch (ce_compile v) (ce_rules v) b (cj_Config c) = Ok m"
    by (auto simp: collect_one_def go_res)
  show ?thesis
  proof (cases m)
    case True
    with Inr m assms(2,4) have "hd vals \<noteq> take 12 cid" by (auto simp: reported_id_def)
    with assms(1,3) Inr m show ?thesis
      by (auto simp: collect_one_def stats_loop_others split: sum.splits if_splits)
  next
    case False
    with assms(1) Inr m show ?thesis by (simp add: collect_one_def)
  qed
qed

lemma collect_all_others:
  assumes "collect_all v b ms w = Ok w'" and "fst ` set ms \<subseteq> gm_keys (bn_monitored b)"
    and "vals \<noteq> [''totals'']" and "\<not> reported_id v b (hd vals)"
  shows "gm_get (bw_samples w') (name, vals) = gm_get (bw_samples w) (name, vals)"
  using assms(1,2)
proof (induction ms arbitrary: w)
  case Nil
  then show ?case by simp
next
  case (Cons m ms)
  then obtain u where "collect_one v b (fst m) w = Ok u" "collect_all v b ms u = Ok w'"
    by (auto simp: go_res)
  with Cons collect_one_others [OF _ _ assms(3,4)] show ?case by simp
qed


definition sample_collect :: collect_env where
  "sample_collect = \<lparr>ce_Inspect = (\<lambda>cid. if cid = ''web1web1web1'' then Inr web1 else Inl ''gone''),
     ce_compile = (\<lambda>re. if re = ''['' then None else Some (\<lambda>i. i = re)), ce_rules = (\<lambda>_. 0),
     ce_Stats = (\<lambda>_. Inr [Inr (st_Stats sample_stat)]),
     ce_stats_env = \<lparr>se_ContainerList = Inr fleet, se_ContainerInspect = (\<lambda>_. Inr web1),
       se_ImageList = Inr 3, se_VolumeList = Inr 2, se_NetworkList = Inr 1, se_ord = (\<lambda>_. 0),
       se_influx = influx_up\<rparr>\<rparr>"

definition prometheus_beacon :: Beacon where
  "prometheus_beacon = \<lparr>bn_cfg = (fleet_ext_config ''beacon'')\<lparr>StatsBackendType := ''prometheus'',
       Rules := [(''web'', \<lparr>Rule_Type = ''image'', Rule_Regex = ''web:1''\<rparr>)]\<rparr>,
     bn_monitored = [(''web1web1web1'', 1), (''db00db00db00'', 1)]\<rparr>"


end
