(* ===== verification/Server.thy ===== *)
theory Server
  imports Load_Balancer Beacon "HOL-Library.List_Lexorder" "HOL-Library.Char_ord"
begin

text \<open>
  \<open>server/server.go\<close>, \<open>server/utils.go\<close> and \<open>server/swarm.go\<close>: the extensions that a configuration
  loads, the dispatch of an event to them, the poller, the wait for the cluster, and the parser of the
  cluster's node list. How the goroutines of the server wait for each other is the subject of
  \<open>Server_Channels\<close>.
\<close>

section \<open>Swarm nodes (swarm.go, utils.go)\<close>

record Node =
  nd_ID :: string
  nd_Name :: string
  nd_Addr :: string
  nd_Containers :: string
  nd_ReservedCPUs :: string
  nd_ReservedMemory :: string
  nd_Labels :: "string list"

text \<open>The bytes of a blank and a box-drawing corner, with which a line about a node starts.\<close>

definition corner :: string where
  "corner = [CHR 0x20, CHR 0xE2, CHR 0x94, CHR 0x94]"

definition backspace :: string where
  "backspace = [CHR 0x08]"

text \<open>The variables of the loop. \<open>nodeComplete\<close> is true only between two statements of one iteration.\<close>

record swarm_state =
  sw_nodes :: "Node list"
  sw_name :: string
  sw_addr :: string
  sw_containers :: string
  sw_reservedCPUs :: string
  sw_reservedMemory :: string

definition sw_init :: swarm_state where
  "sw_init = \<lparr>sw_nodes = [], sw_name = [], sw_addr = [], sw_containers = [], sw_reservedCPUs = [],
     sw_reservedMemory = []\<rparr>"

definition sw_complete :: "string list \<Rightarrow> swarm_state \<Rightarrow> swarm_state" where
  "sw_complete labels st = sw_init\<lparr>sw_nodes := sw_nodes st @
     [\<lparr>nd_ID = [], nd_Name = sw_name st, nd_Addr = sw_addr st, nd_Containers = sw_containers st,
       nd_ReservedCPUs = sw_reservedCPUs st, nd_ReservedMemory = sw_reservedMemory st,
       nd_Labels = labels\<rparr>]\<rparr>"

definition sw_step :: "string \<times> string \<Rightarrow> swarm_state \<Rightarrow> swarm_state" where
  "sw_step l st = (case l of (label, data) \<Rightarrow>
     if strings_Index label backspace > -1 then st
     else
       (let st = (if strings_Index label corner = -1 then st\<lparr>sw_name := label, sw_addr := data\<rparr> else st)
        in if label = corner @ '' Containers'' then st\<lparr>sw_containers := data\<rparr>
           else if label = corner @ '' Reserved CPUs'' then st\<lparr>sw_reservedCPUs := data\<rparr>
           else if label = corner @ '' Reserved Memory'' then st\<lparr>sw_reservedMemory := data\<rparr>
           else if label = corner @ '' Labels'' then sw_complete (split_on CHR '','' data) st
           else st))"

definition parseSwarmNodes :: "(string \<times> string) list \<Rightarrow> Node list" where
  "parseSwarmNodes driverStatus = sw_nodes (fold sw_step driverStatus sw_init)"

definition getSwarmNodes :: "unit res \<Rightarrow> (string \<times> string) list answer \<Rightarrow> Node list res" where
  "getSwarmNodes client info =
     res_bind client (\<lambda>_. res_bind (of_answer info) (\<lambda>driverStatus. Ok (parseSwarmNodes driverStatus)))"

section \<open>Loading the extensions\<close>

datatype extension = LBExtension LoadBalancer | BeaconExtension Beacon

record load_env =
  le_IsNotExist :: "string \<Rightarrow> bool"
  le_ContainerID :: "string res"
  le_ParseDuration :: "string \<Rightarrow> int answer"
  le_backend :: backend_env

text \<open>One entry of the configuration; \<open>None\<close> where the code logs an error and goes on.\<close>

definition load_extension :: "load_env \<Rightarrow> bool \<Rightarrow> ext_config \<Rightarrow> extension option res" where
  "load_extension v enableMetrics x =
     (if strings_ToLower (Name x) \<in> {''haproxy'', ''nginx''} then
        (case NewLoadBalancer (le_IsNotExist v) (le_ContainerID v) (le_backend v) x of
           Panic p \<Rightarrow> Panic p | Err err \<Rightarrow> Ok None | Ok l \<Rightarrow> Ok (Some (LBExtension l)))
      else if strings_ToLower (Name x) = ''beacon'' then
        (if \<not> enableMetrics then Ok None
         else case NewBeacon (le_ContainerID v) (le_ParseDuration v) x of
                Panic p \<Rightarrow> Panic p | Err err \<Rightarrow> Ok None | Ok b \<Rightarrow> Ok (Some (BeaconExtension b)))
      else Ok None)"

primrec load_loop :: "load_env \<Rightarrow> bool \<Rightarrow> ext_config list \<Rightarrow> extension list res" where
  "load_loop v enableMetrics [] = Ok []"
| "load_loop v enableMetrics (x # xs) =
     res_bind (load_extension v enableMetrics x) (\<lambda>e.
       res_bind (load_loop v enableMetrics xs) (\<lambda>es.
         Ok ((case e of None \<Rightarrow> [] | Some e \<Rightarrow> [e]) @ es)))"

definition loadExtensions :: "load_env \<Rightarrow> config \<Rightarrow> extension list res" where
  "loadExtensions v cfg = load_loop v (EnableMetrics cfg) (Extensions cfg)"

section \<open>Dispatch of an event\<close>

text \<open>The handlers of the extensions, each applied to the engine's answers and its own state.\<close>

type_synonym handler = "event_message \<Rightarrow> unit res"

primrec notify :: "handler list \<Rightarrow> event_message \<Rightarrow> string list res" where
  "notify [] e = Ok []"
| "notify (h # hs) e =
     (case h e of
        Panic p \<Rightarrow> Panic p
      | Err err \<Rightarrow> res_bind (notify hs e) (\<lambda>errs. Ok (err # errs))
      | Ok _ \<Rightarrow> notify hs e)"

text \<open>The errors sent to \<open>errChan\<close>, and by how much the counter of events grows.\<close>

definition dispatch :: "handler list \<Rightarrow> event_message \<Rightarrow> (string list \<times> nat) res" where
  "dispatch hs e =
     (if em_ID e = [] \<and> em_Type e = [] then Ok ([], 0)
      else res_bind (notify hs e) (\<lambda>errs. Ok (errs, 1)))"

section \<open>The poller\<close>

text \<open>
  \<open>json.Marshal\<close> of a list of strings and of integers. Quotes, backslashes, control and HTML characters
  are escaped; container ids have none of them.
\<close>

definition hex_digit :: "nat \<Rightarrow> char" where
  "hex_digit d = (if d < 10 then char_of (48 + d) else char_of (87 + d))"

definition json_char :: "char \<Rightarrow> string" where
  "json_char c =
     (let n = of_char c :: nat
      in if c = CHR 0x22 \<or> c = CHR 0x5C then [CHR 0x5C, c]
         else if n = 10 then [CHR 0x5C, CHR ''n'']
         else if n = 13 then [CHR 0x5C, CHR ''r'']
         else if n < 32 \<or> c \<in> {CHR ''<'', CHR ''>'', CHR ''&''}
              then [CHR 0x5C] @ ''u00'' @ [hex_digit (n div 16), hex_digit (n mod 16)]
         else [c])"

definition json_string :: "string \<Rightarrow> string" where
  "json_string s = [CHR 0x22] @ concat (map json_char s) @ [CHR 0x22]"

definition json_list :: "string list \<Rightarrow> string" where
  "json_list xs = ''['' @ join_with '','' xs @ '']''"

definition poll_data :: "container list \<Rightarrow> string" where
  "poll_data containers =
     (let containerIDs = sort (map ct_ID containers);
          ports = sort (concat (map ct_Ports containers))
      in json_list (map json_string containerIDs) @ json_list (map int_dec ports))"

text \<open>
  One tick: \<open>sha\<close> is the hexadecimal SHA-256 digest, \<open>now\<close> the time in nanoseconds, the state is
  \<open>containerHash\<close>, and the result the new state with the event that is sent.
\<close>

definition poll_tick ::
  "(string \<Rightarrow> string) \<Rightarrow> int \<Rightarrow> container list answer \<Rightarrow> string \<Rightarrow> string \<times> event_message option" where
  "poll_tick sha now listing containerHash =
     (case listing of
        Inl err \<Rightarrow> (containerHash, None)
      | Inr containers \<Rightarrow>
          (let s = sha (poll_data containers)
           in if s \<noteq> containerHash
              then (s, Some \<lparr>em_Status = ''interlock-restart'', em_ID = int_dec now, em_Type = [],
                             em_Action = [], em_Attributes = []\<rparr>)
              else (containerHash, None)))"

section \<open>Running\<close>

definition defaultPollInterval :: int where
  "defaultPollInterval = 2000000000"

text \<open>
  The interval of the poller that \<open>Run\<close> starts, if any, in nanoseconds, with the interval left in the
  configuration; \<open>Err\<close> when the server does not start.
\<close>

definition poll_interval :: "(string \<Rightarrow> int answer) \<Rightarrow> config \<Rightarrow> (int option \<times> config) res" where
  "poll_interval ParseDuration cfg =
     (if PollInterval cfg \<noteq> [] then
        res_bind (of_answer (ParseDuration (PollInterval cfg))) (\<lambda>d.
          if d < defaultPollInterval
          then Ok (Some defaultPollInterval, cfg\<lparr>PollInterval := ''2s''\<rparr>)
          else Ok (Some d, cfg))
      else Ok (None, cfg))"

definition server_Run :: "(string \<Rightarrow> int answer) \<Rightarrow> error \<Rightarrow> config \<Rightarrow> unit res" where
  "server_Run ParseDuration listen cfg =
     res_bind (poll_interval ParseDuration cfg) (\<lambda>_. case listen of Some err \<Rightarrow> Err err | None \<Rightarrow> Ok ())"

text \<open>The wait for the cluster: \<open>ans i\<close> is the answer to the i-th listing; \<open>None\<close> is not to return.\<close>

partial_function (option) waitForSwarm :: "(nat \<Rightarrow> container list answer) \<Rightarrow> nat \<Rightarrow> effect list option" where
  "waitForSwarm ans i =
     (case ans i of
        Inr _ \<Rightarrow> Some []
      | Inl err \<Rightarrow> Option.bind (waitForSwarm ans (Suc i)) (\<lambda>es. Some (SleepMs 1000 # es)))"

section \<open>The node list is parsed back\<close>

text \<open>How the cluster prints a node, and the lines that are about something else.\<close>

definition node_lines :: "Node \<Rightarrow> (string \<times> string) list" where
  "node_lines n = [(nd_Name n, nd_Addr n), (corner @ '' Containers'', nd_Containers n),
     (corner @ '' Reserved CPUs'', nd_ReservedCPUs n), (corner @ '' Reserved Memory'', nd_ReservedMemory n),
     (corner @ '' Labels'', join_with '','' (nd_Labels n))]"

definition node_line_names :: "string list" where
  "node_line_names = map (\<lambda>t. corner @ t) ['' Containers'', '' Reserved CPUs'', '' Reserved Memory'', '' Labels'']"

definition other_line :: "string \<times> string \<Rightarrow> bool" where
  "other_line l \<longleftrightarrow> strings_Index (fst l) backspace > -1
     \<or> strings_Index (fst l) corner \<noteq> -1 \<and> fst l \<notin> set node_line_names"

definition printable_node :: "Node \<Rightarrow> bool" where
  "printable_node n \<longleftrightarrow> nd_ID n = [] \<and> strings_Index (nd_Name n) backspace = -1
     \<and> strings_Index (nd_Name n) corner = -1 \<and> nd_Labels n \<noteq> [] \<and> (\<forall>l \<in> set (nd_Labels n). CHR '','' \<notin> set l)"

lemma sw_step_other: "other_line l \<Longrightarrow> sw_step l st = st"
  by (cases l) (auto simp: other_line_def sw_step_def node_line_names_def Let_def)

lemma fold_sw_other: "fold sw_step ls st = fold sw_step (filter (\<lambda>l. \<not> other_line l) ls) st"
  by (induction ls arbitrary: st) (simp_all add: sw_step_other)

lemma node_line_index:
  "strings_Index (corner @ '' Containers'') backspace = -1" "strings_Index (corner @ '' Containers'') corner = 0"
  "strings_Index (corner @ '' Reserved CPUs'') backspace = -1" "strings_Index (corner @ '' Reserved CPUs'') corner = 0"
  "strings_Index (corner @ '' Reserved Memory'') backspace = -1" "strings_Index (corner @ '' Reserved Memory'') corner = 0"
  "strings_Index (corner @ '' Labels'') backspace = -1" "strings_Index (corner @ '' Labels'') corner = 0"
  by code_simp+

lemma sw_step_name:
  assumes "strings_Index label backspace = -1" and "strings_Index label corner = -1"
  shows "sw_step (label, data) st = st\<lparr>sw_name := label, sw_addr := data\<rparr>"
proof -
  from assms(2) node_line_index have "label \<notin> set node_line_names" by (auto simp: node_line_names_def)
  with assms show ?thesis by (simp add: sw_step_def Let_def node_line_names_def)
qed

lemma sw_step_info:
  "sw_step (corner @ '' Containers'', data) st = st\<lparr>sw_containers := data\<rparr>"
  "sw_step (corner @ '' Reserved CPUs'', data) st = st\<lparr>sw_reservedCPUs := data\<rparr>"
  "sw_step (corner @ '' Reserved Memory'', data) st = st\<lparr>sw_reservedMemory := data\<rparr>"
  "sw_step (corner @ '' Labels'', data) st = sw_complete (split_on CHR '','' data) st"
  by (simp_all add: sw_step_def node_line_index)

lemma fold_node_lines:
  assumes "printable_node n"
  shows "fold sw_step (node_lines n) (sw_init\<lparr>sw_nodes := ns\<rparr>) = sw_init\<lparr>sw_nodes := ns @ [n]\<rparr>"
proof -
  from assms have "split_on CHR '','' (join_with '','' (nd_Labels n)) = nd_Labels n"
    by (intro split_join) (auto simp: printable_node_def)
  with assms show ?thesis
    by (simp add: node_lines_def sw_step_name sw_step_info printable_node_def sw_complete_def sw_init_def)
qed

lemma fold_all_nodes:
  "list_all printable_node nodes \<Longrightarrow>
    fold sw_step (concat (map node_lines nodes)) (sw_init\<lparr>sw_nodes := ns\<rparr>) = sw_init\<lparr>sw_nodes := ns @ nodes\<rparr>"
  by (induction nodes arbitrary: ns) (simp_all add: fold_node_lines)

text \<open>C36: the parser gives back exactly the nodes that the cluster printed, with whatever
  cluster lines and further node lines between them.\<close>

theorem swarm_nodes_parsed:
  assumes "list_all printable_node nodes"
    and "filter (\<lambda>l. \<not> other_line l) driverStatus = concat (map node_lines nodes)"
  shows "parseSwarmNodes driverStatus = nodes"
proof -
  have "sw_init = sw_init\<lparr>sw_nodes := []\<rparr>" by (simp add: sw_init_def)
  then show ?thesis
    using fold_all_nodes [OF assms(1), of "[]"]
    by (simp add: parseSwarmNodes_def fold_sw_other [of driverStatus] assms(2) sw_init_def)
qed

definition swarm_node :: "string \<Rightarrow> Node" where
  "swarm_node name = \<lparr>nd_ID = [], nd_Name = name, nd_Addr = ''10.0.0.1:2375'', nd_Containers = ''3'',
     nd_ReservedCPUs = ''0 / 2'', nd_ReservedMemory = ''0 B / 2 GiB'', nd_Labels = [''os=linux'', ''ssd'']\<rparr>"

theorem swarm_nodes_parsed_witness:
  "parseSwarmNodes ((backspace @ ''Strategy'', ''spread'') # node_lines (swarm_node ''n1'')
      @ (corner @ '' Status'', ''Healthy'') # node_lines (swarm_node ''n2''))
    = [swarm_node ''n1'', swarm_node ''n2'']"
proof (rule swarm_nodes_parsed)
  show "list_all printable_node [swarm_node ''n1'', swarm_node ''n2'']" by code_simp
  show "filter (\<lambda>l. \<not> other_line l) ((backspace @ ''Strategy'', ''spread'') # node_lines (swarm_node ''n1'')
      @ (corner @ '' Status'', ''Healthy'') # node_lines (swarm_node ''n2''))
    = concat (map node_lines [swarm_node ''n1'', swarm_node ''n2''])"
    by code_simp
qed

section \<open>Which extensions are loaded\<close>

definition ext_config_of :: "extension \<Rightarrow> ext_config" where
  "ext_config_of e = (case e of LBExtension l \<Rightarrow> lb_cfg l | BeaconExtension b \<Rightarrow> bn_cfg b)"

definition ext_name :: "extension \<Rightarrow> string" where
  "ext_name e = Name (ext_config_of e)"

definition loadable :: "bool \<Rightarrow> ext_config \<Rightarrow> bool" where
  "loadable enableMetrics x \<longleftrightarrow> Name x \<in> {''haproxy'', ''nginx''}
     \<or> strings_ToLower (Name x) = ''beacon'' \<and> enableMetrics"

lemma ToLower_names [simp]:
  "strings_ToLower ''haproxy'' = ''haproxy''" "strings_ToLower ''nginx'' = ''nginx''"
  by code_simp+

lemma load_extension_ok:
  assumes "is_ok (le_ContainerID v)" and "\<not> (TemplatePath x \<noteq> [] \<and> le_IsNotExist v (TemplatePath x))"
    and "strings_ToLower (Name x) = ''beacon'' \<Longrightarrow> \<exists>d > 0. le_ParseDuration v (StatsInterval x) = Inr d"
  shows "\<exists>e. load_extension v m x = Ok e
    \<and> map ext_name (case e of None \<Rightarrow> [] | Some e \<Rightarrow> [e]) = (if loadable m x then [Name x] else [])"
proof -
  from assms(1) obtain cid where cid: "le_ContainerID v = Ok cid" by (rule is_okE)
  consider (lb) "Name x \<in> {''haproxy'', ''nginx''}"
    | (cased) "Name x \<notin> {''haproxy'', ''nginx''}" "strings_ToLower (Name x) \<in> {''haproxy'', ''nginx''}"
    | (beacon) "strings_ToLower (Name x) = ''beacon''"
    | (other) "strings_ToLower (Name x) \<notin> {''haproxy'', ''nginx'', ''beacon''}"
    by blast
  then show ?thesis
  proof cases
    case lb
    with assms(1,2) obtain l where
      l: "NewLoadBalancer (le_IsNotExist v) (le_ContainerID v) (le_backend v) x = Ok l"
      by (metis NewLoadBalancer_ok_iff is_okE)
    then have "Name (lb_cfg l) = Name x"
      by (auto simp: NewLoadBalancer_def Let_def go_res split: if_splits)
    with l lb show ?thesis by (auto simp: load_extension_def loadable_def ext_config_of_def ext_name_def)
  next
    case cased
    then have "NewLoadBalancer (le_IsNotExist v) (le_ContainerID v) (le_backend v) x
        = Err (''unknown load balancer backend: '' @ Name x)"
      using assms(2) cid
      by (simp add: NewLoadBalancer_def ttl_New_def ReloadThreshold_def select_backend_def Let_def)
    with cased show ?thesis by (auto simp: load_extension_def loadable_def)
  next
    case beacon
    with assms(3) obtain d where d: "0 < d" "le_ParseDuration v (StatsInterval x) = Inr d" by blast
    have "Name x \<noteq> ''haproxy''" "Name x \<noteq> ''nginx''" using beacon by auto
    with beacon d cid show ?thesis
      by (simp add: load_extension_def loadable_def NewBeacon_def Let_def ext_config_of_def ext_name_def)
  next
    case other
    then have "Name x \<noteq> ''haproxy''" "Name x \<noteq> ''nginx''" by auto
    with other show ?thesis by (simp add: load_extension_def loadable_def)
  qed
qed

text \<open>C39: the extensions that are loaded are, in the order of the configuration, the
  entries named exactly \<open>haproxy\<close> or \<open>nginx\<close>, and, when metrics are enabled, those named \<open>beacon\<close> in any
  mixture of upper and lower case. An entry named \<open>Nginx\<close> is taken for a load balancer and then refused
  as unknown.\<close>

theorem extensions_loaded:
  assumes "is_ok (le_ContainerID v)"
    and "\<And>x. x \<in> set (Extensions cfg) \<Longrightarrow> \<not> (TemplatePath x \<noteq> [] \<and> le_IsNotExist v (TemplatePath x))"
    and "\<And>x. x \<in> set (Extensions cfg) \<Longrightarrow> strings_ToLower (Name x) = ''beacon'' \<Longrightarrow>
      \<exists>d > 0. le_ParseDuration v (StatsInterval x) = Inr d"
  shows "\<exists>es. loadExtensions v cfg = Ok es
    \<and> map ext_name es = map Name (filter (loadable (EnableMetrics cfg)) (Extensions cfg))"
proof -
  have "\<exists>es. load_loop v m xs = Ok es \<and> map ext_name es = map Name (filter (loadable m) xs)"
    if "set xs \<subseteq> set (Extensions cfg)" for m xs
    using that
  proof (induction xs)
    case Nil
    then show ?case by simp
  next
    case (Cons x xs)
    then obtain es where es: "load_loop v m xs = Ok es"
      "map ext_name es = map Name (filter (loadable m) xs)" by auto
    obtain e where "load_extension v m x = Ok e"
      "map ext_name (case e of None \<Rightarrow> [] | Some e \<Rightarrow> [e]) = (if loadable m x then [Name x] else [])"
      using load_extension_ok [OF assms(1), of x m] assms(2,3) Cons.prems by auto
    with es show ?case by auto
  qed
  then show ?thesis by (simp add: loadExtensions_def)
qed

definition sample_load_env :: load_env where
  "sample_load_env = \<lparr>le_IsNotExist = (\<lambda>_. False), le_ContainerID = Ok ''nodeA'',
     le_ParseDuration = (\<lambda>_. Inr 30000000000), le_backend = fleet_backend_env\<rparr>"

definition sample_config :: "string list \<Rightarrow> config" where
  "sample_config names = \<lparr>ListenAddr = '':8080'', DockerURL = [], TLSCACert = [], TLSCert = [], TLSKey = [],
     AllowInsecure = False, EnableMetrics = True, PollInterval = [],
     Extensions = map fleet_ext_config names, cfg_Rules = []\<rparr>"

theorem extensions_loaded_witness:
  "\<exists>es. loadExtensions sample_load_env (sample_config [''nginx'', ''Nginx'', ''Beacon'']) = Ok es
    \<and> map ext_name es = [''nginx'', ''Beacon'']"
proof -
  have "map Name (filter (loadable (EnableMetrics (sample_config [''nginx'', ''Nginx'', ''Beacon''])))
      (Extensions (sample_config [''nginx'', ''Nginx'', ''Beacon'']))) = [''nginx'', ''Beacon'']"
    by code_simp
  moreover have "\<exists>es. loadExtensions sample_load_env (sample_config [''nginx'', ''Nginx'', ''Beacon'']) = Ok es
    \<and> map ext_name es = map Name (filter (loadable (EnableMetrics (sample_config [''nginx'', ''Nginx'', ''Beacon''])))
      (Extensions (sample_config [''nginx'', ''Nginx'', ''Beacon''])))"
    by (rule extensions_loaded) (auto simp: sample_load_env_def)
  ultimately show ?thesis by (simp only:)
qed

section \<open>Extensions as the dispatcher sees them\<close>

text \<open>
  The contract of \<open>ext.Extension\<close> that the event loop relies on: handling an event ends with a result
  or an error. Its two implementations are the load balancer and the beacon.
\<close>

locale event_extension =
  fixes handle :: "'env \<Rightarrow> handler"
  assumes handle_no_panic: "\<not> is_panic (handle env e)"
begin

lemma handle_cases: "handle env e = Ok () \<or> (\<exists>err. handle env e = Err err)"
  using handle_no_panic [of env e] by (cases "handle env e") auto

end

definition lb_handler :: "event_env \<Rightarrow> handler" where
  "lb_handler v e = res_bind (snd (lb_HandleEvent v e)) (\<lambda>_. Ok ())"

definition bn_handler :: "container list answer \<times> Beacon \<times> samples \<Rightarrow> handler" where
  "bn_handler env e = (case env of (cs, b, reg) \<Rightarrow> snd (bn_HandleEvent cs e b reg))"

lemma lb_HandleEvent_no_panic: "\<not> is_panic (snd (lb_HandleEvent v e))"
  by (auto simp: lb_HandleEvent_def snd_io_bind status_reload_result action_reload_def go_res
      wait_connected_no_panic split: option.splits)

interpretation lb_ext: event_extension lb_handler
  by unfold_locales (simp add: lb_handler_def go_res lb_HandleEvent_no_panic)

interpretation bn_ext: event_extension bn_handler
  by unfold_locales (simp add: bn_handler_def bn_HandleEvent_def split: sum.split prod.split)

definition res_errors :: "'a res \<Rightarrow> string list" where
  "res_errors r = (case r of Err err \<Rightarrow> [err] | _ \<Rightarrow> [])"

lemma notify_all:
  "list_all (\<lambda>h. \<not> is_panic (h e)) hs \<Longrightarrow> notify hs e = Ok (concat (map (\<lambda>h. res_errors (h e)) hs))"
proof (induction hs)
  case Nil
  then show ?case by simp
next
  case (Cons h hs)
  then show ?case by (cases "h e") (simp_all add: res_errors_def)
qed

text \<open>An event with an id or a type is handed to every extension, also
  after one of them fails; the errors of all of them are reported in order, and the event is counted
  once. Any number of load balancers and beacons cannot make the dispatch panic.\<close>

theorem dispatch_reaches_every_extension:
  assumes "em_ID e \<noteq> [] \<or> em_Type e \<noteq> []"
  shows "dispatch (map lb_handler vs @ map bn_handler bs) e =
    Ok (concat (map (\<lambda>v. res_errors (lb_handler v e)) vs) @ concat (map (\<lambda>b. res_errors (bn_handler b e)) bs), 1)"
proof -
  have "list_all (\<lambda>h. \<not> is_panic (h e)) (map lb_handler vs @ map bn_handler bs)"
    by (auto simp: list_all_iff lb_ext.handle_no_panic bn_ext.handle_no_panic)
  from notify_all [OF this] assms show ?thesis by (auto simp: dispatch_def comp_def)
qed

theorem dispatch_reaches_every_extension_witness:
  "dispatch (map lb_handler [fleet_event_env] @ map bn_handler [(Inl ''down'', sample_beacon, [])])
      (start_event ''interlock-start'' ''0'')
    = Ok (concat (map (\<lambda>v. res_errors (lb_handler v (start_event ''interlock-start'' ''0''))) [fleet_event_env])
        @ concat (map (\<lambda>b. res_errors (bn_handler b (start_event ''interlock-start'' ''0'')))
            [(Inl ''down'', sample_beacon, [])]), 1)"
  by (rule dispatch_reaches_every_extension) (simp add: start_event_def)

section \<open>Waiting for the cluster\<close>

lemma waitForSwarm_finds:
  assumes "\<And>j. j < k \<Longrightarrow> \<exists>err. ans (i + j) = Inl err" and "ans (i + k) = Inr cs"
  shows "waitForSwarm ans i = Some (replicate k (SleepMs 1000))"
  using assms
proof (induction k arbitrary: i)
  case 0
  then show ?case by (subst waitForSwarm.simps) simp
next
  case (Suc k)
  obtain err where "ans i = Inl err" using Suc.prems(1) [of 0] by auto
  moreover have "waitForSwarm ans (Suc i) = Some (replicate k (SleepMs 1000))"
  proof (rule Suc.IH)
    show "\<exists>err. ans (Suc i + j) = Inl err" if "j < k" for j
      using Suc.prems(1) [of "Suc j"] that by simp
    show "ans (Suc i + k) = Inr cs" using Suc.prems(2) by simp
  qed
  ultimately show ?case by (subst waitForSwarm.simps) simp
qed

lemma waitForSwarm_returned:
  assumes "waitForSwarm ans i = Some es"
  shows "\<exists>j cs. i \<le> j \<and> ans j = Inr cs"
proof (rule waitForSwarm.raw_induct [OF _ assms])
  fix wait :: "(nat \<Rightarrow> container list answer) \<Rightarrow> nat \<Rightarrow> effect list option" and ans i es
  assume IH: "\<And>ans i es. wait ans i = Some es \<Longrightarrow> \<exists>j cs. i \<le> j \<and> ans j = Inr cs"
    and step: "(case ans i of Inl err \<Rightarrow> Option.bind (wait ans (Suc i)) (\<lambda>es. Some (SleepMs 1000 # es))
      | Inr _ \<Rightarrow> Some []) = Some es"
  show "\<exists>j cs. i \<le> j \<and> ans j = Inr cs"
  proof (cases "ans i")
    case (Inl err)
    with step obtain es' where "wait ans (Suc i) = Some es'" by (auto simp: Option.bind_eq_Some_conv)
    from IH [OF this] show ?thesis by (meson Suc_leD)
  next
    case (Inr cs)
    then show ?thesis by blast
  qed
qed

text \<open>C38: the wait for the cluster returns exactly when the cluster answers at some
  point, after one second of sleep for every failed attempt before the first success.\<close>

theorem wait_for_swarm_returns:
  "waitForSwarm ans 0 = (if \<exists>j cs. ans j = Inr cs
     then Some (replicate (LEAST j. \<exists>cs. ans j = Inr cs) (SleepMs 1000)) else None)"
proof (cases "\<exists>j cs. ans j = Inr cs")
  case True
  define k where "k = (LEAST j. \<exists>cs. ans j = Inr cs)"
  obtain cs where "ans k = Inr cs" using LeastI_ex [OF True] unfolding k_def by blast
  moreover have "\<exists>err. ans j = Inl err" if "j < k" for j
    using not_less_Least [OF that [unfolded k_def]] by (cases "ans j") auto
  ultimately have "waitForSwarm ans 0 = Some (replicate k (SleepMs 1000))"
    by (intro waitForSwarm_finds) simp_all
  with True show ?thesis by (simp add: k_def)
next
  case False
  then have "waitForSwarm ans 0 = None" using waitForSwarm_returned [of ans 0] by fastforce
  with False show ?thesis by simp
qed

section \<open>The interval of the poller\<close>

text \<open>The poller never runs more often than every two seconds, and only when an
  interval is configured; an interval of exactly two seconds is accepted.\<close>

theorem poll_interval_bounded:
  assumes "poll_interval ParseDuration cfg = Ok (d, cfg')"
  shows "(d = None \<longleftrightarrow> PollInterval cfg = [])
    \<and> (\<forall>n. d = Some n \<longrightarrow> 2000000000 \<le> n
        \<and> (ParseDuration (PollInterval cfg) = Inr n \<and> cfg' = cfg
           \<or> n = 2000000000 \<and> cfg' = cfg\<lparr>PollInterval := ''2s''\<rparr>))"
  using assms
  by (cases "ParseDuration (PollInterval cfg)")
    (auto simp: poll_interval_def defaultPollInterval_def split: if_splits)

theorem poll_interval_bounded_witness:
  "\<exists>cfg'. poll_interval (\<lambda>_. Inr 500000000) ((sample_config [])\<lparr>PollInterval := ''500ms''\<rparr>) = Ok (Some 2000000000, cfg')
    \<and> cfg' = ((sample_config [])\<lparr>PollInterval := ''500ms''\<rparr>)\<lparr>PollInterval := ''2s''\<rparr>"
proof -
  let ?cfg = "(sample_config [])\<lparr>PollInterval := ''500ms''\<rparr>"
  obtain cfg' where p: "poll_interval (\<lambda>_. Inr 500000000) ?cfg = Ok (Some 2000000000, cfg')"
    by (simp add: poll_interval_def defaultPollInterval_def)
  from poll_interval_bounded [OF p] have "cfg' = ?cfg\<lparr>PollInterval := ''2s''\<rparr>" by simp
  with p show ?thesis by blast
qed

section \<open>What the poller detects\<close>

definition plain_id :: "string \<Rightarrow> bool" where
  "plain_id s \<longleftrightarrow> (\<forall>c \<in> set s. json_char c = [c] \<and> c \<notin> {CHR 0x22, CHR '','', CHR '']''})"

definition plain_part :: "string \<Rightarrow> bool" where
  "plain_part s \<longleftrightarrow> s \<noteq> [] \<and> CHR '','' \<notin> set s \<and> CHR '']'' \<notin> set s"

lemma json_string_plain: "plain_id s \<Longrightarrow> json_string s = [CHR 0x22] @ s @ [CHR 0x22]"
proof -
  have "concat (map json_char s) = s" if "\<forall>c \<in> set s. json_char c = [c]"
    using that by (induction s) simp_all
  moreover assume "plain_id s"
  ultimately show ?thesis by (simp add: json_string_def plain_id_def)
qed

lemma plain_part_json: "plain_id s \<Longrightarrow> plain_part (json_string s)"
  by (auto simp: json_string_plain plain_part_def plain_id_def)

lemma plain_part_int: "plain_part (int_dec n)"
proof -
  have "CHR '','' \<notin> set (nat_dec m)" "CHR '']'' \<notin> set (nat_dec m)" for m
    using nat_dec_digits [of "CHR '',''" m] nat_dec_digits [of "CHR '']''" m] by auto
  then show ?thesis by (auto simp: plain_part_def int_dec_def)
qed

lemma nat_dec_inj: "nat_dec m = nat_dec n \<Longrightarrow> m = n"
  by (metis nat_of_dec_dec option.inject)

lemma int_dec_sign: "int_dec i = CHR ''-'' # s \<longleftrightarrow> i < 0 \<and> s = nat_dec (nat (- i))"
  using nat_dec_hd_digit [of "nat i"] by (auto simp: int_dec_def)

lemma int_dec_inj:
  assumes "int_dec i = int_dec j"
  shows "i = j"
proof (cases "i < 0")
  case True
  then have "int_dec j = CHR ''-'' # nat_dec (nat (- i))" using assms by (simp add: int_dec_def)
  then have "j < 0" and "nat_dec (nat (- i)) = nat_dec (nat (- j))" by (simp_all only: int_dec_sign)
  from nat_dec_inj [OF this(2)] True \<open>j < 0\<close> show ?thesis by linarith
next
  case False
  then have "\<not> j < 0" using assms int_dec_sign [of i] int_dec_sign [of j] by metis
  with False assms have "nat_dec (nat i) = nat_dec (nat j)" by (simp add: int_dec_def)
  then have "nat i = nat j" by (rule nat_dec_inj)
  with False \<open>\<not> j < 0\<close> show ?thesis by linarith
qed

lemma join_with_Nil: "list_all plain_part xs \<Longrightarrow> join_with '','' xs = [] \<longleftrightarrow> xs = []"
proof (cases xs)
  case (Cons x ys)
  assume "list_all plain_part xs"
  with Cons show ?thesis by (cases ys) (simp_all add: plain_part_def)
qed simp

lemma join_with_inj:
  assumes "list_all plain_part xs" and "list_all plain_part ys" and "join_with '','' xs = join_with '','' ys"
  shows "xs = ys"
proof (cases "xs = []")
  case True
  with assms show ?thesis using join_with_Nil [OF assms(2)] by simp
next
  case False
  with assms join_with_Nil have "ys \<noteq> []" by metis
  have "\<forall>w \<in> set xs. CHR '','' \<notin> set w" "\<forall>w \<in> set ys. CHR '','' \<notin> set w"
    using assms(1,2) by (auto simp: list_all_iff plain_part_def)
  with split_join [OF False] split_join [OF \<open>ys \<noteq> []\<close>] assms(3) show ?thesis by metis
qed

lemma join_with_plain: "list_all plain_part xs \<Longrightarrow> CHR '']'' \<notin> set (join_with '','' xs)"
proof (induction xs)
  case Nil
  then show ?case by simp
next
  case (Cons x xs)
  then show ?case by (cases xs) (simp_all add: plain_part_def)
qed

lemma append_first_sep:
  "c \<notin> set s \<Longrightarrow> c \<notin> set s' \<Longrightarrow> s @ c # t = s' @ c # t' \<Longrightarrow> s = s' \<and> t = t'"
proof (induction s arbitrary: s')
  case Nil
  then show ?case by (cases s') auto
next
  case (Cons x s)
  then show ?case by (cases s') auto
qed

lemma json_list_inj:
  assumes "list_all plain_part xs" and "list_all plain_part ys"
    and "json_list xs @ rest = json_list ys @ rest'"
  shows "xs = ys \<and> rest = rest'"
proof -
  from assms(3) have "join_with '','' xs @ CHR '']'' # rest = join_with '','' ys @ CHR '']'' # rest'"
    by (simp add: json_list_def)
  from append_first_sep [OF join_with_plain [OF assms(1)] join_with_plain [OF assms(2)] this]
  show ?thesis using join_with_inj [OF assms(1,2)] by blast
qed

lemma json_string_inj: "plain_id s \<Longrightarrow> plain_id t \<Longrightarrow> json_string s = json_string t \<Longrightarrow> s = t"
  by (simp add: json_string_plain)

lemma map_inj: "(\<And>x y. x \<in> set xs \<Longrightarrow> y \<in> set ys \<Longrightarrow> f x = f y \<Longrightarrow> x = y) \<Longrightarrow> map f xs = map f ys \<Longrightarrow> xs = ys"
  by (metis list.inj_map_strong)

lemma sort_eq_mset: "sort xs = sort ys \<longleftrightarrow> mset xs = mset ys"
  by (metis mset_sort sorted_list_of_multiset_mset)

abbreviation ids_of :: "container list \<Rightarrow> string multiset" where
  "ids_of cs \<equiv> mset (map ct_ID cs)"

abbreviation ports_of :: "container list \<Rightarrow> int multiset" where
  "ports_of cs \<equiv> mset (concat (map ct_Ports cs))"

lemma poll_data_eq_iff:
  assumes "list_all (\<lambda>c. plain_id (ct_ID c)) cs" and "list_all (\<lambda>c. plain_id (ct_ID c)) cs'"
  shows "poll_data cs = poll_data cs' \<longleftrightarrow> ids_of cs = ids_of cs' \<and> ports_of cs = ports_of cs'"
proof
  assume eq: "poll_data cs = poll_data cs'"
  have p: "list_all plain_id (sort (map ct_ID cs))" "list_all plain_id (sort (map ct_ID cs'))"
    using assms by (auto simp: list_all_iff)
  then have q: "list_all plain_part (map json_string (sort (map ct_ID cs)))"
    "list_all plain_part (map json_string (sort (map ct_ID cs')))"
    by (auto simp: list_all_iff plain_part_json)
  from json_list_inj [OF q] eq have 1: "map json_string (sort (map ct_ID cs)) = map json_string (sort (map ct_ID cs'))"
    and 2: "json_list (map int_dec (sort (concat (map ct_Ports cs)))) @ [] =
      json_list (map int_dec (sort (concat (map ct_Ports cs')))) @ []"
    by (auto simp: poll_data_def Let_def)
  have "sort (map ct_ID cs) = sort (map ct_ID cs')"
    by (rule map_inj [OF _ 1]) (use p json_string_inj in \<open>auto simp: list_all_iff\<close>)
  moreover have "map int_dec (sort (concat (map ct_Ports cs))) = map int_dec (sort (concat (map ct_Ports cs')))"
    using json_list_inj [OF _ _ 2] by (simp add: list_all_iff plain_part_int)
  then have "sort (concat (map ct_Ports cs)) = sort (concat (map ct_Ports cs'))"
    by (rule map_inj [rotated]) (rule int_dec_inj)
  ultimately show "ids_of cs = ids_of cs' \<and> ports_of cs = ports_of cs'"
    by (simp only: sort_eq_mset)
next
  assume "ids_of cs = ids_of cs' \<and> ports_of cs = ports_of cs'"
  then have "sort (map ct_ID cs) = sort (map ct_ID cs')" "sort (concat (map ct_Ports cs)) = sort (concat (map ct_Ports cs'))"
    by (simp_all only: sort_eq_mset)
  then show "poll_data cs = poll_data cs'" by (simp add: poll_data_def)
qed

lemma poll_tick_hash: "fst (poll_tick sha now (Inr cs) h) = sha (poll_data cs)"
  by (simp add: poll_tick_def Let_def)

text \<open>C37: between two polls, and barring a collision of the digests, the poller asks for
  a restart exactly when the multiset of container ids or the multiset of published ports has changed.
  A change that keeps both, such as two containers that exchange their ports, goes unnoticed.\<close>

theorem poll_detects_changes:
  assumes "list_all (\<lambda>c. plain_id (ct_ID c)) cs" and "list_all (\<lambda>c. plain_id (ct_ID c)) cs'"
    and "sha (poll_data cs') = sha (poll_data cs) \<Longrightarrow> poll_data cs' = poll_data cs"
  shows "snd (poll_tick sha now' (Inr cs') (fst (poll_tick sha now (Inr cs) h))) \<noteq> None
    \<longleftrightarrow> ids_of cs' \<noteq> ids_of cs \<or> ports_of cs' \<noteq> ports_of cs"
proof -
  have "snd (poll_tick sha now' (Inr cs') (sha (poll_data cs))) \<noteq> None \<longleftrightarrow> poll_data cs' \<noteq> poll_data cs"
    using assms(3) by (auto simp: poll_tick_def Let_def)
  then show ?thesis
    by (simp add: poll_tick_hash poll_data_eq_iff [OF assms(2,1)])
qed

theorem poll_detects_changes_witness:
  "snd (poll_tick (\<lambda>s. s) 2 (Inr [(proxy_named ''aa'')\<lparr>ct_Ports := [81]\<rparr>, (proxy_named ''bb'')\<lparr>ct_Ports := [80]\<rparr>])
      (fst (poll_tick (\<lambda>s. s) 1 (Inr [(proxy_named ''aa'')\<lparr>ct_Ports := [80]\<rparr>, (proxy_named ''bb'')\<lparr>ct_Ports := [81]\<rparr>]) [])))
    = None"
proof -
  let ?cs = "[(proxy_named ''aa'')\<lparr>ct_Ports := [80]\<rparr>, (proxy_named ''bb'')\<lparr>ct_Ports := [81]\<rparr>]"
  let ?cs' = "[(proxy_named ''aa'')\<lparr>ct_Ports := [81]\<rparr>, (proxy_named ''bb'')\<lparr>ct_Ports := [80]\<rparr>]"
  have "list_all (\<lambda>c. plain_id (ct_ID c)) ?cs" "list_all (\<lambda>c. plain_id (ct_ID c)) ?cs'" by code_simp+
  from poll_detects_changes [OF this, of "\<lambda>s. s" 2 1 "[]"] show ?thesis
    by (simp add: proxy_named_def add_mset_commute)
qed

end
