(* ===== verification/Multi_Balancer.thy ===== *)
theory Multi_Balancer
  imports Reload_Machine Server
begin

text \<open>
  Several load balancers in one process (\<open>ext/lb/lb.go\<close>). A server whose configuration names both an
  \<open>haproxy\<close> and an \<open>nginx\<close> extension calls \<open>NewLoadBalancer\<close> for each. The cache, the backend and the
  goroutines belong to the load balancer, but the channel between its cache and its update handler is
  the package's variable \<open>lbUpdateChan\<close>, which every call makes anew. The callback of a cache reads the
  variable when it sends; the update handler reads it once, when its goroutine gets to
  \<open>for range lbUpdateChan\<close>.

  Channels are numbered in the order in which they are made; 0 is the nil channel. As in
  \<open>Reload_Machine\<close>, each step is an action of one goroutine or the passing of time, in any interleaving.
\<close>

record mb_balancer =
  mb_cache :: ttl_cache
  mb_sending :: "nat option"
  mb_ranging :: "nat option"
  mb_handler :: rl_handler
  mb_dirty :: bool
  mb_requested :: int

record mb_state =
  mb_now :: int
  mb_lbUpdateChan :: nat
  mb_lbs :: "mb_balancer list"

text \<open>
  \<open>New\<close> is a call of \<open>NewLoadBalancer\<close> that succeeds, \<open>NewFailed\<close> one that fails after it made the channel;
  \<open>Bind j\<close> is the first evaluation of the range in the update handler of the balancer \<open>j\<close>;
  \<open>MDeliver i j\<close> the rendezvous between the cache of \<open>i\<close> and the update handler of \<open>j\<close>.
\<close>

datatype mb_label = MTick nat | New | NewFailed | Bind nat | MRequest nat | MReap nat
  | MDeliver nat nat | MSkip nat | MStart nat | MFinish nat

definition mb_init :: mb_state where
  "mb_init = \<lparr>mb_now = 0, mb_lbUpdateChan = 0, mb_lbs = []\<rparr>"

definition mb_new :: mb_balancer where
  "mb_new = \<lparr>mb_cache = \<lparr>tc_data = [], tc_ttl = ReloadThreshold\<rparr>, mb_sending = None, mb_ranging = None,
     mb_handler = Waiting, mb_dirty = False, mb_requested = - ReloadThreshold\<rparr>"

definition mb_pending :: "mb_balancer \<Rightarrow> bool" where
  "mb_pending b = ttl_Get (mb_cache b) ''reload''"

definition mb_at :: "nat \<Rightarrow> (mb_balancer \<Rightarrow> mb_balancer) \<Rightarrow> mb_state \<Rightarrow> mb_state" where
  "mb_at i f s = s\<lparr>mb_lbs := (mb_lbs s)[i := f (mb_lbs s ! i)]\<rparr>"

fun mb_do :: "mb_label \<Rightarrow> mb_state \<Rightarrow> mb_state option" where
  "mb_do (MTick d) s = Some (s\<lparr>mb_now := mb_now s + int d\<rparr>)"
| "mb_do New s = Some (s\<lparr>mb_lbUpdateChan := Suc (mb_lbUpdateChan s), mb_lbs := mb_lbs s @ [mb_new]\<rparr>)"
| "mb_do NewFailed s = Some (s\<lparr>mb_lbUpdateChan := Suc (mb_lbUpdateChan s)\<rparr>)"
| "mb_do (Bind j) s =
     (if j < length (mb_lbs s) \<and> mb_ranging (mb_lbs s ! j) = None
      then Some (mb_at j (\<lambda>b. b\<lparr>mb_ranging := Some (mb_lbUpdateChan s)\<rparr>) s) else None)"
| "mb_do (MRequest i) s =
     (if i < length (mb_lbs s)
      then Some (mb_at i (\<lambda>b. b\<lparr>mb_cache := ttl_Set ''reload'' (mb_now s) (mb_cache b), mb_dirty := True,
        mb_requested := mb_now s\<rparr>) s) else None)"
| "mb_do (MReap i) s =
     (if i < length (mb_lbs s) \<and> mb_sending (mb_lbs s ! i) = None
        \<and> ''reload'' \<in> set (ttl_reaped (mb_now s) (mb_cache (mb_lbs s ! i)))
      then Some (mb_at i (\<lambda>b. b\<lparr>mb_cache := ttl_reap (mb_now s) (mb_cache b),
        mb_sending := Some (mb_lbUpdateChan s)\<rparr>) s) else None)"
| "mb_do (MDeliver i j) s =
     (if i < length (mb_lbs s) \<and> j < length (mb_lbs s) \<and> mb_sending (mb_lbs s ! i) \<noteq> None
        \<and> mb_sending (mb_lbs s ! i) = mb_ranging (mb_lbs s ! j) \<and> mb_handler (mb_lbs s ! j) = Waiting
      then Some (mb_at j (\<lambda>b. b\<lparr>mb_handler := Checking\<rparr>) (mb_at i (\<lambda>b. b\<lparr>mb_sending := None\<rparr>) s))
      else None)"
| "mb_do (MSkip j) s =
     (if j < length (mb_lbs s) \<and> mb_handler (mb_lbs s ! j) = Checking \<and> mb_pending (mb_lbs s ! j)
      then Some (mb_at j (\<lambda>b. b\<lparr>mb_handler := Waiting\<rparr>) s) else None)"
| "mb_do (MStart j) s =
     (if j < length (mb_lbs s) \<and> mb_handler (mb_lbs s ! j) = Checking \<and> \<not> mb_pending (mb_lbs s ! j)
      then Some (mb_at j (\<lambda>b. b\<lparr>mb_handler := Updating, mb_dirty := False\<rparr>) s) else None)"
| "mb_do (MFinish j) s =
     (if j < length (mb_lbs s) \<and> mb_handler (mb_lbs s ! j) = Updating
      then Some (mb_at j (\<lambda>b. b\<lparr>mb_handler := Waiting\<rparr>) s) else None)"

inductive mb_run :: "mb_label list \<Rightarrow> mb_state \<Rightarrow> bool" where
  mb_start: "mb_run [] mb_init"
| mb_step: "mb_run ls s \<Longrightarrow> mb_do l s = Some s' \<Longrightarrow> mb_run (ls @ [l]) s'"

fun mb_path :: "mb_label list \<Rightarrow> mb_state \<Rightarrow> mb_state option" where
  "mb_path [] s = Some s"
| "mb_path (l # ls) s = (case mb_do l s of None \<Rightarrow> None | Some s' \<Rightarrow> mb_path ls s')"

lemma mb_path_run: "mb_path ls' s = Some s' \<Longrightarrow> mb_run ls s \<Longrightarrow> mb_run (ls @ ls') s'"
proof (induction ls' arbitrary: ls s)
  case Nil
  then show ?case by simp
next
  case (Cons l ls')
  then obtain t where t: "mb_do l s = Some t" "mb_path ls' t = Some s'" by (auto split: option.splits)
  from mb_step [OF Cons.prems(2) t(1)] Cons.IH [OF t(2)] show ?case by fastforce
qed

lemma mb_path_init: "mb_path ls mb_init = Some s \<Longrightarrow> mb_run ls s"
  using mb_path_run [OF _ mb_start] by simp

lemma mb_at_simps [simp]:
  "mb_now (mb_at i f s) = mb_now s" "mb_lbUpdateChan (mb_at i f s) = mb_lbUpdateChan s"
  "length (mb_lbs (mb_at i f s)) = length (mb_lbs s)"
  "j < length (mb_lbs s) \<Longrightarrow> mb_lbs (mb_at i f s) ! j = (if j = i then f (mb_lbs s ! j) else mb_lbs s ! j)"
  by (simp_all add: mb_at_def)

section \<open>The calls that the server makes\<close>

text \<open>
  What \<open>loadExtensions\<close> does to the channel for an entry of the configuration. Every error of
  \<open>NewLoadBalancer\<close> comes after the channel was made, as with a name like \<open>Nginx\<close>, which the server takes
  for a load balancer and the load balancer does not know.
\<close>

definition balancer_call :: "load_env \<Rightarrow> ext_config \<Rightarrow> mb_label list" where
  "balancer_call v x =
     (if strings_ToLower (Name x) \<in> {''haproxy'', ''nginx''} then
        (case NewLoadBalancer (le_IsNotExist v) (le_ContainerID v) (le_backend v) x of
           Panic p \<Rightarrow> [] | Err err \<Rightarrow> [NewFailed] | Ok l \<Rightarrow> [New])
      else [])"

definition balancer_calls :: "load_env \<Rightarrow> config \<Rightarrow> mb_label list" where
  "balancer_calls v cfg = concat (map (balancer_call v) (Extensions cfg))"

definition is_balancer :: "extension \<Rightarrow> bool" where
  "is_balancer e = (case e of LBExtension l \<Rightarrow> True | BeaconExtension b \<Rightarrow> False)"

lemma balancer_call_loaded:
  "load_extension v m x = Ok e \<Longrightarrow>
    count_list (balancer_call v x) New = length (filter is_balancer (case e of None \<Rightarrow> [] | Some e \<Rightarrow> [e]))"
  by (auto simp: load_extension_def balancer_call_def is_balancer_def split: if_splits res.splits)

lemma load_loop_calls:
  "load_loop v m xs = Ok es \<Longrightarrow>
    count_list (concat (map (balancer_call v) xs)) New = length (filter is_balancer es)"
proof (induction xs arbitrary: es)
  case Nil
  then show ?case by simp
next
  case (Cons x xs)
  then obtain e es' where "load_extension v m x = Ok e" "load_loop v m xs = Ok es'"
    "es = (case e of None \<Rightarrow> [] | Some e \<Rightarrow> [e]) @ es'" by (auto simp: go_res)
  with Cons.IH balancer_call_loaded show ?case by fastforce
qed

lemma balancer_calls_loaded:
  "loadExtensions v cfg = Ok es \<Longrightarrow> count_list (balancer_calls v cfg) New = length (filter is_balancer es)"
  by (simp add: loadExtensions_def balancer_calls_def load_loop_calls)

primrec is_call :: "mb_label \<Rightarrow> bool" where
  "is_call (MTick d) = False"
| "is_call New = True"
| "is_call NewFailed = True"
| "is_call (Bind j) = False"
| "is_call (MRequest i) = False"
| "is_call (MReap i) = False"
| "is_call (MDeliver i j) = False"
| "is_call (MSkip j) = False"
| "is_call (MStart j) = False"
| "is_call (MFinish j) = False"

text \<open>A run of the process of a server: its calls are those of the configuration, as far as it has come.\<close>

definition server_run :: "load_env \<Rightarrow> config \<Rightarrow> mb_label list \<Rightarrow> mb_state \<Rightarrow> bool" where
  "server_run v cfg ls s \<longleftrightarrow> mb_run ls s \<and> prefix (filter is_call ls) (balancer_calls v cfg)"

lemma count_calls: "count_list (filter is_call ls) New = count_list ls New"
  by (induction ls) auto

lemma server_run_balancers:
  assumes "server_run v cfg ls s" and "loadExtensions v cfg = Ok es"
  shows "count_list ls New \<le> length (filter is_balancer es)"
proof -
  obtain rest where "balancer_calls v cfg = filter is_call ls @ rest"
    using assms(1) by (auto simp: server_run_def prefix_def)
  from arg_cong [OF this, of "\<lambda>ls. count_list ls New"] show ?thesis
    unfolding balancer_calls_loaded [OF assms(2)] by (simp add: count_calls)
qed

section \<open>One load balancer\<close>

text \<open>With one load balancer, the process is the machine of \<open>Reload_Machine\<close>.\<close>

fun mb_action :: "mb_label \<Rightarrow> rl_label list" where
  "mb_action (MTick d) = [Tick d]"
| "mb_action New = []"
| "mb_action NewFailed = []"
| "mb_action (Bind j) = []"
| "mb_action (MRequest i) = [Request]"
| "mb_action (MReap i) = [Reap]"
| "mb_action (MDeliver i j) = [Deliver]"
| "mb_action (MSkip j) = [Skip]"
| "mb_action (MStart j) = [Start]"
| "mb_action (MFinish j) = [Finish]"

definition mb_abs :: "mb_state \<Rightarrow> rl_state" where
  "mb_abs s = (case mb_lbs s of
     [] \<Rightarrow> rl_init\<lparr>rl_now := mb_now s\<rparr>
   | b # _ \<Rightarrow> \<lparr>rl_now = mb_now s, rl_cache = mb_cache b, rl_sending = (mb_sending b \<noteq> None),
       rl_handler = mb_handler b, rl_dirty = mb_dirty b, rl_requested = mb_requested b\<rparr>)"

lemma mb_abs_step:
  assumes "mb_do l s = Some s'" and "length (mb_lbs s') \<le> 1"
  shows "rl_path (mb_action l) (mb_abs s) = Some (mb_abs s')"
proof (cases "mb_lbs s")
  case Nil
  with assms show ?thesis
    by (cases l) (auto simp: mb_abs_def mb_new_def rl_init_def split: if_splits)
next
  case (Cons b bs)
  have "length (mb_lbs s) \<le> length (mb_lbs s')" using assms(1) by (cases l) (auto split: if_splits)
  with Cons assms(2) have s: "mb_lbs s = [b]" by (cases bs) simp_all
  show ?thesis
    using assms s
    by (cases l) (auto simp: mb_abs_def mb_at_def mb_pending_def rl_pending_def split: if_splits)
qed

lemma mb_lbs_mono: "mb_do l s = Some s' \<Longrightarrow> length (mb_lbs s') = length (mb_lbs s) + of_bool (l = New)"
  by (cases l) (auto split: if_splits)

lemma mb_lbs_count: "mb_run ls s \<Longrightarrow> length (mb_lbs s) = count_list ls New"
  by (induction rule: mb_run.induct) (auto simp: mb_init_def mb_lbs_mono)

lemma mb_abs_run: "mb_run ls s \<Longrightarrow> length (mb_lbs s) \<le> 1 \<Longrightarrow> rl_run (concat (map mb_action ls)) (mb_abs s)"
proof (induction rule: mb_run.induct)
  case mb_start
  have "mb_abs mb_init = rl_init" by (simp add: mb_abs_def mb_init_def rl_init_def)
  then show ?case by (simp add: rl_run.rl_start)
next
  case (mb_step ls s l s')
  with mb_lbs_mono [OF mb_step.hyps(2)] have "rl_run (concat (map mb_action ls)) (mb_abs s)" by simp
  from rl_path_run [OF mb_abs_step [OF mb_step.hyps(2) mb_step.prems] this] show ?case by simp
qed


definition one_trace :: "mb_label list" where
  "one_trace = [MTick 5, New, MRequest 0, MTick 2000, MReap 0, NewFailed, Bind 0]"

definition entry :: "string \<Rightarrow> ext_config" where
  "entry name = SetConfigDefaults (zero_ext_config\<lparr>Name := name\<rparr>)"

definition two_entries :: "string \<Rightarrow> string \<Rightarrow> config" where
  "two_entries a b = \<lparr>ListenAddr = '':8080'', DockerURL = [], TLSCACert = [], TLSCert = [], TLSKey = [],
     AllowInsecure = False, EnableMetrics = True, PollInterval = [], Extensions = [entry a, entry b], cfg_Rules = []\<rparr>"

lemma entry_fields [simp]: "Name (entry name) = name" "TemplatePath (entry name) = []"
  by (simp_all add: entry_def set_defaults zero_ext_config_def)

lemma two_entries_calls:
  assumes "le_ContainerID v = Ok cid"
  shows "balancer_calls v (two_entries ''haproxy'' ''nginx'') = [New, New]"
    and "balancer_calls v (two_entries ''haproxy'' ''Nginx'') = [New, NewFailed]"
    and "\<exists>l. loadExtensions v (two_entries ''haproxy'' ''Nginx'') = Ok [LBExtension l]"
proof -
  have low: "strings_ToLower ''Nginx'' = ''nginx''" by code_simp
  note parts = NewLoadBalancer_def ttl_New_def ReloadThreshold_def select_backend_def NewHAProxyLoadBalancer_def
    NewNginxLoadBalancer_def Let_def assms
  show "balancer_calls v (two_entries ''haproxy'' ''nginx'') = [New, New]"
    and "balancer_calls v (two_entries ''haproxy'' ''Nginx'') = [New, NewFailed]"
    and "\<exists>l. loadExtensions v (two_entries ''haproxy'' ''Nginx'') = Ok [LBExtension l]"
    by (simp_all add: balancer_calls_def balancer_call_def two_entries_def low parts loadExtensions_def load_extension_def)
qed


section \<open>Any number of load balancers\<close>

text \<open>What each load balancer keeps on its own.\<close>

definition mb_inv :: "int \<Rightarrow> mb_balancer \<Rightarrow> bool" where
  "mb_inv now b \<longleftrightarrow> ttl_ok (mb_cache b) \<and> tc_ttl (mb_cache b) = ReloadThreshold
    \<and> (\<forall>t. ttl_updated (mb_cache b) ''reload'' = Some t \<longrightarrow> t = mb_requested b)
    \<and> (\<not> mb_pending b \<longrightarrow> now - mb_requested b \<ge> ReloadThreshold)
    \<and> mb_requested b \<le> now"

lemma mb_pending_updated: "mb_pending b \<longleftrightarrow> ttl_updated (mb_cache b) ''reload'' \<noteq> None"
  by (simp add: mb_pending_def ttl_Get_updated)

lemma mb_inv_Tick: "mb_inv now b \<Longrightarrow> mb_inv (now + int d) b"
  by (auto simp: mb_inv_def)

lemma mb_inv_new: "0 \<le> now \<Longrightarrow> mb_inv now mb_new"
  by (simp add: mb_inv_def mb_new_def ttl_ok_def ttl_updated_def mb_pending_updated ReloadThreshold_def)

lemma mb_inv_Set:
  "mb_inv now b \<Longrightarrow> mb_inv now (b\<lparr>mb_cache := ttl_Set ''reload'' now (mb_cache b), mb_dirty := x, mb_requested := now\<rparr>)"
  by (simp add: mb_inv_def mb_pending_updated tc.updated_put tc.ok_put tc.period_put)

lemma mb_inv_reap:
  assumes "mb_inv now b" and "''reload'' \<in> set (ttl_reaped now (mb_cache b))"
  shows "mb_inv now (b\<lparr>mb_cache := ttl_reap now (mb_cache b)\<rparr>)"
proof -
  from assms have ok: "ttl_ok (mb_cache b)" by (simp add: mb_inv_def)
  from assms tc.reaped_gone [OF ok assms(2)] show ?thesis
    by (auto simp: mb_inv_def mb_pending_updated tc.ok_reap tc.period_reap tc.reaped_iff)
qed

lemma mb_inv_other [simp]:
  "mb_inv now (b\<lparr>mb_sending := c\<rparr>) = mb_inv now b" "mb_inv now (b\<lparr>mb_ranging := c\<rparr>) = mb_inv now b"
  "mb_inv now (b\<lparr>mb_handler := h\<rparr>) = mb_inv now b"
  "mb_inv now (b\<lparr>mb_handler := h, mb_dirty := x\<rparr>) = mb_inv now b"
  by (simp_all add: mb_inv_def mb_pending_def)

lemma mb_inv_step:
  assumes "0 \<le> mb_now s \<and> list_all (mb_inv (mb_now s)) (mb_lbs s)" and "mb_do l s = Some s'"
  shows "0 \<le> mb_now s' \<and> list_all (mb_inv (mb_now s')) (mb_lbs s')"
  using assms
  by (cases l) (auto simp: list_all_length mb_inv_Tick mb_inv_new mb_inv_Set mb_inv_reap nth_append
      less_Suc_eq split: if_splits)

lemma mb_run_inv: "mb_run ls s \<Longrightarrow> 0 \<le> mb_now s \<and> list_all (mb_inv (mb_now s)) (mb_lbs s)"
proof (induction rule: mb_run.induct)
  case mb_start
  then show ?case by (simp add: mb_init_def)
qed (rule mb_inv_step)


definition both_trace :: "mb_label list" where
  "both_trace = [New, New, Bind 1, Bind 0, MTick 700, MRequest 0, MRequest 1, MTick 2300, MReap 0,
     MReap 1, MDeliver 0 1]"



section \<open>A balancer whose channel was replaced\<close>

definition mb_stranded :: "nat \<Rightarrow> nat \<Rightarrow> mb_state \<Rightarrow> bool" where
  "mb_stranded j c s \<longleftrightarrow> j < length (mb_lbs s) \<and> c < mb_lbUpdateChan s
    \<and> mb_ranging (mb_lbs s ! j) = Some c \<and> mb_handler (mb_lbs s ! j) = Waiting
    \<and> list_all (\<lambda>b. mb_sending b \<noteq> Some c) (mb_lbs s)"

lemma mb_stranded_step:
  assumes "mb_stranded j c s" and "mb_do l s = Some s'"
  shows "mb_stranded j c s' \<and> l \<noteq> MStart j
    \<and> mb_dirty (mb_lbs s' ! j) = (mb_dirty (mb_lbs s ! j) \<or> l = MRequest j)"
  using assms
  by (cases l) (auto simp: mb_stranded_def list_all_length mb_new_def nth_append less_Suc_eq split: if_splits)

lemma mb_stranded_path:
  "mb_path ls s = Some s' \<Longrightarrow> mb_stranded j c s \<Longrightarrow>
    mb_stranded j c s' \<and> MStart j \<notin> set ls
    \<and> mb_dirty (mb_lbs s' ! j) = (mb_dirty (mb_lbs s ! j) \<or> MRequest j \<in> set ls)"
proof (induction ls arbitrary: s)
  case Nil
  then show ?case by simp
next
  case (Cons l ls)
  then obtain t where t: "mb_do l s = Some t" "mb_path ls t = Some s'" by (auto split: option.splits)
  from mb_stranded_step [OF Cons.prems(2) t(1)] Cons.IH [OF t(2)] show ?case by auto
qed

lemma mb_path_snoc:
  "mb_path ls s = Some t \<Longrightarrow> mb_do l t = Some u \<Longrightarrow> mb_path (ls @ [l]) s = Some u"
  by (induction ls arbitrary: s) (auto split: option.splits)

lemma mb_run_split: "mb_run ks s \<Longrightarrow> ks = ls @ ls' \<Longrightarrow> \<exists>t. mb_run ls t \<and> mb_path ls' t = Some s"
proof (induction arbitrary: ls' rule: mb_run.induct)
  case mb_start
  then show ?case by (auto intro: mb_run.mb_start)
next
  case (mb_step ks s l s')
  show ?case
  proof (cases ls' rule: rev_exhaust)
    case Nil
    with mb_step mb_run.mb_step [OF mb_step.hyps] show ?thesis by auto
  next
    case (snoc ls'' l')
    with mb_step.prems have "ks = ls @ ls''" "l' = l" by simp_all
    from mb_step.IH [OF this(1)] this(2) mb_step.hyps(2) snoc mb_path_snoc show ?thesis by blast
  qed
qed

text \<open>Before the first request, nothing is under way; and a bound handler has a channel that was made.\<close>

definition mb_idle :: "mb_balancer \<Rightarrow> bool" where
  "mb_idle b \<longleftrightarrow> tc_data (mb_cache b) = [] \<and> mb_sending b = None \<and> mb_handler b = Waiting"

lemma mb_idle_new [simp]: "mb_idle mb_new"
  by (simp add: mb_idle_def mb_new_def)

lemma mb_idle_step:
  "mb_do l s = Some s' \<Longrightarrow> list_all mb_idle (mb_lbs s) \<Longrightarrow> (\<And>i. l \<noteq> MRequest i) \<Longrightarrow>
    list_all mb_idle (mb_lbs s') \<and> (\<forall>j. l \<noteq> MStart j)"
  by (cases l) (auto simp: list_all_length mb_idle_def ttl_reaped_def mb_new_def nth_append less_Suc_eq
      split: if_splits)

lemma mb_idle_run: "mb_run ls s \<Longrightarrow> \<forall>i. MRequest i \<notin> set ls \<Longrightarrow> list_all mb_idle (mb_lbs s)"
proof (induction rule: mb_run.induct)
  case mb_start
  then show ?case by (simp add: mb_init_def)
next
  case (mb_step ls s l s')
  then show ?case using mb_idle_step [OF mb_step.hyps(2)] by auto
qed

lemma mb_idle_start: "mb_run ls s \<Longrightarrow> \<forall>i. MRequest i \<notin> set ls \<Longrightarrow> MStart j \<notin> set ls"
proof (induction rule: mb_run.induct)
  case (mb_step ls s l s')
  then show ?case using mb_idle_step [OF mb_step.hyps(2)] mb_idle_run [OF mb_step.hyps(1)] by auto
qed simp

lemma mb_bound_step:
  "mb_do l s = Some s' \<Longrightarrow> j < length (mb_lbs s) \<Longrightarrow> mb_ranging (mb_lbs s ! j) = Some c \<Longrightarrow>
    c \<le> mb_lbUpdateChan s \<Longrightarrow>
    j < length (mb_lbs s') \<and> mb_ranging (mb_lbs s' ! j) = Some c \<and> c \<le> mb_lbUpdateChan s'"
  by (cases l) (auto simp: nth_append split: if_splits)

lemma mb_bound_run:
  "mb_run ls s \<Longrightarrow> Bind j \<in> set ls \<Longrightarrow>
    \<exists>c. j < length (mb_lbs s) \<and> mb_ranging (mb_lbs s ! j) = Some c \<and> c \<le> mb_lbUpdateChan s"
proof (induction rule: mb_run.induct)
  case mb_start
  then show ?case by simp
next
  case (mb_step ls s l s')
  show ?case
  proof (cases "l = Bind j")
    case True
    with mb_step.hyps(2) show ?thesis by (auto split: if_splits)
  next
    case False
    with mb_step mb_bound_step [OF mb_step.hyps(2)] show ?thesis by fastforce
  qed
qed

text \<open>C13: when the update handler of a load balancer is already waiting on
  its channel as \<open>NewLoadBalancer\<close> is called for a further entry of the configuration, before the first
  event, it never starts an update, whether that call succeeds or fails: whatever is requested of it
  later, in any interleaving, stays undone.\<close>

theorem replaced_channel_never_updates:
  assumes "mb_run (ls @ l # ls') s" and "is_call l" and "Bind j \<in> set ls" and "\<forall>i. MRequest i \<notin> set ls"
  shows "MStart j \<notin> set (ls @ l # ls') \<and> (MRequest j \<in> set ls' \<longrightarrow> mb_dirty (mb_lbs s ! j))"
proof -
  obtain r where r: "mb_run ls r" "mb_path (l # ls') r = Some s"
    using mb_run_split [OF assms(1) refl] by blast
  obtain t where t: "mb_do l r = Some t" "mb_path ls' t = Some s"
    using r(2) by (auto split: option.splits)
  from mb_bound_run [OF r(1) assms(3)] obtain c where
    c: "j < length (mb_lbs r)" "mb_ranging (mb_lbs r ! j) = Some c" "c \<le> mb_lbUpdateChan r" by blast
  with mb_idle_run [OF r(1) assms(4)] t(1) assms(2) have "mb_stranded j c t"
    by (cases l) (auto simp: mb_stranded_def list_all_length mb_idle_def nth_append mb_new_def less_Suc_eq)
  from mb_stranded_path [OF t(2) this] mb_idle_start [OF r(1) assms(4)] assms(2) show ?thesis by auto
qed

definition stranded_trace :: "mb_label list" where
  "stranded_trace = [MRequest 0, MTick 2000, MReap 0]"

text \<open>With the entries \<open>haproxy\<close> and \<open>Nginx\<close>, the second of which is refused, this is how the first ends.\<close>

theorem replaced_channel_never_updates_witness:
  "\<exists>s. server_run sample_load_env (two_entries ''haproxy'' ''Nginx'') ([New, Bind 0] @ NewFailed # stranded_trace) s
    \<and> mb_sending (mb_lbs s ! 0) \<noteq> None \<and> mb_dirty (mb_lbs s ! 0)"
proof -
  let ?ls = "[New, Bind 0] @ NewFailed # stranded_trace"
  have "case mb_path ?ls mb_init of None \<Rightarrow> False | Some s \<Rightarrow> mb_sending (mb_lbs s ! 0) \<noteq> None" by code_simp
  then obtain s where s: "mb_path ?ls mb_init = Some s" and sending: "mb_sending (mb_lbs s ! 0) \<noteq> None"
    by (auto split: option.splits)
  from mb_path_init [OF s] have r: "mb_run ?ls s" .
  have "filter is_call ?ls = [New, NewFailed]" by code_simp
  moreover have "le_ContainerID sample_load_env = Ok ''nodeA''" by (simp add: sample_load_env_def)
  ultimately have server: "server_run sample_load_env (two_entries ''haproxy'' ''Nginx'') ?ls s"
    using r two_entries_calls(2) by (simp add: server_run_def)
  have "Bind 0 \<in> set [New, Bind 0]" "\<forall>i. MRequest i \<notin> set [New, Bind 0]" "is_call NewFailed"
    "MRequest 0 \<in> set stranded_trace" by (simp_all add: stranded_trace_def)
  from replaced_channel_never_updates [OF r this(3,1,2)] this(4) server sending show ?thesis by blast
qed

section \<open>Balancers that share a channel\<close>

text \<open>Without a request and without anything under way, no update starts.\<close>

lemma mb_idle_path:
  "mb_path ls s = Some s' \<Longrightarrow> list_all mb_idle (mb_lbs s) \<Longrightarrow> \<forall>i. MRequest i \<notin> set ls \<Longrightarrow> MStart j \<notin> set ls"
proof (induction ls arbitrary: s)
  case Nil
  then show ?case by simp
next
  case (Cons l ls)
  then obtain t where t: "mb_do l s = Some t" "mb_path ls t = Some s'" by (auto split: option.splits)
  with Cons mb_idle_step [OF t(1)] show ?case by auto
qed

definition stolen_trace :: "nat \<Rightarrow> mb_label list" where
  "stolen_trace d = [New, New, Bind 0, Bind 1, MRequest 0, MRequest 1, MTick (2000 + d), MReap 0, MReap 1,
     MDeliver 0 1, MStart 1, MFinish 1, MDeliver 1 1, MStart 1, MFinish 1]"

text \<open>C14: in a server with two load balancers, when both update handlers wait
  on the same channel, the one of the second load balancer can take the signals of both caches. It then
  updates twice and the first load balancer not at all, and nothing is left under way that could make up
  for it: however the process goes on without a further event, no update of the first starts.\<close>

theorem shared_channel_loses_request:
  assumes "balancer_calls v cfg = [New, New]" and "\<forall>i. MRequest i \<notin> set ls'"
  shows "\<exists>s. server_run v cfg (stolen_trace d) s \<and> count_list (stolen_trace d) (MStart 1) = 2
    \<and> mb_dirty (mb_lbs s ! 0) \<and> (mb_path ls' s \<noteq> None \<longrightarrow> MStart 0 \<notin> set (stolen_trace d @ ls'))"
proof -
  let ?b = "mb_new\<lparr>mb_ranging := Some 2, mb_requested := 0\<rparr>"
  let ?s = "\<lparr>mb_now = 2000 + int d, mb_lbUpdateChan = 2, mb_lbs = [?b\<lparr>mb_dirty := True\<rparr>, ?b]\<rparr>"
  have s: "mb_path (stolen_trace d) mb_init = Some ?s"
    by (simp add: stolen_trace_def mb_init_def mb_at_def mb_new_def mb_pending_def ttl_Get_def ttl_Set_def
        ttl_reap_def ttl_reaped_def ReloadThreshold_def gm_has_def)
  have "filter is_call (stolen_trace d) = [New, New]" by (simp add: stolen_trace_def)
  then have r: "server_run v cfg (stolen_trace d) ?s" using mb_path_init [OF s] assms(1) by (simp add: server_run_def)
  have "list_all mb_idle (mb_lbs ?s)" by (simp add: mb_idle_def mb_new_def)
  then have "MStart 0 \<notin> set ls'" if "mb_path ls' ?s \<noteq> None"
    using that assms(2) mb_idle_path by blast
  with r show ?thesis by (intro exI [of _ ?s]) (simp add: stolen_trace_def)
qed

theorem shared_channel_loses_request_witness:
  "\<exists>s. server_run sample_load_env (two_entries ''haproxy'' ''nginx'') (stolen_trace 0) s \<and> mb_dirty (mb_lbs s ! 0)
    \<and> MStart 0 \<notin> set (stolen_trace 0 @ [])"
proof -
  have cid: "le_ContainerID sample_load_env = Ok ''nodeA''" by (simp add: sample_load_env_def)
  have "\<forall>i. MRequest i \<notin> set []" by simp
  from shared_channel_loses_request [OF two_entries_calls(1) [OF cid] this, of 0] show ?thesis
    by (elim exE conjE) (intro exI conjI; simp)
qed

end
