(* ===== verification/Docker_Client.thy ===== *)
theory Docker_Client
  imports Ext_Config Go_Path
begin

text \<open>
  \<open>client/dockerclient.go\<close> and \<open>version/version.go\<close>: the client of the Docker engine that the program
  builds from its configuration and the environment. The engine's client package, the parser of key pairs
  and the file system are arguments. A certificate pool is the list of what was appended to it.

  \<open>log.Fatal\<close> ends the process, as a panic does; both are a \<open>Panic\<close> of the model.
\<close>

text \<open>An error that ends the process, with a prefix of the message.\<close>

definition or_fatal :: "string \<Rightarrow> 'a answer \<Rightarrow> 'a res" where
  "or_fatal p a = (case a of Inl err \<Rightarrow> Panic (p @ err) | Inr x \<Rightarrow> Ok x)"

lemma or_fatal_simps [simp]: "or_fatal p (Inl err) = Panic (p @ err)" "or_fatal p (Inr x) = Ok x"
  by (simp_all add: or_fatal_def)

section \<open>Version\<close>

definition Version :: string where "Version = ''1.4.0''"

text \<open>The build system may overwrite the other two parts.\<close>

definition Build :: string where "Build = ''-dev''"

definition GitCommit :: string where "GitCommit = ''HEAD''"

definition FullVersion :: string where
  "FullVersion = Version @ Build @ '' ('' @ GitCommit @ '')''"

section \<open>TLS\<close>

type_synonym key_pair = "string \<times> string"

record tls_config =
  InsecureSkipVerify :: bool
  RootCAs :: "string list"
  Certificates :: "key_pair list"

text \<open>The configuration is returned also with an error.\<close>

definition GetTLSConfig ::
  "(string \<Rightarrow> string \<Rightarrow> key_pair answer) \<Rightarrow> string \<Rightarrow> string \<Rightarrow> string \<Rightarrow> bool \<Rightarrow> tls_config \<times> error" where
  "GetTLSConfig X509KeyPair caCert cert key allowInsecure =
     (let tlsConfig = \<lparr>InsecureSkipVerify = True, RootCAs = [caCert], Certificates = []\<rparr>
      in case X509KeyPair cert key of
           Inl err \<Rightarrow> (tlsConfig, Some err)
         | Inr keypair \<Rightarrow>
             (let tlsConfig = tlsConfig\<lparr>Certificates := [keypair]\<rparr>;
                  tlsConfig = (if allowInsecure then tlsConfig\<lparr>InsecureSkipVerify := True\<rparr> else tlsConfig)
              in (tlsConfig, None)))"

section \<open>The client\<close>

definition apiVersion :: string where "apiVersion = ''1.21''"

record http_client =
  TLSClientConfig :: tls_config

text \<open>
  The environment, the files, the key pairs, and the client package: \<open>NewClient\<close> gets the address, the
  API version, the HTTP client if there is one, and the headers.
\<close>

record 'c client_env =
  os_Getenv :: "string \<Rightarrow> string"
  ReadFile :: "string \<Rightarrow> string answer"
  X509KeyPair :: "string \<Rightarrow> string \<Rightarrow> key_pair answer"
  NewClient :: "string \<Rightarrow> string \<Rightarrow> http_client option \<Rightarrow> (string, string) gomap \<Rightarrow> 'c answer"

text \<open>The files that are used, after the environment was looked at.\<close>

definition tls_files :: "(string \<Rightarrow> string) \<Rightarrow> string \<times> string \<times> string \<Rightarrow> string \<times> string \<times> string" where
  "tls_files getenv files =
     (if fst files = [] \<and> getenv ''DOCKER_CERT_PATH'' \<noteq> [] \<and> getenv ''DOCKER_TLS_VERIFY'' \<noteq> []
      then (path_Join (getenv ''DOCKER_CERT_PATH'') ''ca.pem'', path_Join (getenv ''DOCKER_CERT_PATH'') ''cert.pem'',
            path_Join (getenv ''DOCKER_CERT_PATH'') ''key.pem'')
      else files)"

definition docker_url :: "(string \<Rightarrow> string) \<Rightarrow> string \<Rightarrow> string" where
  "docker_url getenv dockerUrl =
     (if dockerUrl = [] \<and> getenv ''DOCKER_HOST'' \<noteq> [] then getenv ''DOCKER_HOST'' else dockerUrl)"

definition tls_http :: "'c client_env \<Rightarrow> tls_config \<times> error \<Rightarrow> http_client option res" where
  "tls_http v r =
     (case snd r of
        Some err \<Rightarrow> Panic (''error configuring tls: '' @ err)
      | None \<Rightarrow>
          Ok (Some \<lparr>TLSClientConfig =
            (fst r)\<lparr>InsecureSkipVerify := (os_Getenv v ''DOCKER_TLS_VERIFY'' = [])\<rparr>\<rparr>))"

definition tls_client :: "'c client_env \<Rightarrow> string \<times> string \<times> string \<Rightarrow> bool \<Rightarrow> http_client option res" where
  "tls_client v files allowInsecure =
     (case files of (tlsCaCert, tlsCert, tlsKey) \<Rightarrow>
        if tlsCaCert \<noteq> [] \<and> tlsCert \<noteq> [] \<and> tlsKey \<noteq> [] then
          res_bind (or_fatal ''error loading tls ca cert: '' (ReadFile v tlsCaCert)) (\<lambda>caCert.
          res_bind (or_fatal ''error loading tls cert: '' (ReadFile v tlsCert)) (\<lambda>cert.
          res_bind (or_fatal ''error loading tls key: '' (ReadFile v tlsKey)) (\<lambda>key.
            tls_http v (GetTLSConfig (X509KeyPair v) caCert cert key allowInsecure))))
        else Ok None)"

definition GetDockerClient ::
  "'c client_env \<Rightarrow> string \<Rightarrow> string \<Rightarrow> string \<Rightarrow> string \<Rightarrow> bool \<Rightarrow> 'c res" where
  "GetDockerClient v dockerUrl tlsCaCert tlsCert tlsKey allowInsecure =
     res_bind (tls_client v (tls_files (os_Getenv v) (tlsCaCert, tlsCert, tlsKey)) allowInsecure) (\<lambda>httpClient.
       of_answer (NewClient v (docker_url (os_Getenv v) dockerUrl) apiVersion httpClient
         [(''User-Agent'', ''interlock-'' @ Version)]))"

definition getDockerClient :: "'c client_env \<Rightarrow> config \<Rightarrow> 'c res" where
  "getDockerClient v cfg =
     GetDockerClient v (DockerURL cfg) (TLSCACert cfg) (TLSCert cfg) (TLSKey cfg) (AllowInsecure cfg)"

section \<open>What decides whether certificates are verified\<close>

text \<open>The arguments of \<open>NewClient\<close>, as the client that a package that records them would give.\<close>

type_synonym client_args = "string \<times> string \<times> http_client option \<times> (string, string) gomap"

definition recording :: "client_args client_env \<Rightarrow> bool" where
  "recording v \<longleftrightarrow> NewClient v = (\<lambda>url version http headers. Inr (url, version, http, headers))"

lemma tls_client_Some:
  assumes "tls_client v files allowInsecure = Ok (Some h)"
  shows "InsecureSkipVerify (TLSClientConfig h) \<longleftrightarrow> os_Getenv v ''DOCKER_TLS_VERIFY'' = []"
  using assms by (auto simp: tls_client_def tls_http_def res_bind_Ok_iff split: prod.splits if_splits option.splits)

lemma GetTLSConfig_insecure: "GetTLSConfig kp caCert cert key b = GetTLSConfig kp caCert cert key b'"
  by (simp add: GetTLSConfig_def Let_def split: sum.split)

text \<open>The setting \<open>AllowInsecure\<close> has no effect on the client. When the client uses TLS, it
  verifies the engine's certificate exactly when the environment variable \<open>DOCKER_TLS_VERIFY\<close> is set: a
  server whose certificates come from its configuration file, with \<open>AllowInsecure\<close> off, accepts any
  certificate.\<close>

theorem allow_insecure_ignored:
  "getDockerClient v (cfg\<lparr>AllowInsecure := b\<rparr>) = getDockerClient v cfg
   \<and> (recording v \<longrightarrow> getDockerClient v cfg = Ok (url, version, Some h, headers) \<longrightarrow>
        (InsecureSkipVerify (TLSClientConfig h) \<longleftrightarrow> os_Getenv v ''DOCKER_TLS_VERIFY'' = []))"
proof
  have "tls_client v files b = tls_client v files b'" for files b b'
    by (subst tls_client_def, subst GetTLSConfig_insecure [where b = b and b' = b'], subst tls_client_def) (rule refl)
  from this [of _ b "AllowInsecure cfg"]
  show "getDockerClient v (cfg\<lparr>AllowInsecure := b\<rparr>) = getDockerClient v cfg"
    by (simp add: getDockerClient_def GetDockerClient_def)
  show "recording v \<longrightarrow> getDockerClient v cfg = Ok (url, version, Some h, headers) \<longrightarrow>
      (InsecureSkipVerify (TLSClientConfig h) \<longleftrightarrow> os_Getenv v ''DOCKER_TLS_VERIFY'' = [])"
    by (auto simp: getDockerClient_def GetDockerClient_def res_bind_Ok_iff recording_def dest: tls_client_Some)
qed

definition tls_env :: "(string, string) gomap \<Rightarrow> client_args client_env" where
  "tls_env env = \<lparr>os_Getenv = gm_at [] env, ReadFile = Inr, X509KeyPair = (\<lambda>cert key. Inr (cert, key)),
     NewClient = (\<lambda>url version http headers. Inr (url, version, http, headers))\<rparr>"

definition tls_server_config :: config where
  "tls_server_config = \<lparr>ListenAddr = '':8080'', DockerURL = ''tcp://swarm:2376'', TLSCACert = ''ca.pem'',
     TLSCert = ''cert.pem'', TLSKey = ''key.pem'', AllowInsecure = False, EnableMetrics = False,
     PollInterval = [], Extensions = [], cfg_Rules = []\<rparr>"

theorem allow_insecure_ignored_witness:
  "\<exists>h. getDockerClient (tls_env []) tls_server_config
      = Ok (''tcp://swarm:2376'', apiVersion, Some h, [(''User-Agent'', ''interlock-'' @ Version)])
    \<and> InsecureSkipVerify (TLSClientConfig h) \<and> \<not> AllowInsecure tls_server_config"
proof -
  let ?h = "\<lparr>TLSClientConfig = \<lparr>InsecureSkipVerify = True, RootCAs = [''ca.pem''],
    Certificates = [(''cert.pem'', ''key.pem'')]\<rparr>\<rparr>"
  have c: "getDockerClient (tls_env []) tls_server_config
      = Ok (''tcp://swarm:2376'', apiVersion, Some ?h, [(''User-Agent'', ''interlock-'' @ Version)])"
    by (simp add: getDockerClient_def GetDockerClient_def tls_env_def tls_server_config_def docker_url_def
        tls_files_def tls_client_def tls_http_def GetTLSConfig_def Let_def)
  have "recording (tls_env [])" by (simp add: recording_def tls_env_def)
  with c have "InsecureSkipVerify (TLSClientConfig ?h) \<longleftrightarrow> os_Getenv (tls_env []) ''DOCKER_TLS_VERIFY'' = []"
    using allow_insecure_ignored by blast
  with c show ?thesis by (simp add: tls_env_def tls_server_config_def)
qed

section \<open>Which files and which address\<close>

text \<open>The environment is used only for what the configuration leaves out: a CA certificate in the
  configuration keeps all three files, and an address keeps the address.\<close>

lemma configured_client_kept:
  assumes "TLSCACert cfg \<noteq> []" and "DockerURL cfg \<noteq> []"
  shows "tls_files getenv (TLSCACert cfg, TLSCert cfg, TLSKey cfg) = (TLSCACert cfg, TLSCert cfg, TLSKey cfg)"
    and "docker_url getenv (DockerURL cfg) = DockerURL cfg"
  using assms by (simp_all add: tls_files_def docker_url_def)

end
