(* ===== verification/Server_Channels.thy ===== *)
theory Server_Channels
  imports Server Docker_Client
begin

text \<open>
  How the goroutines of the server wait for each other (\<open>NewServer\<close> in \<open>server/server.go\<close>, with
  \<open>server/metrics.go\<close> and \<open>events/events.go\<close>). All channels are without a buffer: a send and the
  matching receive are one step, possible only when both sides are there. The goroutines are the
  handler of \<open>errChan\<close>, the handler of \<open>eventErrChan\<close>, the restart handler, one reader for every
  event stream that was opened, the event loop, the poller, and the main goroutine, which sends the
  first restart. A step is an action of one of them, a rendezvous of two, or an input: a line or the end
  of a stream, a tick of a ticker. Any interleaving is allowed; Go does not promise an order among the
  senders that wait on a channel.

  Lines of a stream that decode to \<open>null\<close>, which the engine does not send, are left out.
  The component \<open>ch_taken\<close> of the state is bookkeeping: how many events the loop has taken on.
\<close>

section \<open>Metrics and the event handler\<close>

definition eventsProcessed :: string where
  "eventsProcessed = ''interlock_totals_events_processed''"

definition lastReloadDuration :: string where
  "lastReloadDuration = ''interlock_system_last_reload_duration''"

definition uptime :: string where
  "uptime = ''interlock_totals_uptime''"

text \<open>Registration with the process-wide registry; it panics when a name is taken.\<close>

definition NewMetrics :: "string list \<Rightarrow> string list res" where
  "NewMetrics registry =
     (if list_ex (\<lambda>n. n \<in> set registry) [eventsProcessed, lastReloadDuration, uptime]
      then Panic ''duplicate metrics collector registration attempted''
      else Ok (registry @ [eventsProcessed, lastReloadDuration, uptime]))"

datatype channel = ErrChan | EventErrChan | RestartChan | EventChan

record EventHandler =
  eh_eventChan :: channel

definition NewEventHandler :: "channel \<Rightarrow> EventHandler res" where
  "NewEventHandler c = Ok \<lparr>eh_eventChan = c\<rparr>"

text \<open>The send that \<open>Handle\<close> waits for; the error channel is not used.\<close>

definition eh_Handle :: "EventHandler \<Rightarrow> event_message \<Rightarrow> channel \<Rightarrow> channel \<times> event_message" where
  "eh_Handle h e ec = (eh_eventChan h, e)"

section \<open>The goroutines\<close>

datatype err_handler = EIdle | ELogged string | EWaiting | ERestarting

datatype restart_handler = RIdle | RStarting | RFailed string | RInitial

datatype reader = RdScan | RdEvent event_message | RdError string | RdEnded

datatype event_loop = LIdle | LNotify event_message nat | LFailed event_message string nat

datatype poller = PIdle | PEvent event_message

record ch_state =
  ch_main :: bool
  ch_errs :: err_handler
  ch_streamErrs :: err_handler
  ch_restart :: restart_handler
  ch_handler :: "EventHandler option"
  ch_readers :: "reader list"
  ch_loop :: event_loop
  ch_poller :: poller
  ch_hash :: string
  ch_eventsProcessed :: nat
  ch_uptime :: nat
  ch_taken :: nat

record ch_env =
  ce_cfg :: config
  ce_extensions :: nat
  ce_sha :: "string \<Rightarrow> string"

definition ch_init :: ch_state where
  "ch_init = \<lparr>ch_main = False, ch_errs = EIdle, ch_streamErrs = EIdle, ch_restart = RIdle,
     ch_handler = None, ch_readers = [], ch_loop = LIdle, ch_poller = PIdle, ch_hash = [],
     ch_eventsProcessed = 0, ch_uptime = 0, ch_taken = 0\<rparr>"

datatype ch_label =
    MainRestart
  | CheckError
  | SwarmReady "nat \<Rightarrow> container list answer"
  | ErrRestart
  | StreamSwarmReady "nat \<Rightarrow> container list answer"
  | StreamErrRestart
  | Connect "unit answer"
  | SendConnectError
  | SendInitial
  | Line nat "event_message answer"
  | StreamEnd nat
  | SendLine nat
  | SendLineError nat
  | HandlerReturns error
  | SendHandlerError
  | CountEvent
  | Poll int "container list answer"
  | SendPoll
  | UptimeTick

definition swarm_error :: "string \<Rightarrow> bool" where
  "swarm_error err \<longleftrightarrow> strings_Index err ''500 Internal Server Error'' > -1"

definition polling :: "ch_env \<Rightarrow> bool" where
  "polling v \<longleftrightarrow> PollInterval (ce_cfg v) \<noteq> []"

definition initial_event :: event_message where
  "initial_event = \<lparr>em_Status = ''interlock-start'', em_ID = ''0'', em_Type = [], em_Action = [],
     em_Attributes = []\<rparr>"

text \<open>The restart handler after a receive, and the event loop after a receive.\<close>

definition restart_received :: "ch_state \<Rightarrow> ch_state" where
  "restart_received s =
     (case NewEventHandler EventChan of
        Ok h \<Rightarrow> s\<lparr>ch_restart := RStarting, ch_handler := Some h\<rparr>
      | Err err \<Rightarrow> s\<lparr>ch_restart := RFailed err\<rparr>
      | Panic p \<Rightarrow> s)"

definition event_received :: "nat \<Rightarrow> event_message \<Rightarrow> ch_state \<Rightarrow> ch_state" where
  "event_received n e s =
     (if em_ID e = [] \<and> em_Type e = [] then s
      else s\<lparr>ch_loop := LNotify e n, ch_taken := Suc (ch_taken s)\<rparr>)"

definition set_reader :: "nat \<Rightarrow> reader \<Rightarrow> ch_state \<Rightarrow> ch_state" where
  "set_reader i r s = s\<lparr>ch_readers := (ch_readers s)[i := r]\<rparr>"

definition reader_at :: "ch_state \<Rightarrow> nat \<Rightarrow> reader option" where
  "reader_at s i = (if i < length (ch_readers s) then Some (ch_readers s ! i) else None)"

text \<open>The step as a partial function: \<open>None\<close> where the action is not possible.\<close>

fun ch_do :: "ch_env \<Rightarrow> ch_label \<Rightarrow> ch_state \<Rightarrow> ch_state option" where
  "ch_do v MainRestart s =
     (if \<not> ch_main s \<and> ch_restart s = RIdle then Some (restart_received (s\<lparr>ch_main := True\<rparr>)) else None)"
| "ch_do v CheckError s =
     (case ch_errs s of
        ELogged err \<Rightarrow> Some (s\<lparr>ch_errs := if swarm_error err then EWaiting else EIdle\<rparr>)
      | _ \<Rightarrow> None)"
| "ch_do v (SwarmReady ans) s =
     (if ch_errs s = EWaiting \<and> waitForSwarm ans 0 \<noteq> None then Some (s\<lparr>ch_errs := ERestarting\<rparr>) else None)"
| "ch_do v ErrRestart s =
     (if ch_errs s = ERestarting \<and> ch_restart s = RIdle
      then Some (restart_received (s\<lparr>ch_errs := EIdle\<rparr>)) else None)"
| "ch_do v (StreamSwarmReady ans) s =
     (if ch_streamErrs s = EWaiting \<and> waitForSwarm ans 0 \<noteq> None
      then Some (s\<lparr>ch_streamErrs := ERestarting\<rparr>) else None)"
| "ch_do v StreamErrRestart s =
     (if ch_streamErrs s = ERestarting \<and> ch_restart s = RIdle
      then Some (restart_received (s\<lparr>ch_streamErrs := EIdle\<rparr>)) else None)"
| "ch_do v (Connect r) s =
     (if ch_restart s = RStarting then
        (if polling v then Some (s\<lparr>ch_restart := RIdle\<rparr>)
         else case r of
                Inl err \<Rightarrow> Some (s\<lparr>ch_restart := RFailed err\<rparr>)
              | Inr _ \<Rightarrow> Some (s\<lparr>ch_restart := RInitial, ch_readers := ch_readers s @ [RdScan]\<rparr>))
      else None)"
| "ch_do v SendConnectError s =
     (case ch_restart s of
        RFailed err \<Rightarrow> if ch_errs s = EIdle then Some (s\<lparr>ch_restart := RIdle, ch_errs := ELogged err\<rparr>) else None
      | _ \<Rightarrow> None)"
| "ch_do v SendInitial s =
     (if ch_restart s = RInitial \<and> ch_loop s = LIdle
      then Some (event_received (ce_extensions v) initial_event (s\<lparr>ch_restart := RIdle\<rparr>)) else None)"
| "ch_do v (Line i r) s =
     (if reader_at s i = Some RdScan
      then Some (set_reader i (case r of Inl err \<Rightarrow> RdError err | Inr e \<Rightarrow> RdEvent e) s) else None)"
| "ch_do v (StreamEnd i) s =
     (if reader_at s i = Some RdScan then Some (set_reader i RdEnded s) else None)"
| "ch_do v (SendLine i) s =
     (case reader_at s i of
        Some (RdEvent e) \<Rightarrow>
          if ch_loop s = LIdle then Some (event_received (ce_extensions v) e (set_reader i RdScan s)) else None
      | _ \<Rightarrow> None)"
| "ch_do v (SendLineError i) s =
     (case reader_at s i of
        Some (RdError err) \<Rightarrow>
          if ch_errs s = EIdle then Some ((set_reader i RdScan s)\<lparr>ch_errs := ELogged err\<rparr>) else None
      | _ \<Rightarrow> None)"
| "ch_do v (HandlerReturns r) s =
     (case ch_loop s of
        LNotify e (Suc n) \<Rightarrow>
          Some (s\<lparr>ch_loop := case r of None \<Rightarrow> LNotify e n | Some err \<Rightarrow> LFailed e err n\<rparr>)
      | _ \<Rightarrow> None)"
| "ch_do v SendHandlerError s =
     (case ch_loop s of
        LFailed e err n \<Rightarrow>
          if ch_errs s = EIdle then Some (s\<lparr>ch_loop := LNotify e n, ch_errs := ELogged err\<rparr>) else None
      | _ \<Rightarrow> None)"
| "ch_do v CountEvent s =
     (case ch_loop s of
        LNotify e 0 \<Rightarrow> Some (s\<lparr>ch_loop := LIdle, ch_eventsProcessed := Suc (ch_eventsProcessed s)\<rparr>)
      | _ \<Rightarrow> None)"
| "ch_do v (Poll now listing) s =
     (if ch_main s \<and> polling v \<and> ch_poller s = PIdle then
        (case poll_tick (ce_sha v) now listing (ch_hash s) of
           (h, e) \<Rightarrow> Some (s\<lparr>ch_hash := h, ch_poller := case e of None \<Rightarrow> PIdle | Some e \<Rightarrow> PEvent e\<rparr>))
      else None)"
| "ch_do v SendPoll s =
     (case ch_poller s of
        PEvent e \<Rightarrow>
          if ch_loop s = LIdle then Some (event_received (ce_extensions v) e (s\<lparr>ch_poller := PIdle\<rparr>)) else None
      | _ \<Rightarrow> None)"
| "ch_do v UptimeTick s = Some (s\<lparr>ch_uptime := Suc (ch_uptime s)\<rparr>)"

text \<open>
  \<open>NewServer\<close> up to its last send: the metrics, the client, the extensions. The metrics are
  registered first, so they stay registered when there is no client.
\<close>

definition NewServer ::
  "string list \<Rightarrow> 'c client_env \<Rightarrow> load_env \<Rightarrow> (string \<Rightarrow> string) \<Rightarrow> config \<Rightarrow> string list \<times> (ch_env \<times> ch_state) res" where
  "NewServer registry cv lv sha cfg =
     (case NewMetrics registry of
        Panic p \<Rightarrow> (registry, Panic p)
      | Err err \<Rightarrow> (registry, Err err)
      | Ok registry' \<Rightarrow>
          (registry', res_bind (getDockerClient cv cfg) (\<lambda>_. res_bind (loadExtensions lv cfg) (\<lambda>exts.
             Ok (\<lparr>ce_cfg = cfg, ce_extensions = length exts, ce_sha = sha\<rparr>, ch_init)))))"

inductive ch_run :: "ch_env \<Rightarrow> ch_label list \<Rightarrow> ch_state \<Rightarrow> bool" for v where
  ch_start: "ch_run v [] ch_init"
| ch_step: "ch_run v ls s \<Longrightarrow> ch_do v l s = Some s' \<Longrightarrow> ch_run v (ls @ [l]) s'"

fun ch_path :: "ch_env \<Rightarrow> ch_label list \<Rightarrow> ch_state \<Rightarrow> ch_state option" where
  "ch_path v [] s = Some s"
| "ch_path v (l # ls) s = (case ch_do v l s of None \<Rightarrow> None | Some s' \<Rightarrow> ch_path v ls s')"

lemma ch_path_Cons:
  "ch_path v (l # ls) s = Some t \<longleftrightarrow> (\<exists>s'. ch_do v l s = Some s' \<and> ch_path v ls s' = Some t)"
  by (simp split: option.split)

lemma ch_path_run: "ch_path v ls' s = Some s' \<Longrightarrow> ch_run v ls s \<Longrightarrow> ch_run v (ls @ ls') s'"
proof (induction ls' arbitrary: ls s)
  case Nil
  then show ?case by simp
next
  case (Cons l ls')
  then obtain t where t: "ch_do v l s = Some t" "ch_path v ls' t = Some s'"
    by (auto split: option.splits)
  from ch_step [OF Cons.prems(2) t(1)] Cons.IH [OF t(2)] show ?case by fastforce
qed

lemma ch_path_init: "ch_path v ls ch_init = Some s \<Longrightarrow> ch_run v ls s"
  using ch_path_run [OF _ ch_start] by simp

text \<open>An invariant of single steps is one of paths.\<close>

lemma ch_path_invariant:
  assumes "\<And>l s s'. I s \<Longrightarrow> P l \<Longrightarrow> ch_do v l s = Some s' \<Longrightarrow> I s'"
  shows "ch_path v ls s = Some s' \<Longrightarrow> list_all P ls \<Longrightarrow> I s \<Longrightarrow> I s'"
  by (induction ls arbitrary: s) (auto simp: ch_path_Cons simp del: ch_path.simps(2) intro: assms)


lemma ch_path_append:
  "ch_path v (ls @ ls') s = (case ch_path v ls s of None \<Rightarrow> None | Some t \<Rightarrow> ch_path v ls' t)"
  by (induction ls arbitrary: s) (auto split: option.split)

lemma ch_run_invariant:
  assumes "I ch_init" and "\<And>l s s'. I s \<Longrightarrow> P l \<Longrightarrow> ch_do v l s = Some s' \<Longrightarrow> I s'"
  shows "ch_run v ls s \<Longrightarrow> list_all P ls \<Longrightarrow> I s"
  by (induction rule: ch_run.induct) (auto intro: assms)

section \<open>Where a goroutine can be\<close>

lemmas ch_moves = restart_received_def NewEventHandler_def event_received_def set_reader_def reader_at_def

lemmas ch_splits = if_splits sum.splits option.splits event_loop.splits nat.splits err_handler.splits
  restart_handler.splits reader.splits poller.splits prod.splits

text \<open>The restart of the goroutine for stream errors is never reached: nothing sends to its channel.\<close>

lemma stream_handler_idle: "ch_run v ls s \<Longrightarrow> ch_streamErrs s = EIdle"
proof (rule ch_run_invariant [where P = "\<lambda>_. True"])
  fix l s s'
  assume "ch_streamErrs s = EIdle" "ch_do v l s = Some s'"
  then show "ch_streamErrs s' = EIdle"
    by (cases l) (auto simp: ch_moves split: ch_splits)
qed (simp_all add: ch_init_def list_all_iff)

definition ch_counted :: "ch_state \<Rightarrow> bool" where
  "ch_counted s \<longleftrightarrow> ch_taken s = ch_eventsProcessed s + (if ch_loop s = LIdle then 0 else 1)"

lemma events_counted: "ch_run v ls s \<Longrightarrow> ch_counted s"
proof (rule ch_run_invariant [where P = "\<lambda>_. True"])
  fix l s s'
  assume "ch_counted s" "ch_do v l s = Some s'"
  then show "ch_counted s'"
    by (cases l) (auto simp: ch_counted_def ch_moves split: ch_splits)
qed (simp_all add: ch_init_def ch_counted_def list_all_iff)


section \<open>Coming to rest\<close>

text \<open>The steps that are not inputs from the engine or a clock.\<close>

primrec internal :: "ch_label \<Rightarrow> bool" where
  "internal MainRestart = True"
| "internal CheckError = True"
| "internal (SwarmReady ans) = True"
| "internal ErrRestart = True"
| "internal (StreamSwarmReady ans) = True"
| "internal StreamErrRestart = True"
| "internal (Connect r) = True"
| "internal SendConnectError = True"
| "internal SendInitial = True"
| "internal (Line i r) = False"
| "internal (StreamEnd i) = False"
| "internal (SendLine i) = True"
| "internal (SendLineError i) = True"
| "internal (HandlerReturns r) = True"
| "internal SendHandlerError = True"
| "internal CountEvent = True"
| "internal (Poll now listing) = False"
| "internal SendPoll = True"
| "internal UptimeTick = False"

text \<open>No error that the step brings in is one of the cluster.\<close>

definition calm :: "ch_label \<Rightarrow> bool" where
  "calm l \<longleftrightarrow> (case l of
       Connect (Inl err) \<Rightarrow> \<not> swarm_error err
     | Line i (Inl err) \<Rightarrow> \<not> swarm_error err
     | HandlerReturns (Some err) \<Rightarrow> \<not> swarm_error err
     | _ \<Rightarrow> True)"

primrec calm_errs :: "err_handler \<Rightarrow> bool" where
  "calm_errs EIdle = True"
| "calm_errs (ELogged err) = (\<not> swarm_error err)"
| "calm_errs EWaiting = False"
| "calm_errs ERestarting = False"

primrec calm_restart :: "restart_handler \<Rightarrow> bool" where
  "calm_restart RIdle = True"
| "calm_restart RStarting = True"
| "calm_restart (RFailed err) = (\<not> swarm_error err)"
| "calm_restart RInitial = True"

primrec calm_reader :: "reader \<Rightarrow> bool" where
  "calm_reader RdScan = True"
| "calm_reader (RdEvent e) = True"
| "calm_reader (RdError err) = (\<not> swarm_error err)"
| "calm_reader RdEnded = True"

primrec calm_loop :: "event_loop \<Rightarrow> bool" where
  "calm_loop LIdle = True"
| "calm_loop (LNotify e n) = True"
| "calm_loop (LFailed e err n) = (\<not> swarm_error err)"

definition ch_calm :: "ch_state \<Rightarrow> bool" where
  "ch_calm s \<longleftrightarrow> calm_errs (ch_errs s) \<and> ch_streamErrs s = EIdle \<and> calm_restart (ch_restart s)
     \<and> list_all calm_reader (ch_readers s) \<and> calm_loop (ch_loop s)"

lemma list_all_update: "list_all P xs \<Longrightarrow> P x \<Longrightarrow> list_all P (xs[i := x])"
  by (auto simp: list_all_iff dest: set_update_subset_insert [THEN subsetD])

lemma reader_at_all: "list_all P (ch_readers s) \<Longrightarrow> reader_at s i = Some r \<Longrightarrow> P r"
  by (auto simp: list_all_length reader_at_def split: if_splits)

lemma ch_calm_step:
  assumes "ch_calm s" and "calm l" and "ch_do v l s = Some s'"
  shows "ch_calm s'"
proof (cases "\<exists>i. l = SendLineError i")
  case True
  then obtain i err where "l = SendLineError i" and r: "reader_at s i = Some (RdError err)"
    using assms(3) by (auto split: ch_splits)
  moreover have "list_all calm_reader (ch_readers s)" using assms(1) by (simp add: ch_calm_def)
  from reader_at_all [OF this r] have "\<not> swarm_error err" by simp
  ultimately show ?thesis
    using assms(1,3) by (auto simp: ch_calm_def set_reader_def list_all_update split: if_splits)
next
  case False
  with assms show ?thesis
    by (cases l) (auto simp: ch_calm_def calm_def restart_received_def NewEventHandler_def event_received_def
        set_reader_def list_all_update split: ch_splits)
qed

definition ch_at_rest :: "ch_state \<Rightarrow> bool" where
  "ch_at_rest s \<longleftrightarrow> ch_main s \<and> ch_errs s = EIdle \<and> ch_streamErrs s = EIdle \<and> ch_restart s = RIdle
     \<and> list_all (\<lambda>r. r = RdScan \<or> r = RdEnded) (ch_readers s) \<and> ch_loop s = LIdle \<and> ch_poller s = PIdle"

text \<open>The ways in which the goroutines can wait for each other in a circle.\<close>

definition ch_circular :: "ch_state \<Rightarrow> bool" where
  "ch_circular s \<longleftrightarrow> ch_errs s = ERestarting
     \<and> ((\<exists>err. ch_restart s = RFailed err)
        \<or> ch_restart s = RInitial \<and> (\<exists>e err n. ch_loop s = LFailed e err n))"

lemma waitForSwarm_at_once: "waitForSwarm (\<lambda>_. Inr []) 0 = Some []"
  by (subst waitForSwarm.simps) simp


definition ch_blocked :: "ch_env \<Rightarrow> ch_state \<Rightarrow> bool" where
  "ch_blocked v s \<longleftrightarrow> (\<forall>l. internal l \<and> calm l \<longrightarrow> ch_do v l s = None)"

lemma ch_blockedD: "ch_blocked v s \<Longrightarrow> internal l \<Longrightarrow> calm l \<Longrightarrow> ch_do v l s = None"
  by (simp add: ch_blocked_def)

lemma blocked_positions:
  assumes "ch_blocked v s"
  shows "ch_loop s = LIdle \<or> (\<exists>e err n. ch_loop s = LFailed e err n)"
    and "ch_errs s = EIdle \<or> ch_errs s = ERestarting" and "ch_restart s \<noteq> RStarting"
proof -
  note none = ch_blockedD [OF assms]
  show "ch_loop s = LIdle \<or> (\<exists>e err n. ch_loop s = LFailed e err n)"
    using none [of CountEvent] none [of "HandlerReturns None"] by (auto simp: calm_def split: ch_splits)
  show "ch_errs s = EIdle \<or> ch_errs s = ERestarting"
    using none [of CheckError] none [of "SwarmReady (\<lambda>_. Inr [])"]
    by (cases "ch_errs s") (auto simp: calm_def waitForSwarm_at_once)
  show "ch_restart s \<noteq> RStarting" using none [of "Connect (Inr ())"]
    by (auto simp: calm_def split: if_splits)
qed

lemma blocked_circular:
  assumes "ch_blocked v s" and "ch_errs s = ERestarting"
  shows "ch_circular s"
proof -
  note none = ch_blockedD [OF assms(1)]
  have "ch_restart s \<noteq> RIdle" using none [of ErrRestart] assms(2) by (auto simp: calm_def)
  moreover have "ch_restart s = RInitial \<Longrightarrow> ch_loop s \<noteq> LIdle"
    using none [of SendInitial] by (auto simp: calm_def)
  ultimately show ?thesis
    using assms(2) blocked_positions [OF assms(1)] by (cases "ch_restart s") (auto simp: ch_circular_def)
qed

lemma blocked_readers:
  assumes "ch_blocked v s" and "ch_errs s = EIdle" and "ch_loop s = LIdle"
  shows "list_all (\<lambda>r. r = RdScan \<or> r = RdEnded) (ch_readers s)"
proof -
  note none = ch_blockedD [OF assms(1)]
  have "ch_readers s ! i = RdScan \<or> ch_readers s ! i = RdEnded" if "i < length (ch_readers s)" for i
    using none [of "SendLine i"] none [of "SendLineError i"] assms(2,3) that
    by (cases "ch_readers s ! i") (auto simp: calm_def reader_at_def)
  then show ?thesis by (simp add: list_all_length)
qed

lemma blocked_cases:
  assumes "ch_blocked v s" and "ch_streamErrs s = EIdle"
  shows "ch_at_rest s \<or> ch_circular s"
proof (cases "ch_errs s = ERestarting")
  case True
  then show ?thesis using blocked_circular [OF assms(1)] by blast
next
  case False
  then have idle: "ch_errs s = EIdle" using blocked_positions [OF assms(1)] by blast
  note none = ch_blockedD [OF assms(1)]
  have loop: "ch_loop s = LIdle"
    using none [of SendHandlerError] idle blocked_positions(1) [OF assms(1)] by (auto simp: calm_def)
  have "ch_restart s = RIdle"
    using none [of SendConnectError] none [of SendInitial] idle loop blocked_positions(3) [OF assms(1)]
    by (cases "ch_restart s") (auto simp: calm_def)
  moreover from this have "ch_main s" using none [of MainRestart] by (auto simp: calm_def split: if_splits)
  moreover have "ch_poller s = PIdle" using none [of SendPoll] loop by (cases "ch_poller s") (auto simp: calm_def)
  ultimately show ?thesis
    using idle loop assms(2) blocked_readers [OF assms(1) idle loop] by (simp add: ch_at_rest_def)
qed

text \<open>How much the goroutines still have to do: every internal step of a calm run uses some of it up.\<close>

primrec rank_errs :: "err_handler \<Rightarrow> nat" where
  "rank_errs EIdle = 0"
| "rank_errs (ELogged err) = 1"
| "rank_errs EWaiting = 1"
| "rank_errs ERestarting = 1"

primrec rank_loop :: "event_loop \<Rightarrow> nat" where
  "rank_loop LIdle = 0"
| "rank_loop (LNotify e n) = 4 * n + 1"
| "rank_loop (LFailed e err n) = 4 * n + 4"

primrec rank_reader :: "nat \<Rightarrow> reader \<Rightarrow> nat" where
  "rank_reader n RdScan = 0"
| "rank_reader n (RdEvent e) = 4 * n + 2"
| "rank_reader n (RdError err) = 2"
| "rank_reader n RdEnded = 0"

primrec rank_restart :: "nat \<Rightarrow> restart_handler \<Rightarrow> nat" where
  "rank_restart n RIdle = 0"
| "rank_restart n RStarting = 4 * n + 3"
| "rank_restart n (RFailed err) = 2"
| "rank_restart n RInitial = 4 * n + 2"

primrec rank_poller :: "nat \<Rightarrow> poller \<Rightarrow> nat" where
  "rank_poller n PIdle = 0"
| "rank_poller n (PEvent e) = 4 * n + 2"

definition ch_rank :: "nat \<Rightarrow> ch_state \<Rightarrow> nat" where
  "ch_rank n s = (if ch_main s then 0 else 4 * n + 4) + rank_errs (ch_errs s)
     + rank_restart n (ch_restart s) + sum_list (map (rank_reader n) (ch_readers s))
     + rank_loop (ch_loop s) + rank_poller n (ch_poller s)"

lemma rank_set_reader:
  assumes "reader_at s i = Some r"
  shows "sum_list (map (rank_reader n) ((ch_readers s)[i := r'])) + rank_reader n r
    = sum_list (map (rank_reader n) (ch_readers s)) + rank_reader n r'"
proof -
  from assms have i: "i < length (ch_readers s)" "ch_readers s ! i = r" by (auto simp: reader_at_def split: if_splits)
  then have "rank_reader n r \<le> sum_list (map (rank_reader n) (ch_readers s))"
    by (metis elem_le_sum_list length_map nth_map)
  with i show ?thesis by (simp add: map_update sum_list_update)
qed

lemma ch_rank_send_line:
  assumes "ch_do v (SendLine i) s = Some s'"
  shows "ch_rank (ce_extensions v) s' < ch_rank (ce_extensions v) s"
proof -
  from assms obtain e where e: "reader_at s i = Some (RdEvent e)" "ch_loop s = LIdle"
    and s': "s' = event_received (ce_extensions v) e (set_reader i RdScan s)"
    by (auto split: ch_splits)
  from rank_set_reader [OF e(1), of "ce_extensions v" RdScan] e(2) s' show ?thesis
    by (simp add: ch_rank_def event_received_def set_reader_def)
qed

lemma ch_rank_send_line_error:
  assumes "ch_do v (SendLineError i) s = Some s'"
  shows "ch_rank (ce_extensions v) s' < ch_rank (ce_extensions v) s"
proof -
  from assms obtain err where e: "reader_at s i = Some (RdError err)" "ch_errs s = EIdle"
    and s': "s' = (set_reader i RdScan s)\<lparr>ch_errs := ELogged err\<rparr>"
    by (auto split: ch_splits)
  from rank_set_reader [OF e(1), of "ce_extensions v" RdScan] e(2) s' show ?thesis
    by (simp add: ch_rank_def set_reader_def)
qed

lemma ch_rank_step:
  assumes "ch_calm s" and "internal l" and "ch_do v l s = Some s'"
  shows "ch_rank (ce_extensions v) s' < ch_rank (ce_extensions v) s"
  using assms
proof (cases l)
  case (SendLine i)
  with assms(3) show ?thesis using ch_rank_send_line by blast
next
  case (SendLineError i)
  with assms(3) show ?thesis using ch_rank_send_line_error by blast
qed (auto simp: ch_calm_def ch_rank_def restart_received_def NewEventHandler_def event_received_def
    split: ch_splits)

lemma ch_path_bounded:
  "ch_path v ls s = Some s' \<Longrightarrow> list_all (\<lambda>l. internal l \<and> calm l) ls \<Longrightarrow> ch_calm s \<Longrightarrow>
    ch_calm s' \<and> length ls + ch_rank (ce_extensions v) s' \<le> ch_rank (ce_extensions v) s"
proof (induction ls arbitrary: s)
  case Nil
  then show ?case by simp
next
  case (Cons l ls)
  then obtain t where t: "ch_do v l s = Some t" "ch_path v ls t = Some s'" by (auto split: option.splits)
  have "ch_calm t" using ch_calm_step [OF _ _ t(1)] Cons.prems by simp
  moreover have "ch_rank (ce_extensions v) t < ch_rank (ce_extensions v) s"
    using ch_rank_step [OF _ _ t(1)] Cons.prems by simp
  ultimately show ?case using Cons.IH [OF t(2)] Cons.prems(2) by simp
qed

lemma ch_run_calm: "ch_run v ls s \<Longrightarrow> list_all calm ls \<Longrightarrow> ch_calm s"
proof (rule ch_run_invariant [where P = calm])
  show "ch_calm ch_init" by (simp add: ch_init_def ch_calm_def)
qed (simp_all add: ch_calm_step)


text \<open>C15: as long as no error mentions the cluster's internal error, the goroutines never wait for
  each other in a circle. In whatever order they act, after an input they come to rest within a bounded
  number of steps, and then every event that the loop has taken on is counted as processed.\<close>

theorem server_settles:
  assumes "ch_run v ls s" and "list_all calm ls"
    and "ch_path v ls' s = Some s'" and "list_all (\<lambda>l. internal l \<and> calm l) ls'"
  shows "length ls' \<le> ch_rank (ce_extensions v) s
    \<and> ((\<forall>l. internal l \<and> calm l \<longrightarrow> ch_do v l s' = None) \<longrightarrow>
         ch_at_rest s' \<and> ch_eventsProcessed s' = ch_taken s')"
proof -
  note b = ch_path_bounded [OF assms(3,4) ch_run_calm [OF assms(1,2)]]
  have "ch_at_rest s' \<and> ch_eventsProcessed s' = ch_taken s'" if "ch_blocked v s'"
  proof -
    have "ch_at_rest s'" using blocked_cases [OF that] b by (auto simp: ch_calm_def ch_circular_def)
    with events_counted [OF ch_path_run [OF assms(3,1)]] show ?thesis
      by (simp add: ch_counted_def ch_at_rest_def)
  qed
  with b show ?thesis by (simp add: ch_blocked_def)
qed

definition stream_env :: "nat \<Rightarrow> ch_env" where
  "stream_env n = \<lparr>ce_cfg = sample_config [], ce_extensions = n, ce_sha = (\<lambda>s. s)\<rparr>"

theorem server_settles_witness:
  "length [HandlerReturns None, HandlerReturns (Some ''bad label''), SendHandlerError, CountEvent]
    \<le> ch_rank 2 (ch_init\<lparr>ch_main := True, ch_handler := Some \<lparr>eh_eventChan = EventChan\<rparr>,
        ch_readers := [RdScan], ch_loop := LNotify initial_event 2, ch_taken := 1\<rparr>)"
proof -
  let ?ls = "[MainRestart, Connect (Inr ()), SendInitial]"
  let ?ls' = "[HandlerReturns None, HandlerReturns (Some ''bad label''), SendHandlerError, CountEvent]"
  let ?s = "ch_init\<lparr>ch_main := True, ch_handler := Some \<lparr>eh_eventChan = EventChan\<rparr>,
    ch_readers := [RdScan], ch_loop := LNotify initial_event 2, ch_taken := 1\<rparr>"
  have "\<not> swarm_error ''bad label''" by code_simp
  then have c: "list_all calm ?ls" "list_all (\<lambda>l. internal l \<and> calm l) ?ls'" by (simp_all add: calm_def)
  have s: "ch_path (stream_env 2) ?ls ch_init = Some ?s"
    by (simp add: ch_init_def ch_moves polling_def stream_env_def sample_config_def initial_event_def)
  obtain s' where "ch_path (stream_env 2) ?ls' ?s = Some s'"
    by (simp add: ch_init_def eval_nat_numeral)
  from server_settles [OF ch_path_init [OF s] c(1) this c(2)] show ?thesis by (simp add: stream_env_def)
qed

section \<open>The event stream ends\<close>

text \<open>C17: when the server uses the event stream and the stream has ended, nothing ever opens it
  again: from a state of rest with no open stream, whatever happens later, only the uptime counter
  changes. No event is handled any more, and the process keeps running.\<close>

theorem stream_end_unnoticed:
  assumes "\<not> polling v" and "ch_run v ls s" and "ch_at_rest s" and "list_all (\<lambda>r. r = RdEnded) (ch_readers s)"
    and "ch_path v ls' s = Some s'"
  shows "s' = s\<lparr>ch_uptime := ch_uptime s'\<rparr>"
proof (rule ch_path_invariant [where I = "\<lambda>t. t = s\<lparr>ch_uptime := ch_uptime t\<rparr>" and P = "\<lambda>_. True", OF _ assms(5)])
  have ended: "reader_at s i \<noteq> Some RdScan" "reader_at s i \<noteq> Some (RdEvent e)"
    "reader_at s i \<noteq> Some (RdError err)" for i e err
    using assms(4) by (auto simp: reader_at_def list_all_length)
  fix l t t'
  assume t: "t = s\<lparr>ch_uptime := ch_uptime t\<rparr>" and l: "ch_do v l t = Some t'"
  define u where "u = ch_uptime t"
  have r: "reader_at (s\<lparr>ch_uptime := u\<rparr>) i = reader_at s i" for i by (simp add: reader_at_def)
  from l t have "ch_do v l (s\<lparr>ch_uptime := u\<rparr>) = Some t'" by (simp add: u_def)
  then have "\<exists>n. t' = s\<lparr>ch_uptime := n\<rparr>"
    using assms(1,3) by (cases l) (auto simp: ch_at_rest_def r ended split: ch_splits)
  then show "t' = s\<lparr>ch_uptime := ch_uptime t'\<rparr>" by auto
qed (simp_all add: list_all_iff)


theorem stream_end_unnoticed_witness:
  "\<exists>s. ch_run (stream_env 0) [MainRestart, Connect (Inr ()), SendInitial, CountEvent, StreamEnd 0] s
    \<and> (\<forall>ls' s'. ch_path (stream_env 0) ls' s = Some s' \<longrightarrow> ch_eventsProcessed s' = 1 \<and> ch_readers s' = [RdEnded])"
proof -
  let ?s = "ch_init\<lparr>ch_main := True, ch_handler := Some \<lparr>eh_eventChan = EventChan\<rparr>, ch_readers := [RdEnded],
    ch_eventsProcessed := 1, ch_taken := 1\<rparr>"
  have p: "\<not> polling (stream_env 0)" by (simp add: polling_def stream_env_def sample_config_def)
  have r: "ch_run (stream_env 0) [MainRestart, Connect (Inr ()), SendInitial, CountEvent, StreamEnd 0] ?s"
    by (rule ch_path_init)
      (simp add: ch_init_def ch_moves polling_def sample_config_def initial_event_def stream_env_def)
  have "ch_eventsProcessed s' = 1 \<and> ch_readers s' = [RdEnded]" if "ch_path (stream_env 0) ls' ?s = Some s'" for ls' s'
  proof -
    have "s' = ?s\<lparr>ch_uptime := ch_uptime s'\<rparr>"
      by (rule stream_end_unnoticed [OF p r _ _ that]) (simp_all add: ch_at_rest_def ch_init_def)
    from arg_cong [OF this, of ch_eventsProcessed] arg_cong [OF this, of ch_readers] show ?thesis by simp
  qed
  with r show ?thesis by blast
qed

section \<open>The circle\<close>

text \<open>Once the goroutines wait for each other, they do so for ever.\<close>

definition ch_stuck :: "ch_state \<Rightarrow> bool" where
  "ch_stuck s \<longleftrightarrow> ch_errs s = ERestarting \<and> ch_restart s = RInitial \<and> (\<exists>e err n. ch_loop s = LFailed e err n)"

lemma ch_stuck_step:
  assumes "ch_stuck s \<and> ch_eventsProcessed s = k" and "ch_do v l s = Some s'"
  shows "ch_stuck s' \<and> ch_eventsProcessed s' = k"
  using assms by (cases l) (auto simp: ch_stuck_def ch_moves split: ch_splits)

text \<open>The loop hands an event to all extensions without an error.\<close>

definition all_handled :: "nat \<Rightarrow> ch_label list" where
  "all_handled n = replicate n (HandlerReturns None) @ [CountEvent]"

lemma all_handled_path:
  "ch_loop s = LNotify e n \<Longrightarrow>
    ch_path v (all_handled n) s = Some (s\<lparr>ch_loop := LIdle, ch_eventsProcessed := Suc (ch_eventsProcessed s)\<rparr>)"
  by (induction n arbitrary: s) (simp_all add: all_handled_def)

text \<open>
  The events of one stream, each failing in the first extension with the cluster's error. The second
  restart is asked for while the first is about to send its initial event, behind an event of the old
  stream that was waiting first.
\<close>

definition circle_trace :: "ch_env \<Rightarrow> event_message \<Rightarrow> string \<Rightarrow> ch_label list" where
  "circle_trace v e err =
     [MainRestart, Connect (Inr ()), SendInitial] @ all_handled (ce_extensions v)
     @ [Line 0 (Inr e), SendLine 0, HandlerReturns (Some err), SendHandlerError, CheckError]
     @ all_handled (ce_extensions v - 1)
     @ [Line 0 (Inr e), SendLine 0, Line 0 (Inr e), SwarmReady (\<lambda>_. Inr []), ErrRestart, Connect (Inr ()),
        HandlerReturns (Some err), SendHandlerError, CheckError, SwarmReady (\<lambda>_. Inr [])]
     @ all_handled (ce_extensions v - 1)
     @ [SendLine 0, HandlerReturns (Some err)]"

lemma circle_reached:
  assumes "\<not> polling v" and "ce_extensions v = Suc n" and "em_ID e \<noteq> []" and "swarm_error err"
  shows "ch_path v (circle_trace v e err) ch_init =
    Some (ch_init\<lparr>ch_main := True, ch_errs := ERestarting, ch_restart := RInitial,
      ch_handler := Some \<lparr>eh_eventChan = EventChan\<rparr>, ch_readers := [RdScan, RdScan],
      ch_loop := LFailed e err n, ch_eventsProcessed := 3, ch_taken := 4\<rparr>)"
  using assms
  by (simp add: circle_trace_def ch_path_append all_handled_path ch_init_def ch_moves initial_event_def
      waitForSwarm_at_once del: replicate.simps)

text \<open>C16: a server with an event stream and at least one extension can reach a state in which its
  event loop waits for the error handler, the error handler for the restart handler, and the restart
  handler for the event loop. From then on no event is ever processed again.\<close>

theorem server_deadlock:
  assumes "\<not> polling v" and "0 < ce_extensions v" and "em_ID e \<noteq> []" and "swarm_error err"
  shows "\<exists>s. ch_run v (circle_trace v e err) s
    \<and> ch_errs s = ERestarting \<and> ch_restart s = RInitial \<and> ch_loop s = LFailed e err (ce_extensions v - 1)
    \<and> (\<forall>ls' s'. ch_path v ls' s = Some s' \<longrightarrow>
          ch_errs s' = ERestarting \<and> ch_restart s' = RInitial \<and> ch_eventsProcessed s' = ch_eventsProcessed s)"
proof -
  obtain n where n: "ce_extensions v = Suc n" using assms(2) by (cases "ce_extensions v") simp_all
  define s where "s = ch_init\<lparr>ch_main := True, ch_errs := ERestarting, ch_restart := RInitial,
      ch_handler := Some \<lparr>eh_eventChan = EventChan\<rparr>, ch_readers := [RdScan, RdScan],
      ch_loop := LFailed e err n, ch_eventsProcessed := 3, ch_taken := 4\<rparr>"
  have r: "ch_run v (circle_trace v e err) s"
    using circle_reached [OF assms(1) n assms(3,4)] unfolding s_def by (rule ch_path_init)
  have stuck: "ch_stuck s" by (simp add: s_def ch_stuck_def)
  have "ch_stuck s' \<and> ch_eventsProcessed s' = ch_eventsProcessed s" if "ch_path v ls' s = Some s'" for ls' s'
  proof (rule ch_path_invariant [where P = "\<lambda>_. True", OF _ that])
    show "ch_stuck t' \<and> ch_eventsProcessed t' = ch_eventsProcessed s"
      if "ch_stuck t \<and> ch_eventsProcessed t = ch_eventsProcessed s" and "ch_do v l t = Some t'" for l t t'
      using that by (rule ch_stuck_step)
  qed (simp_all add: list_all_iff stuck)
  with r n show ?thesis by (auto simp: s_def ch_stuck_def)
qed

theorem server_deadlock_witness:
  "\<exists>s. ch_run (stream_env 2) (circle_trace (stream_env 2) (start_event ''create'' ''c1'')
        ''Error response from daemon: 500 Internal Server Error: No primary manager elected'') s
    \<and> (\<forall>ls' s'. ch_path (stream_env 2) ls' s = Some s' \<longrightarrow> ch_eventsProcessed s' = ch_eventsProcessed s)"
proof -
  have "\<not> polling (stream_env 2)" "0 < ce_extensions (stream_env 2)"
    by (simp_all add: polling_def stream_env_def sample_config_def)
  moreover have "em_ID (start_event ''create'' ''c1'') \<noteq> []" by (simp add: start_event_def)
  moreover have "swarm_error ''Error response from daemon: 500 Internal Server Error: No primary manager elected''"
    by code_simp
  ultimately show ?thesis using server_deadlock by blast
qed

end
