(* ===== verification/Go_Template.thy ===== *)
theory Go_Template
  imports Go_Strings
begin

text \<open>
  The part of \<open>text/template\<close> that the built-in templates use: texts, fields, variables, \<open>if\<close> with
  \<open>else\<close>, \<open>range\<close> over a list with one or two variables, \<open>ne\<close>, string constants and comments. A template
  that uses anything else is refused by this parser. Values are what reflection sees of a
  configuration: a pointer to a struct is the struct, or \<open>VNil\<close>.

  A check of a template against the type of its data is sound: a template that passes it renders every
  value of that type without an error.
\<close>

section \<open>Values\<close>

datatype tval =
    VStr string
  | VInt int
  | VBool bool
  | VList "tval list"
  | VStruct "(string \<times> tval) list"
  | VNil

definition is_true :: "tval \<Rightarrow> bool" where
  "is_true v = (case v of VStr s \<Rightarrow> s \<noteq> [] | VInt i \<Rightarrow> i \<noteq> 0 | VBool b \<Rightarrow> b | VList vs \<Rightarrow> vs \<noteq> []
     | VStruct fs \<Rightarrow> True | VNil \<Rightarrow> False)"

definition print_value :: "tval \<Rightarrow> string answer" where
  "print_value v = (case v of VStr s \<Rightarrow> Inr s | VInt i \<Rightarrow> Inr (int_dec i)
     | VBool b \<Rightarrow> Inr (if b then ''true'' else ''false'') | _ \<Rightarrow> Inl ''unsupported value'')"

definition field_of :: "tval \<Rightarrow> string \<Rightarrow> tval answer" where
  "field_of v f = (case v of
       VStruct fs \<Rightarrow> (case map_of fs f of None \<Rightarrow> Inl (''can't evaluate field '' @ f) | Some x \<Rightarrow> Inr x)
     | VNil \<Rightarrow> Inl (''nil pointer evaluating '' @ f)
     | _ \<Rightarrow> Inl (''can't evaluate field '' @ f))"

definition try_bind :: "'a answer \<Rightarrow> ('a \<Rightarrow> 'b answer) \<Rightarrow> 'b answer" where
  "try_bind a f = (case a of Inl err \<Rightarrow> Inl err | Inr x \<Rightarrow> f x)"

lemma try_bind_simps [simp]: "try_bind (Inl err) f = Inl err" "try_bind (Inr x) f = f x"
  by (simp_all add: try_bind_def)

lemma try_bind_Inr: "try_bind a f = Inr y \<longleftrightarrow> (\<exists>x. a = Inr x \<and> f x = Inr y)"
  by (cases a) simp_all

primrec fields_of :: "tval \<Rightarrow> string list \<Rightarrow> tval answer" where
  "fields_of v [] = Inr v"
| "fields_of v (f # fs) = try_bind (field_of v f) (\<lambda>x. fields_of x fs)"

section \<open>Templates\<close>

datatype pipe = PField "string list" | PVar string "string list" | PStr string | PNe pipe pipe

datatype node =
    Text string
  | Action pipe
  | If pipe "node list" "node list"
  | Range "string list" pipe "node list"

type_synonym vars = "(string \<times> tval) list"

primrec eval_pipe :: "vars \<Rightarrow> tval \<Rightarrow> pipe \<Rightarrow> tval answer" where
  "eval_pipe vars dot (PField fs) = fields_of dot fs"
| "eval_pipe vars dot (PVar x fs) =
     (case map_of vars x of None \<Rightarrow> Inl (''undefined variable'') | Some v \<Rightarrow> fields_of v fs)"
| "eval_pipe vars dot (PStr s) = Inr (VStr s)"
| "eval_pipe vars dot (PNe p q) =
     try_bind (eval_pipe vars dot p) (\<lambda>a. try_bind (eval_pipe vars dot q) (\<lambda>b.
       case (a, b) of
         (VStr s, VStr t) \<Rightarrow> Inr (VBool (s \<noteq> t))
       | (VInt i, VInt j) \<Rightarrow> Inr (VBool (i \<noteq> j))
       | (VBool x, VBool y) \<Rightarrow> Inr (VBool (x \<noteq> y))
       | _ \<Rightarrow> Inl ''incompatible types for comparison''))"

text \<open>One variable is the element; of two, the first is the index.\<close>

definition bind_vars :: "string list \<Rightarrow> nat \<Rightarrow> tval \<Rightarrow> vars \<Rightarrow> vars" where
  "bind_vars xs i v vars =
     (case xs of [x] \<Rightarrow> (x, v) # vars | [k, x] \<Rightarrow> (x, v) # (k, VInt (int i)) # vars | _ \<Rightarrow> vars)"

fun exec_node :: "vars \<Rightarrow> tval \<Rightarrow> node \<Rightarrow> string answer"
  and exec_nodes :: "vars \<Rightarrow> tval \<Rightarrow> node list \<Rightarrow> string answer"
  and exec_range :: "string list \<Rightarrow> vars \<Rightarrow> nat \<Rightarrow> tval list \<Rightarrow> node list \<Rightarrow> string answer" where
  "exec_node vars dot (Text s) = Inr s"
| "exec_node vars dot (Action p) = try_bind (eval_pipe vars dot p) print_value"
| "exec_node vars dot (If p ns ms) =
     try_bind (eval_pipe vars dot p) (\<lambda>v. if is_true v then exec_nodes vars dot ns else exec_nodes vars dot ms)"
| "exec_node vars dot (Range xs p ns) =
     try_bind (eval_pipe vars dot p) (\<lambda>v.
       case v of VList vs \<Rightarrow> exec_range xs vars 0 vs ns | _ \<Rightarrow> Inl ''range can't iterate over the value'')"
| "exec_nodes vars dot [] = Inr []"
| "exec_nodes vars dot (n # ns) =
     try_bind (exec_node vars dot n) (\<lambda>s. try_bind (exec_nodes vars dot ns) (\<lambda>t. Inr (s @ t)))"
| "exec_range xs vars i [] ns = Inr []"
| "exec_range xs vars i (v # vs) ns =
     try_bind (exec_nodes (bind_vars xs i v vars) v ns) (\<lambda>s.
       try_bind (exec_range xs vars (Suc i) vs ns) (\<lambda>t. Inr (s @ t)))"

definition exec_template :: "node list \<Rightarrow> tval \<Rightarrow> string answer" where
  "exec_template t v = exec_nodes [] v t"

section \<open>Parsing\<close>

text \<open>The text is cut at the braces, and after every line; an action stands on one line.\<close>

definition eol :: string where "eol = [CHR 0x0A]"

definition unlines :: "string list \<Rightarrow> string" where
  "unlines ls = concat (map (\<lambda>l. l @ eol) ls)"

datatype segment = SText string | SAction string | SUnclosed

fun until_close :: "string \<Rightarrow> (string \<times> string) option" where
  "until_close [] = None"
| "until_close (c # cs) =
     (if c = CHR ''}'' \<and> take 1 cs = ''}'' then Some ([], drop 1 cs)
      else case until_close cs of None \<Rightarrow> None | Some (a, rest) \<Rightarrow> Some (c # a, rest))"

lemma until_close_shorter: "until_close cs = Some (a, rest) \<Longrightarrow> length rest < length cs"
proof (induction cs arbitrary: a)
  case (Cons c cs)
  then show ?case by (fastforce split: if_splits option.splits)
qed simp

definition add_text :: "char \<Rightarrow> segment list \<Rightarrow> segment list" where
  "add_text c segs = (if c = CHR 0x0A then SText [c] # segs
     else case segs of SText s # rest \<Rightarrow> SText (c # s) # rest | _ \<Rightarrow> SText [c] # segs)"

function segments :: "string \<Rightarrow> segment list" where
  "segments [] = []"
| "segments (c # cs) =
     (if c = CHR ''{'' \<and> take 1 cs = ''{'' then
        (case until_close (drop 1 cs) of
           None \<Rightarrow> [SUnclosed]
         | Some (a, rest) \<Rightarrow> SAction a # segments rest)
      else add_text c (segments cs))"
  by pat_completeness auto
termination
  by (relation "measure length") (auto dest!: until_close_shorter)

text \<open>The segments of a text are those of its lines; a line without a brace is one segment.\<close>

definition one_line :: "string \<Rightarrow> segment list" where
  "one_line l = (if list_all (\<lambda>c. c \<noteq> CHR ''{'' \<and> c \<noteq> CHR 0x0A) l then [SText (l @ eol)] else segments (l @ eol))"

lemma one_line_segments: "one_line l = segments (l @ eol)"
proof -
  have "segments (l @ eol) = [SText (l @ eol)]" if "list_all (\<lambda>c. c \<noteq> CHR ''{'' \<and> c \<noteq> CHR 0x0A) l"
    using that
  proof (induction l)
    case Nil
    then show ?case by (simp add: eol_def add_text_def)
  next
    case (Cons c l)
    then show ?case by (simp add: add_text_def)
  qed
  then show ?thesis by (simp add: one_line_def)
qed

lemma until_close_append:
  "until_close s = Some (a, rest) \<Longrightarrow> until_close (s @ t) = Some (a, rest @ t)"
proof (induction s arbitrary: a)
  case (Cons c s)
  then show ?case by (cases s) (auto split: if_splits option.splits)
qed simp

lemma until_close_eol: "until_close (s @ eol) = Some (a, rest) \<Longrightarrow> \<exists>r. rest = r @ eol"
proof (induction s arbitrary: a)
  case Nil
  then show ?case by (simp add: eol_def)
next
  case (Cons c s)
  show ?case
  proof (cases "c = CHR ''}'' \<and> take 1 (s @ eol) = ''}''")
    case True
    with Cons.prems show ?thesis by (cases s) (auto simp: eol_def)
  next
    case False
    with Cons.prems obtain a' where "until_close (s @ eol) = Some (a', rest)" by (auto split: option.splits)
    then show ?thesis by (rule Cons.IH)
  qed
qed

lemma add_text_append: "a \<noteq> [] \<Longrightarrow> add_text c (a @ b) = add_text c a @ b"
  by (cases a) (auto simp: add_text_def split: segment.split)

lemma add_text_nonempty: "add_text c a \<noteq> []"
  by (auto simp: add_text_def split: list.split segment.split)

lemma segments_nonempty: "cs \<noteq> [] \<Longrightarrow> segments cs \<noteq> []"
  by (cases cs) (auto simp: add_text_nonempty split: option.splits)

lemma SUnclosed_add_text [simp]: "SUnclosed \<in> set (add_text c segs) \<longleftrightarrow> SUnclosed \<in> set segs"
  by (auto simp: add_text_def split: list.split segment.split)

lemma segments_line:
  "SUnclosed \<notin> set (segments (l @ eol)) \<Longrightarrow> segments (l @ eol @ cs) = segments (l @ eol) @ segments cs"
proof (induction l rule: measure_induct_rule [where f = length])
  case (less l)
  show ?case
  proof (cases l)
    case Nil
    then show ?thesis by (simp add: eol_def add_text_def)
  next
    case (Cons c l')
    have t: "take 1 (l' @ eol @ cs) = take 1 (l' @ eol)" by (cases l') (auto simp: eol_def)
    show ?thesis
    proof (cases "c = CHR ''{'' \<and> take 1 (l' @ eol) = ''{''")
      case True
      then obtain l'' where l'': "l' = CHR ''{'' # l''" by (cases l') (auto simp: eol_def)
      with Cons True less.prems obtain x rest where u: "until_close (l'' @ eol) = Some (x, rest)"
        and s: "segments (l @ eol) = SAction x # segments rest" "SUnclosed \<notin> set (segments rest)"
        by (auto split: option.splits)
      obtain r where r: "rest = r @ eol" using until_close_eol [OF u] by blast
      have "length r < length l" using until_close_shorter [OF u] r Cons l'' by (simp add: eol_def)
      from less.IH [OF this] s(2) r have "segments (rest @ cs) = segments rest @ segments cs" by simp
      moreover have "until_close (l'' @ eol @ cs) = Some (x, rest @ cs)"
        using until_close_append [OF u, of cs] by simp
      ultimately show ?thesis using True Cons l'' s(1) by simp
    next
      case False
      then have s: "segments (c # l' @ eol) = add_text c (segments (l' @ eol))"
        by (simp only: segments.simps if_False)
      have "segments (c # l' @ eol @ cs) = add_text c (segments (l' @ eol @ cs))"
        using False by (simp only: segments.simps t if_False)
      moreover have "segments (l' @ eol @ cs) = segments (l' @ eol) @ segments cs"
        using less.IH [of l'] less.prems Cons s by simp
      moreover have "segments (l' @ eol) \<noteq> []" by (rule segments_nonempty) (simp add: eol_def)
      ultimately show ?thesis using Cons s by (simp del: segments.simps add: add_text_append)
    qed
  qed
qed

lemma segments_unlines:
  "SUnclosed \<notin> set (concat (map one_line ls)) \<Longrightarrow> segments (unlines ls) = concat (map one_line ls)"
proof (induction ls)
  case Nil
  then show ?case by (simp add: unlines_def)
next
  case (Cons l ls)
  then show ?case using segments_line [of l "unlines ls"] by (simp add: unlines_def one_line_segments)
qed

datatype token = TField "string list" | TVar string "string list" | TStr string | TWord string | TComma | TDeclare

definition is_space :: "char \<Rightarrow> bool" where
  "is_space c \<longleftrightarrow> c = CHR '' '' \<or> c = CHR 0x09 \<or> c = CHR 0x0A \<or> c = CHR 0x0D"

definition word_char :: "char \<Rightarrow> bool" where
  "word_char c \<longleftrightarrow> \<not> is_space c \<and> c \<noteq> CHR '','' \<and> c \<noteq> CHR '':'' \<and> c \<noteq> CHR 0x22"

definition mk_word :: "string \<Rightarrow> token" where
  "mk_word w = (case split_on CHR ''.'' w of
       [] \<Rightarrow> TWord w
     | x # fs \<Rightarrow> if x = [] then TField fs else if take 1 x = ''$'' then TVar x fs else TWord w)"

function tokens :: "string \<Rightarrow> token list answer" where
  "tokens [] = Inr []"
| "tokens (c # cs) =
     (if is_space c then tokens cs
      else if c = CHR '','' then try_bind (tokens cs) (\<lambda>ts. Inr (TComma # ts))
      else if c = CHR '':'' then
        (if take 1 cs = ''='' then try_bind (tokens (drop 1 cs)) (\<lambda>ts. Inr (TDeclare # ts))
         else Inl ''expected :='')
      else if c = CHR 0x22 then
        (if CHR 0x22 \<in> set cs \<and> CHR 0x5C \<notin> set cs
         then try_bind (tokens (drop 1 (dropWhile (\<lambda>d. d \<noteq> CHR 0x22) cs))) (\<lambda>ts.
                Inr (TStr (takeWhile (\<lambda>d. d \<noteq> CHR 0x22) cs) # ts))
         else Inl ''unterminated quoted string'')
      else try_bind (tokens (dropWhile word_char cs)) (\<lambda>ts. Inr (mk_word (c # takeWhile word_char cs) # ts)))"
  by pat_completeness auto
termination
  by (relation "measure length") (auto simp: less_Suc_eq_le le_diff_conv intro: le_trans [OF length_dropWhile_le])

primrec parse_operand :: "token \<Rightarrow> pipe answer" where
  "parse_operand (TField fs) = Inr (PField fs)"
| "parse_operand (TVar x fs) = Inr (PVar x fs)"
| "parse_operand (TStr s) = Inr (PStr s)"
| "parse_operand (TWord w) = Inl (''function '' @ w @ '' not defined'')"
| "parse_operand TComma = Inl ''unexpected ,''"
| "parse_operand TDeclare = Inl ''unexpected :=''"

fun parse_pipe :: "token list \<Rightarrow> pipe answer" where
  "parse_pipe [t] = parse_operand t"
| "parse_pipe [TWord w, t, u] =
     (if w = ''ne'' then try_bind (parse_operand t) (\<lambda>p. try_bind (parse_operand u) (\<lambda>q. Inr (PNe p q)))
      else Inl (''function '' @ w @ '' not defined''))"
| "parse_pipe ts = Inl ''unexpected command''"

fun parse_range :: "token list \<Rightarrow> (string list \<times> pipe) answer" where
  "parse_range (TVar x [] # TDeclare # ts) = try_bind (parse_pipe ts) (\<lambda>p. Inr ([x], p))"
| "parse_range (TVar k [] # TComma # TVar x [] # TDeclare # ts) = try_bind (parse_pipe ts) (\<lambda>p. Inr ([k, x], p))"
| "parse_range ts = try_bind (parse_pipe ts) (\<lambda>p. Inr ([], p))"

text \<open>What an action is: a value to print, or a word of a control structure. A comment is nothing.\<close>

datatype item = IText string | IAction pipe | IIf pipe | IElse | IEnd | IRange "string list" pipe | IBad string

definition mk_item :: "(pipe \<Rightarrow> item) \<Rightarrow> pipe answer \<Rightarrow> item" where
  "mk_item f p = (case p of Inl err \<Rightarrow> IBad err | Inr p \<Rightarrow> f p)"

definition action_item :: "token list \<Rightarrow> item" where
  "action_item ts =
     (if ts = [TWord ''end''] then IEnd
      else if ts = [TWord ''else''] then IElse
      else if take 1 ts = [TWord ''if''] then mk_item IIf (parse_pipe (drop 1 ts))
      else if take 1 ts = [TWord ''range''] then
        (case parse_range (drop 1 ts) of Inl err \<Rightarrow> IBad err | Inr (xs, p) \<Rightarrow> IRange xs p)
      else mk_item IAction (parse_pipe ts))"

definition is_comment :: "string \<Rightarrow> bool" where
  "is_comment a \<longleftrightarrow> take 2 a = ''/*'' \<and> take 2 (rev a) = ''/*''"

primrec segment_items :: "segment \<Rightarrow> item list" where
  "segment_items (SText s) = [IText s]"
| "segment_items (SAction a) =
     (if is_comment a then []
      else [case tokens a of Inl err \<Rightarrow> IBad err | Inr ts \<Rightarrow> action_item ts])"
| "segment_items SUnclosed = [IBad ''unclosed action'']"

text \<open>The control structures that are open, innermost first, each with the nodes around it in reverse.\<close>

datatype frame =
    FIf pipe "node list"
  | FElse pipe "node list" "node list"
  | FRange "string list" pipe "node list"

fun build :: "item list \<Rightarrow> node list \<Rightarrow> frame list \<Rightarrow> node list answer" where
  "build [] ns [] = Inr (rev ns)"
| "build (IText s # is) ns fs = build is (Text s # ns) fs"
| "build (IAction p # is) ns fs = build is (Action p # ns) fs"
| "build (IIf p # is) ns fs = build is [] (FIf p ns # fs)"
| "build (IRange xs p # is) ns fs = build is [] (FRange xs p ns # fs)"
| "build (IElse # is) ns (FIf p ms # fs) = build is [] (FElse p (rev ns) ms # fs)"
| "build (IEnd # is) ns (FIf p ms # fs) = build is (If p (rev ns) [] # ms) fs"
| "build (IEnd # is) ns (FElse p ks ms # fs) = build is (If p ks (rev ns) # ms) fs"
| "build (IEnd # is) ns (FRange xs p ms # fs) = build is (Range xs p (rev ns) # ms) fs"
| "build (IBad err # is) ns fs = Inl err"
| "build is ns fs = Inl ''unexpected {{else}}, {{end}} or EOF''"

lemma build_good: "build is ns fs = Inr t \<Longrightarrow> IBad err \<notin> set is"
  by (induction "is" ns fs rule: build.induct) auto

definition parse_template :: "string \<Rightarrow> node list answer" where
  "parse_template s = build (concat (map segment_items (segments s))) [] []"

text \<open>The items of the lines decide what a text parses to.\<close>

definition line_items :: "string \<Rightarrow> item list" where
  "line_items l = concat (map segment_items (one_line l))"

lemma parse_lines:
  assumes "build (concat (map line_items ls)) [] [] = Inr t"
  shows "parse_template (unlines ls) = Inr t"
proof -
  have items: "concat (map line_items ls) = concat (map segment_items (concat (map one_line ls)))"
    by (induction ls) (simp_all add: line_items_def)
  have "SUnclosed \<notin> set (concat (map one_line ls))"
  proof
    assume "SUnclosed \<in> set (concat (map one_line ls))"
    then have "IBad ''unclosed action'' \<in> set (concat (map line_items ls))" unfolding items by force
    with build_good [OF assms] show False by blast
  qed
  from segments_unlines [OF this] assms show ?thesis by (simp only: parse_template_def items)
qed

section \<open>Checking a template against the type of its data\<close>

datatype ty = TyStr | TyInt | TyBool | TyList ty | TyStruct "(string \<times> ty) list"

inductive has_type :: "tval \<Rightarrow> ty \<Rightarrow> bool" where
  ht_str: "has_type (VStr s) TyStr"
| ht_int: "has_type (VInt i) TyInt"
| ht_bool: "has_type (VBool b) TyBool"
| ht_list: "(\<And>v. v \<in> set vs \<Longrightarrow> has_type v t) \<Longrightarrow> has_type (VList vs) (TyList t)"
| ht_struct: "(\<And>k t. map_of ts k = Some t \<Longrightarrow> \<exists>v. map_of fs k = Some v \<and> has_type v t) \<Longrightarrow>
    has_type (VStruct fs) (TyStruct ts)"

inductive_simps has_type_simps [simp]:
  "has_type v TyStr" "has_type v TyInt" "has_type v TyBool" "has_type v (TyList t)" "has_type v (TyStruct ts)"

text \<open>A list of fields against a list of field types, one by one.\<close>

lemma has_type_fields:
  assumes "list_all2 (\<lambda>f ft. fst f = fst ft \<and> has_type (snd f) (snd ft)) fs ts"
  shows "has_type (VStruct fs) (TyStruct ts)"
proof (rule ht_struct)
  fix k t
  assume "map_of ts k = Some t"
  with assms show "\<exists>v. map_of fs k = Some v \<and> has_type v t"
    by (induction rule: list_all2_induct) (auto split: if_splits)
qed

primrec fields_ty :: "ty \<Rightarrow> string list \<Rightarrow> ty option" where
  "fields_ty t [] = Some t"
| "fields_ty t (f # fs) =
     (case t of TyStruct ts \<Rightarrow> (case map_of ts f of None \<Rightarrow> None | Some u \<Rightarrow> fields_ty u fs) | _ \<Rightarrow> None)"

definition basic_ty :: "ty \<Rightarrow> bool" where
  "basic_ty t \<longleftrightarrow> t = TyStr \<or> t = TyInt \<or> t = TyBool"

type_synonym var_types = "(string \<times> ty) list"

primrec pipe_ty :: "var_types \<Rightarrow> ty \<Rightarrow> pipe \<Rightarrow> ty option" where
  "pipe_ty vts dot (PField fs) = fields_ty dot fs"
| "pipe_ty vts dot (PVar x fs) = (case map_of vts x of None \<Rightarrow> None | Some t \<Rightarrow> fields_ty t fs)"
| "pipe_ty vts dot (PStr s) = Some TyStr"
| "pipe_ty vts dot (PNe p q) =
     (case pipe_ty vts dot p of
        None \<Rightarrow> None
      | Some t \<Rightarrow> if pipe_ty vts dot q = Some t \<and> basic_ty t then Some TyBool else None)"

definition bind_types :: "string list \<Rightarrow> ty \<Rightarrow> var_types \<Rightarrow> var_types" where
  "bind_types xs t vts =
     (case xs of [x] \<Rightarrow> (x, t) # vts | [k, x] \<Rightarrow> (x, t) # (k, TyInt) # vts | _ \<Rightarrow> vts)"

fun check_node :: "var_types \<Rightarrow> ty \<Rightarrow> node \<Rightarrow> bool"
  and check_nodes :: "var_types \<Rightarrow> ty \<Rightarrow> node list \<Rightarrow> bool" where
  "check_node vts dot (Text s) = True"
| "check_node vts dot (Action p) = (case pipe_ty vts dot p of None \<Rightarrow> False | Some t \<Rightarrow> basic_ty t)"
| "check_node vts dot (If p ns ms) = (pipe_ty vts dot p \<noteq> None \<and> check_nodes vts dot ns \<and> check_nodes vts dot ms)"
| "check_node vts dot (Range xs p ns) =
     (case pipe_ty vts dot p of Some (TyList t) \<Rightarrow> check_nodes (bind_types xs t vts) t ns | _ \<Rightarrow> False)"
| "check_nodes vts dot [] = True"
| "check_nodes vts dot (n # ns) = (check_node vts dot n \<and> check_nodes vts dot ns)"

definition vars_ok :: "vars \<Rightarrow> var_types \<Rightarrow> bool" where
  "vars_ok vars vts \<longleftrightarrow> (\<forall>x t. map_of vts x = Some t \<longrightarrow> (\<exists>v. map_of vars x = Some v \<and> has_type v t))"

lemma vars_ok_Nil [simp]: "vars_ok vars []"
  by (simp add: vars_ok_def)

lemma vars_ok_bind: "vars_ok vars vts \<Longrightarrow> has_type v t \<Longrightarrow> vars_ok (bind_vars xs i v vars) (bind_types xs t vts)"
  by (auto simp: vars_ok_def bind_vars_def bind_types_def split: list.split)

lemma fields_of_typed:
  "has_type v t \<Longrightarrow> fields_ty t fs = Some u \<Longrightarrow> \<exists>x. fields_of v fs = Inr x \<and> has_type x u"
proof (induction fs arbitrary: v t)
  case Nil
  then show ?case by simp
next
  case (Cons f fs)
  then obtain ts t' where t: "t = TyStruct ts" "map_of ts f = Some t'" "fields_ty t' fs = Some u"
    by (auto split: ty.splits option.splits)
  with Cons.prems(1) obtain gs where v: "v = VStruct gs"
    and gs: "\<forall>k t. map_of ts k = Some t \<longrightarrow> (\<exists>v. map_of gs k = Some v \<and> has_type v t)"
    by auto
  from gs t(2) obtain x where "map_of gs f = Some x" "has_type x t'" by blast
  with v Cons.IH [OF _ t(3)] show ?case by (simp add: field_of_def)
qed

lemma eval_pipe_typed:
  assumes "vars_ok vars vts" and "has_type dot d"
  shows "pipe_ty vts d p = Some t \<Longrightarrow> \<exists>v. eval_pipe vars dot p = Inr v \<and> has_type v t"
proof (induction p arbitrary: t)
  case (PField fs)
  with fields_of_typed [OF assms(2)] show ?case by simp
next
  case (PVar x fs)
  then obtain u where u: "map_of vts x = Some u" "fields_ty u fs = Some t" by (auto split: option.splits)
  with assms(1) obtain v where "map_of vars x = Some v" "has_type v u" by (auto simp: vars_ok_def)
  with fields_of_typed [OF _ u(2)] show ?case by simp
next
  case (PNe p q)
  then obtain u where u: "pipe_ty vts d p = Some u" "pipe_ty vts d q = Some u" "basic_ty u" "t = TyBool"
    by (auto split: option.splits if_splits)
  with PNe.IH obtain a b where "eval_pipe vars dot p = Inr a" "has_type a u" "eval_pipe vars dot q = Inr b" "has_type b u"
    by blast
  with u(3,4) show ?case by (auto simp: basic_ty_def)
qed simp

lemma print_value_typed: "has_type v t \<Longrightarrow> basic_ty t \<Longrightarrow> \<exists>s. print_value v = Inr s"
  by (auto simp: basic_ty_def print_value_def)

lemma exec_typed:
  "\<And>vts d. vars_ok vars vts \<Longrightarrow> has_type dot d \<Longrightarrow> check_node vts d n \<Longrightarrow> \<exists>out. exec_node vars dot n = Inr out"
  "\<And>vts d. vars_ok vars vts \<Longrightarrow> has_type dot d \<Longrightarrow> check_nodes vts d ns \<Longrightarrow> \<exists>out. exec_nodes vars dot ns = Inr out"
  "\<And>vts t. vars_ok vars vts \<Longrightarrow> (\<And>v. v \<in> set vs \<Longrightarrow> has_type v t) \<Longrightarrow> check_nodes (bind_types xs t vts) t ns \<Longrightarrow>
    \<exists>out. exec_range xs vars i vs ns = Inr out"
proof (induction vars dot n and vars dot ns and xs vars i vs ns rule: exec_node_exec_nodes_exec_range.induct)
  case (2 vars dot p)
  then obtain t where "pipe_ty vts d p = Some t" "basic_ty t" by (auto split: option.splits)
  with eval_pipe_typed [OF 2(1,2)] print_value_typed show ?case by fastforce
next
  case (3 vars dot p ns ms)
  then obtain t where "pipe_ty vts d p = Some t" by auto
  with eval_pipe_typed [OF 3(3,4)] obtain v where "eval_pipe vars dot p = Inr v" by blast
  with 3 show ?case by (cases "is_true v") auto
next
  case (4 vars dot xs p ns)
  then obtain t where t: "pipe_ty vts d p = Some (TyList t)" and c: "check_nodes (bind_types xs t vts) t ns"
    by (auto split: option.splits ty.splits)
  with eval_pipe_typed [OF 4(2,3) t] obtain vs where
    vs: "eval_pipe vars dot p = Inr (VList vs)" "\<And>v. v \<in> set vs \<Longrightarrow> has_type v t" by auto
  have "\<exists>out. exec_range xs vars 0 vs ns = Inr out" by (rule 4(1) [OF 4(2) vs(2) c])
  with vs show ?case by simp
next
  case (6 vars dot n ns)
  then show ?case by fastforce
next
  case (8 xs vars i v vs ns)
  have "\<exists>out. exec_nodes (bind_vars xs i v vars) v ns = Inr out"
    by (rule 8(1)) (use 8(3-5) in \<open>auto intro: vars_ok_bind\<close>)
  moreover have "\<exists>out. exec_range xs vars (Suc i) vs ns = Inr out"
    by (rule 8(2)) (use 8(3-5) in auto)
  ultimately show ?case by auto
qed simp_all

lemma exec_template_typed:
  "has_type v t \<Longrightarrow> check_nodes [] t tmpl \<Longrightarrow> \<exists>out. exec_template tmpl v = Inr out"
  using exec_typed(2) [of "[]" "[]"] by (simp add: exec_template_def)

end
