(* ===== verification/Command.thy ===== *)
theory Command
  imports Server_Channels Go_Template
begin

text \<open>
  \<open>cmd/interlock\<close>: where \<open>interlock run\<close> takes its configuration from and how it starts the server, and
  what \<open>interlock spec\<close> prints. The key-value store (\<open>libkv\<close>), the TLS options for it, the parser of
  addresses, the TOML coder and the file system are arguments. \<open>log.Fatal\<close> is a \<open>Panic\<close>.
\<close>

section \<open>The key-value store\<close>

record 't kv_options =
  ConnectionTimeoutSec :: int
  kv_TLS :: "'t option"

record ('t, 'k) kv_env =
  url_Parse :: "string \<Rightarrow> (string \<times> string) answer"
  tlsconfig_Client :: "string \<Rightarrow> string \<Rightarrow> string \<Rightarrow> 't answer"
  consul_New :: "string list \<Rightarrow> 't kv_options \<Rightarrow> 'k answer"
  etcd_New :: "string list \<Rightarrow> 't kv_options \<Rightarrow> 'k answer"
  kv_Exists :: "'k \<Rightarrow> string \<Rightarrow> bool answer"
  kv_Get :: "'k \<Rightarrow> string \<Rightarrow> string answer"

text \<open>
  The stores that \<open>init\<close> registers with \<open>libkv\<close>. The list of supported stores in its error is made when
  the package is initialized, before the first of them is registered, and so it is empty.
\<close>

definition kv_initializers :: "('t, 'k) kv_env \<Rightarrow> (string, string list \<Rightarrow> 't kv_options \<Rightarrow> 'k answer) gomap" where
  "kv_initializers v = gm_set ''etcd'' (etcd_New v) (gm_set ''consul'' (consul_New v) [])"

definition libkv_NewStore :: "('t, 'k) kv_env \<Rightarrow> string \<Rightarrow> string list \<Rightarrow> 't kv_options \<Rightarrow> 'k answer" where
  "libkv_NewStore v backend addrs options =
     (case gm_get (kv_initializers v) backend of
        Some New \<Rightarrow> New addrs options
      | None \<Rightarrow> Inl ''Backend storage not supported yet, please choose one of '')"

definition getKVStore :: "('t, 'k) kv_env \<Rightarrow> string \<Rightarrow> 't kv_options \<Rightarrow> 'k answer" where
  "getKVStore v addr options =
     (case url_Parse v addr of
        Inl err \<Rightarrow> Inl err
      | Inr (scheme, host) \<Rightarrow>
          (let kvType = strings_ToLower scheme;
               backend = (if kvType = ''consul'' then ''consul'' else if kvType = ''etcd'' then ''etcd'' else [])
           in libkv_NewStore v backend [host] options))"

section \<open>Running\<close>

record run_flags =
  fl_config :: string
  fl_discovery :: string
  fl_discovery_tls_ca_cert :: string
  fl_discovery_tls_cert :: string
  fl_discovery_tls_key :: string

definition defaultConfig :: string where
  "defaultConfig = ''ListenAddr = '' @ [CHR 0x22] @ '':8080'' @ [CHR 0x22] @ eol
     @ ''DockerURL = '' @ [CHR 0x22] @ ''unix:///var/run/docker.sock'' @ [CHR 0x22] @ eol
     @ ''EnableMetrics = true'' @ eol"

definition kvConfigKey :: string where
  "kvConfigKey = ''interlock/v1/config''"

text \<open>A file that is not there, one that cannot be read, and the data of one that can.\<close>

datatype read_result = ReadMissing | ReadFailed string | ReadData string

record ('t, 'k, 'c) cmd_env =
  cmd_kv :: "('t, 'k) kv_env"
  cmd_ReadFile :: "string \<Rightarrow> read_result"
  cmd_client :: "'c client_env"
  toml_Decode :: "string \<Rightarrow> config res"
  cmd_load :: load_env
  cmd_sha :: "string \<Rightarrow> string"
  cmd_listen :: "string \<Rightarrow> error"

definition kv_data :: "('t, 'k) kv_env \<Rightarrow> run_flags \<Rightarrow> string res" where
  "kv_data v fl =
     res_bind
       (if fl_discovery_tls_ca_cert fl \<noteq> [] \<and> fl_discovery_tls_cert fl \<noteq> [] \<and> fl_discovery_tls_key fl \<noteq> []
        then res_bind (or_fatal [] (tlsconfig_Client v (fl_discovery_tls_ca_cert fl) (fl_discovery_tls_cert fl)
               (fl_discovery_tls_key fl))) (\<lambda>tls. Ok (Some tls))
        else Ok None) (\<lambda>tls.
     res_bind (or_fatal [] (getKVStore v (fl_discovery fl) \<lparr>ConnectionTimeoutSec = 10, kv_TLS = tls\<rparr>)) (\<lambda>kv.
     res_bind (or_fatal [] (kv_Exists v kv kvConfigKey)) (\<lambda>exists.
       if \<not> exists then Ok defaultConfig
       else res_bind (or_fatal ''error getting configuration from key value store: '' (kv_Get v kv kvConfigKey)) (\<lambda>data.
              if data = [] then Ok defaultConfig else Ok data))))"

definition file_data :: "(string \<Rightarrow> read_result) \<Rightarrow> string \<Rightarrow> string res" where
  "file_data readFile configPath =
     (case readFile configPath of
        ReadMissing \<Rightarrow> Panic (''config not found: file='' @ configPath)
      | ReadData d \<Rightarrow> Ok d
      | ReadFailed err \<Rightarrow> Panic err)"

definition run_data :: "('t, 'k, 'c) cmd_env \<Rightarrow> run_flags \<Rightarrow> string res" where
  "run_data v fl =
     (let data = os_Getenv (cmd_client v) ''INTERLOCK_CONFIG''
      in res_bind (if fl_discovery fl \<noteq> [] then kv_data (cmd_kv v) fl else Ok data) (\<lambda>data.
         res_bind (if fl_config fl \<noteq> [] \<and> data = [] then file_data (cmd_ReadFile v) (fl_config fl) else Ok data) (\<lambda>data.
           if data = [] then Panic ''You must specify a config from a file, environment variable, or key value store''
           else Ok data)))"

text \<open>An error that ends the process.\<close>

definition fatal :: "'a res \<Rightarrow> 'a res" where
  "fatal r = (case r of Ok x \<Rightarrow> Ok x | Err err \<Rightarrow> Panic err | Panic p \<Rightarrow> Panic p)"

text \<open>
  \<open>runAction\<close>: the registry of metrics is empty when the process starts, and the result is that of the
  HTTP listener.
\<close>

definition runAction :: "('t, 'k, 'c) cmd_env \<Rightarrow> run_flags \<Rightarrow> unit res" where
  "runAction v fl =
     res_bind (run_data v fl) (\<lambda>data.
     res_bind (fatal (ParseConfig (toml_Decode v) data)) (\<lambda>cfg.
     res_bind (fatal (snd (NewServer [] (cmd_client v) (cmd_load v) (cmd_sha v) cfg))) (\<lambda>_.
       fatal (server_Run (le_ParseDuration (cmd_load v)) (cmd_listen v (ListenAddr cfg)) cfg))))"

section \<open>Printing a configuration\<close>

definition spec_config :: config where
  "spec_config =
     (let ec = zero_ext_config\<lparr>Name := ''nginx'', ConfigPath := ''/etc/nginx/nginx.conf'',
            PidPath := ''/var/run/nginx.pid'', TemplatePath := ''/etc/interlock/nginx.conf.template'',
            BackendOverrideAddress := []\<rparr>;
          ec = SetConfigDefaults ec
      in \<lparr>ListenAddr = '':8080'', DockerURL = ''unix:///var/run/docker.sock'', TLSCACert = [], TLSCert = [],
          TLSKey = [], AllowInsecure = False, EnableMetrics = True, PollInterval = [], Extensions = [ec],
          cfg_Rules = []\<rparr>)"

definition specAction :: "(config \<Rightarrow> string res) \<Rightarrow> string res" where
  "specAction toml_Encode = fatal (toml_Encode spec_config)"

section \<open>Which source decides\<close>

lemma defaultConfig_nonempty [simp]: "defaultConfig \<noteq> []"
  by (simp add: defaultConfig_def)

lemma kv_data_nonempty: "kv_data v fl = Ok data \<Longrightarrow> data \<noteq> []"
  by (auto simp: kv_data_def go_res split: if_splits)

text \<open>A configuration in the key-value store decides alone: with \<open>--discovery\<close>, neither the
  environment variable \<open>INTERLOCK_CONFIG\<close> nor the file of \<open>--config\<close> matters. Otherwise a configuration
  in the environment decides, and the file is not even read.\<close>

theorem config_precedence:
  assumes "fl_discovery fl \<noteq> [] \<or> os_Getenv (cmd_client v) ''INTERLOCK_CONFIG'' \<noteq> []"
  shows "run_data (v\<lparr>cmd_ReadFile := readFile\<rparr>) (fl\<lparr>fl_config := path\<rparr>) =
    (if fl_discovery fl \<noteq> [] then kv_data (cmd_kv v) fl
     else Ok (os_Getenv (cmd_client v) ''INTERLOCK_CONFIG''))"
proof (cases "fl_discovery fl \<noteq> []")
  case True
  have "kv_data (cmd_kv v) (fl\<lparr>fl_config := path\<rparr>) = kv_data (cmd_kv v) fl" by (simp add: kv_data_def)
  with True show ?thesis
    by (cases "kv_data (cmd_kv v) fl") (auto simp: run_data_def Let_def dest: kv_data_nonempty)
next
  case False
  with assms show ?thesis by (simp add: run_data_def Let_def)
qed

text \<open>An address of another kind of store ends the process.\<close>

lemma unknown_store_fatal:
  assumes "url_Parse (cmd_kv v) (fl_discovery fl) = Inr (scheme, host)" and "fl_discovery fl \<noteq> []"
    and "strings_ToLower scheme \<notin> {''consul'', ''etcd''}"
  shows "is_panic (runAction v fl)"
proof -
  have "getKVStore (cmd_kv v) (fl_discovery fl) options = Inl ''Backend storage not supported yet, please choose one of ''"
    for options
    using assms(1,3) by (simp add: getKVStore_def libkv_NewStore_def kv_initializers_def Let_def go_map)
  then have "is_panic (kv_data (cmd_kv v) fl)"
    by (auto simp: kv_data_def is_panic_bind or_fatal_def split: sum.split)
  then show ?thesis using assms(2) by (simp add: runAction_def run_data_def is_panic_bind Let_def)
qed

section \<open>The printed configuration\<close>

lemma fatal_panics: "is_panic r \<Longrightarrow> is_panic (fatal r)"
  by (cases r) (simp_all add: fatal_def)

lemma spec_config_defaults:
  "Extensions spec_config = map (\<lambda>ext. (SetConfigDefaults ext)\<lparr>Rules := cfg_Rules spec_config\<rparr>) (Extensions spec_config)"
  by (simp add: spec_config_def Let_def SetConfigDefaults_idem) (simp add: set_defaults zero_ext_config_def)

lemma spec_config_parsed:
  assumes "toml_Decode v data = Ok spec_config"
  shows "ParseConfig (toml_Decode v) data = Ok spec_config"
  using assms spec_config_defaults by (simp add: ParseConfig_def)

lemma spec_template:
  "\<exists>ec. Extensions spec_config = [ec] \<and> Name ec = ''nginx'' \<and> TemplatePath ec = ''/etc/interlock/nginx.conf.template''"
  by (simp add: spec_config_def Let_def set_defaults zero_ext_config_def)


lemma spec_extensions:
  assumes "le_ContainerID lv = Ok cid"
  shows "loadExtensions lv spec_config =
    (if le_IsNotExist lv ''/etc/interlock/nginx.conf.template'' then Panic ''exit status 1''
     else case NewLoadBalancer (\<lambda>_. False) (Ok cid) (le_backend lv) (hd (Extensions spec_config)) of
       Ok l \<Rightarrow> Ok [LBExtension l] | Err err \<Rightarrow> Ok [] | Panic p \<Rightarrow> Panic p)"
proof -
  obtain ec where ec: "Extensions spec_config = [ec]" "Name ec = ''nginx''"
    "TemplatePath ec = ''/etc/interlock/nginx.conf.template''"
    using spec_template by blast
  then show ?thesis
    using assms by (simp add: loadExtensions_def load_extension_def NewLoadBalancer_def ttl_New_def ReloadThreshold_def
        select_backend_def NewNginxLoadBalancer_def Let_def)
qed

text \<open>The configuration that \<open>interlock spec\<close> prints is read back as it was printed; its defaults
  are already set. A server that is started from it has one extension, the nginx load balancer, if the
  template file that it names is there; if not, the process ends.\<close>

theorem spec_config_starts:
  assumes "specAction toml_Encode = Ok data" and "toml_Decode v data = Ok spec_config"
    and "getDockerClient (cmd_client v) spec_config = Ok c" and "le_ContainerID (cmd_load v) = Ok cid"
  shows "ParseConfig (toml_Decode v) data = Ok spec_config
    \<and> snd (NewServer [] (cmd_client v) (cmd_load v) (cmd_sha v) spec_config) =
        (if le_IsNotExist (cmd_load v) ''/etc/interlock/nginx.conf.template'' then Panic ''exit status 1''
         else Ok (\<lparr>ce_cfg = spec_config, ce_extensions = 1, ce_sha = cmd_sha v\<rparr>, ch_init))"
proof -
  obtain ec where ec: "Extensions spec_config = [ec]" "Name ec = ''nginx''" using spec_template by blast
  have "is_ok (NewLoadBalancer (\<lambda>_. False) (Ok cid) (le_backend (cmd_load v)) ec)"
    using ec by (simp add: NewLoadBalancer_ok_iff)
  then obtain l where "NewLoadBalancer (\<lambda>_. False) (Ok cid) (le_backend (cmd_load v)) ec = Ok l" by (rule is_okE)
  with ec assms(3) spec_extensions [OF assms(4)] spec_config_parsed [OF assms(2)] show ?thesis
    by (simp add: NewServer_def NewMetrics_def)
qed

definition sample_cmd_env :: "string \<Rightarrow> (unit, unit, client_args) cmd_env" where
  "sample_cmd_env interlock_config =
     \<lparr>cmd_kv = \<lparr>url_Parse = (\<lambda>_. Inr (''etcd'', ''1.2.3.4:4001'')), tlsconfig_Client = (\<lambda>_ _ _. Inr ()),
        consul_New = (\<lambda>_ _. Inr ()), etcd_New = (\<lambda>_ _. Inr ()), kv_Exists = (\<lambda>_ _. Inr False), kv_Get = (\<lambda>_ _. Inl ''no key'')\<rparr>,
      cmd_ReadFile = (\<lambda>_. ReadMissing), cmd_client = tls_env [(''INTERLOCK_CONFIG'', interlock_config)],
      toml_Decode = (\<lambda>data. if data = ''spec'' then Ok spec_config else Err ''unexpected end''),
      cmd_load = sample_load_env\<lparr>le_IsNotExist := (\<lambda>p. p = ''/etc/interlock/nginx.conf.template'')\<rparr>,
      cmd_sha = (\<lambda>s. s), cmd_listen = (\<lambda>_. Some ''address in use'')\<rparr>"

definition sample_flags :: "string \<Rightarrow> string \<Rightarrow> run_flags" where
  "sample_flags path discovery = \<lparr>fl_config = path, fl_discovery = discovery, fl_discovery_tls_ca_cert = [],
     fl_discovery_tls_cert = [], fl_discovery_tls_key = []\<rparr>"

theorem config_precedence_witness:
  "run_data ((sample_cmd_env ''A = 1'')\<lparr>cmd_ReadFile := \<lambda>_. ReadData ''B = 2''\<rparr>) (sample_flags ''interlock.toml'' [])
      = Ok ''A = 1''
   \<and> run_data ((sample_cmd_env ''A = 1'')\<lparr>cmd_ReadFile := \<lambda>_. ReadData ''B = 2''\<rparr>)
      ((sample_flags [] ''etcd://1.2.3.4:4001'')\<lparr>fl_config := ''interlock.toml''\<rparr>) = Ok defaultConfig"
proof -
  have 1: "os_Getenv (cmd_client (sample_cmd_env ''A = 1'')) ''INTERLOCK_CONFIG'' = ''A = 1''"
    by (simp add: sample_cmd_env_def tls_env_def gm_at_def)
  have low: "strings_ToLower ''etcd'' = ''etcd''" by code_simp
  have 2: "kv_data (cmd_kv (sample_cmd_env ''A = 1'')) (sample_flags [] ''etcd://1.2.3.4:4001'') = Ok defaultConfig"
    by (simp add: kv_data_def sample_flags_def sample_cmd_env_def getKVStore_def libkv_NewStore_def kv_initializers_def Let_def low)
  have "sample_flags ''interlock.toml'' [] = (sample_flags [] [])\<lparr>fl_config := ''interlock.toml''\<rparr>"
    by (simp add: sample_flags_def)
  then show ?thesis
    using 1 2 config_precedence [of "sample_flags [] []" "sample_cmd_env ''A = 1''" "\<lambda>_. ReadData ''B = 2''" "''interlock.toml''"]
      config_precedence [of "sample_flags [] ''etcd://1.2.3.4:4001''" "sample_cmd_env ''A = 1''" "\<lambda>_. ReadData ''B = 2''"
        "''interlock.toml''"]
    by (simp add: sample_flags_def)
qed

theorem spec_config_starts_witness:
  "snd (NewServer [] (cmd_client (sample_cmd_env [])) (cmd_load (sample_cmd_env [])) (cmd_sha (sample_cmd_env [])) spec_config)
    = Panic ''exit status 1''"
proof -
  have 1: "specAction (\<lambda>_. Ok ''spec'') = Ok ''spec''" by (simp add: specAction_def fatal_def)
  have 2: "toml_Decode (sample_cmd_env []) ''spec'' = Ok spec_config" by (simp add: sample_cmd_env_def)
  obtain c where 3: "getDockerClient (cmd_client (sample_cmd_env [])) spec_config = Ok c"
    by (simp add: getDockerClient_def GetDockerClient_def tls_client_def tls_files_def sample_cmd_env_def tls_env_def
        spec_config_def Let_def gm_at_def)
  have 4: "le_ContainerID (cmd_load (sample_cmd_env [])) = Ok ''nodeA''"
    by (simp add: sample_cmd_env_def sample_load_env_def)
  have "le_IsNotExist (cmd_load (sample_cmd_env [])) ''/etc/interlock/nginx.conf.template''"
    by (simp add: sample_cmd_env_def)
  with spec_config_starts [OF 1 2 3 4] show ?thesis by simp
qed

end
