(* ===== verification/Cli.thy ===== *)
theory Cli
  imports Go_Strings
begin

text \<open>
  The part of the command-line package under \<open>src/vendor/github.com/codegangsta/cli\<close> that the program
  uses, and of Go's \<open>flag\<close> package below it: how the arguments of the process select a command and give
  values to its flags. The text that is printed (help, version) is left out.
\<close>

section \<open>Flag sets\<close>

text \<open>
  The flags that are declared, with \<open>True\<close> for a boolean one, their values as text, the flags that were
  set, and the arguments after the flags.
\<close>

record flag_set =
  fs_formal :: "(string, bool) gomap"
  fs_value :: "(string, string) gomap"
  fs_actual :: "string list"
  fs_args :: "string list"

definition fs_new :: flag_set where
  "fs_new = \<lparr>fs_formal = [], fs_value = [], fs_actual = [], fs_args = []\<rparr>"

definition fs_declare :: "string \<Rightarrow> bool \<Rightarrow> string \<Rightarrow> flag_set \<Rightarrow> flag_set res" where
  "fs_declare name isBool x fs =
     (if gm_has (fs_formal fs) name then Panic (''flag redefined: '' @ name)
      else Ok (fs\<lparr>fs_formal := gm_set name isBool (fs_formal fs), fs_value := gm_set name x (fs_value fs)\<rparr>))"

definition fs_set :: "string \<Rightarrow> string \<Rightarrow> flag_set \<Rightarrow> flag_set" where
  "fs_set name x fs = fs\<lparr>fs_value := gm_set name x (fs_value fs), fs_actual := name # fs_actual fs\<rparr>"

definition strconv_ParseBool :: "string \<Rightarrow> bool option" where
  "strconv_ParseBool s =
     (if s \<in> {''1'', ''t'', ''T'', ''true'', ''TRUE'', ''True''} then Some True
      else if s \<in> {''0'', ''f'', ''F'', ''false'', ''FALSE'', ''False''} then Some False else None)"

definition show_bool :: "bool \<Rightarrow> string" where
  "show_bool b = (if b then ''true'' else ''false'')"

text \<open>The name and the value of \<open>name=value\<close>.\<close>

definition split_value :: "string \<Rightarrow> string \<times> string option" where
  "split_value s =
     (let name = takeWhile (\<lambda>c. c \<noteq> CHR ''='') s
      in (name, if length name < length s then Some (drop (Suc (length name)) s) else None))"

text \<open>
  \<open>Parse\<close>, with \<open>parseOne\<close> as its step: it stops at the first argument that is not a flag, after
  \<open>--\<close>, and at an error.
\<close>

fun fs_parse :: "flag_set \<Rightarrow> string list \<Rightarrow> flag_set \<times> error" where
  "fs_parse fs [] = (fs\<lparr>fs_args := []\<rparr>, None)"
| "fs_parse fs (s # args) =
     (if length s < 2 \<or> hd s \<noteq> CHR ''-'' then (fs\<lparr>fs_args := s # args\<rparr>, None)
      else if s = ''--'' then (fs\<lparr>fs_args := args\<rparr>, None)
      else let name = drop (if s ! 1 = CHR ''-'' then 2 else 1) s
           in if name = [] \<or> hd name = CHR ''-'' \<or> hd name = CHR ''='' then
                (fs\<lparr>fs_args := s # args\<rparr>, Some (''bad flag syntax: '' @ s))
              else (case gm_get (fs_formal fs) (fst (split_value name)) of
                  None \<Rightarrow> (fs\<lparr>fs_args := args\<rparr>,
                    Some (if fst (split_value name) \<in> {''help'', ''h''} then ''flag: help requested''
                          else ''flag provided but not defined: -'' @ fst (split_value name)))
                | Some True \<Rightarrow>
                    (case snd (split_value name) of
                       None \<Rightarrow> fs_parse (fs_set (fst (split_value name)) ''true'' fs) args
                     | Some x \<Rightarrow>
                         (case strconv_ParseBool x of
                            None \<Rightarrow> (fs\<lparr>fs_args := args\<rparr>, Some (''invalid boolean value '' @ x))
                          | Some b \<Rightarrow> fs_parse (fs_set (fst (split_value name)) (show_bool b) fs) args))
                | Some False \<Rightarrow>
                    (case snd (split_value name) of
                       Some x \<Rightarrow> fs_parse (fs_set (fst (split_value name)) x fs) args
                     | None \<Rightarrow>
                         (case args of
                            [] \<Rightarrow> (fs\<lparr>fs_args := []\<rparr>, Some (''flag needs an argument: -'' @ fst (split_value name)))
                          | x # rest \<Rightarrow> fs_parse (fs_set (fst (split_value name)) x fs) rest))))"

definition lookupString :: "string \<Rightarrow> flag_set \<Rightarrow> string" where
  "lookupString name fs = (case gm_get (fs_value fs) name of None \<Rightarrow> [] | Some x \<Rightarrow> x)"

definition lookupBool :: "string \<Rightarrow> flag_set \<Rightarrow> bool" where
  "lookupBool name fs =
     (case gm_get (fs_value fs) name of
        None \<Rightarrow> False
      | Some x \<Rightarrow> (case strconv_ParseBool x of None \<Rightarrow> False | Some b \<Rightarrow> b))"

section \<open>Declared flags\<close>

text \<open>A boolean flag with its names and usage, a string flag with its default value too.\<close>

datatype cli_flag = BoolFlag string string | StringFlag string string string

primrec GetName :: "cli_flag \<Rightarrow> string" where
  "GetName (BoolFlag name usage) = name"
| "GetName (StringFlag name usage x) = name"

definition trim_blanks :: "string \<Rightarrow> string" where
  "trim_blanks s = rev (dropWhile (\<lambda>c. c = CHR '' '') (rev (dropWhile (\<lambda>c. c = CHR '' '') s)))"

definition flag_names :: "string \<Rightarrow> string list" where
  "flag_names longName = map trim_blanks (split_on CHR '','' longName)"

primrec declare_each :: "bool \<Rightarrow> string \<Rightarrow> string list \<Rightarrow> flag_set \<Rightarrow> flag_set res" where
  "declare_each isBool x [] fs = Ok fs"
| "declare_each isBool x (name # names) fs =
     res_bind (fs_declare name isBool x fs) (declare_each isBool x names)"

primrec flag_Apply :: "cli_flag \<Rightarrow> flag_set \<Rightarrow> flag_set res" where
  "flag_Apply (BoolFlag name usage) = declare_each True ''false'' (flag_names name)"
| "flag_Apply (StringFlag name usage x) = declare_each False x (flag_names name)"

primrec apply_flags :: "cli_flag list \<Rightarrow> flag_set \<Rightarrow> flag_set res" where
  "apply_flags [] fs = Ok fs"
| "apply_flags (f # flags) fs = res_bind (flag_Apply f fs) (apply_flags flags)"

definition flagSet :: "cli_flag list \<Rightarrow> flag_set res" where
  "flagSet flags = apply_flags flags fs_new"

definition HelpFlag :: cli_flag where
  "HelpFlag = BoolFlag ''help, h'' ''show help''"

definition VersionFlag :: cli_flag where
  "VersionFlag = BoolFlag ''version, v'' ''print the version''"

text \<open>A flag with several names: the value given under one of them is copied to the others.\<close>

primrec normalize_each :: "string list \<Rightarrow> cli_flag list \<Rightarrow> flag_set \<Rightarrow> flag_set res" where
  "normalize_each visited [] fs = Ok fs"
| "normalize_each visited (f # flags) fs =
     (let names = flag_names (GetName f)
      in if length names = 1 then normalize_each visited flags fs
         else case filter (\<lambda>n. n \<in> set visited) names of
             [] \<Rightarrow> normalize_each visited flags fs
           | [n] \<Rightarrow> normalize_each visited flags
               (fold (\<lambda>m. fs_set m (lookupString n fs)) (filter (\<lambda>m. m \<notin> set visited) names) fs)
           | n # m # _ \<Rightarrow> Err (''Cannot use two forms of the same flag: '' @ m @ '' '' @ n))"

definition normalizeFlags :: "cli_flag list \<Rightarrow> flag_set \<Rightarrow> flag_set res" where
  "normalizeFlags flags fs = normalize_each (fs_actual fs) flags fs"

section \<open>The application\<close>

record cli_command =
  co_Name :: string
  co_Aliases :: "string list"
  co_Usage :: string
  co_Flags :: "cli_flag list"

record cli_app =
  ap_Name :: string
  ap_Version :: string
  ap_Author :: string
  ap_Email :: string
  ap_Usage :: string
  ap_Flags :: "cli_flag list"
  ap_Commands :: "cli_command list"

definition helpCommand :: cli_command where
  "helpCommand = \<lparr>co_Name = ''help'', co_Aliases = [''h''],
     co_Usage = ''Shows a list of commands or help for one command'', co_Flags = []\<rparr>"

definition HasName :: "string \<Rightarrow> cli_command \<Rightarrow> bool" where
  "HasName name c \<longleftrightarrow> name \<in> set (co_Name c # co_Aliases c)"

definition app_Command :: "cli_app \<Rightarrow> string \<Rightarrow> cli_command option" where
  "app_Command a name = find (HasName name) (ap_Commands a)"

definition append_flag :: "cli_flag \<Rightarrow> cli_flag list \<Rightarrow> cli_flag list" where
  "append_flag f flags = (if f \<in> set flags then flags else flags @ [f])"

definition app_Setup :: "cli_app \<Rightarrow> cli_app" where
  "app_Setup a =
     (let a = (if app_Command a (co_Name helpCommand) = None
               then a\<lparr>ap_Commands := ap_Commands a @ [helpCommand], ap_Flags := append_flag HelpFlag (ap_Flags a)\<rparr>
               else a)
      in a\<lparr>ap_Flags := append_flag VersionFlag (ap_Flags a)\<rparr>)"

text \<open>What a run ends with: a usage error, a text that was printed, or the value of a command's action.\<close>

datatype 'a cli_outcome = UsageError string | AppHelp | AppVersion | CommandHelp string | Acted 'a

definition ShowCommandHelp :: "cli_app \<Rightarrow> string \<Rightarrow> 'a cli_outcome res" where
  "ShowCommandHelp a name =
     (case app_Command a name of None \<Rightarrow> Panic ''exit status 3'' | Some c \<Rightarrow> Ok (CommandHelp (co_Name c)))"

text \<open>\<open>helpCommand.Action\<close>, which is also the action of an application without one.\<close>

definition help_action :: "cli_app \<Rightarrow> flag_set \<Rightarrow> 'a cli_outcome res" where
  "help_action a fs = (case fs_args fs of [] \<Rightarrow> Ok AppHelp | name # _ \<Rightarrow> ShowCommandHelp a name)"

text \<open>The positions of the first flag and of \<open>--\<close> in the arguments of a command.\<close>

primrec flag_positions :: "nat \<Rightarrow> nat option \<Rightarrow> string list \<Rightarrow> nat option \<times> nat option" where
  "flag_positions i first [] = (first, None)"
| "flag_positions i first (arg # args) =
     (if arg = ''--'' then (first, Some i)
      else if arg = ''-'' then flag_positions (Suc i) first args
      else if prefix ''-'' arg \<and> first = None then flag_positions (Suc i) (Some i) args
      else flag_positions (Suc i) first args)"

text \<open>The flags are moved before the other arguments.\<close>

definition command_args :: "string list \<Rightarrow> string list" where
  "command_args args =
     (case flag_positions 0 None args of
        (None, _) \<Rightarrow> drop 1 args
      | (Some i, None) \<Rightarrow> drop i args @ drop 1 (take i args)
      | (Some i, Some t) \<Rightarrow> drop i (take t args) @ drop 1 (take i args) @ drop t args)"

definition command_Run ::
  "(string \<Rightarrow> flag_set \<Rightarrow> 'a res) \<Rightarrow> cli_app \<Rightarrow> cli_command \<Rightarrow> string list \<Rightarrow> 'a cli_outcome res" where
  "command_Run action a c args =
     (let flags = co_Flags c @ [HelpFlag]
      in res_bind (flagSet flags) (\<lambda>fs.
           case fs_parse fs (command_args args) of
             (fs, Some err) \<Rightarrow> Ok (UsageError err)
           | (fs, None) \<Rightarrow>
               (case normalizeFlags flags fs of
                  Panic p \<Rightarrow> Panic p
                | Err err \<Rightarrow> Ok (UsageError err)
                | Ok fs \<Rightarrow>
                    if lookupBool ''h'' fs \<or> lookupBool ''help'' fs then Ok (CommandHelp (co_Name c))
                    else if co_Name c = co_Name helpCommand then help_action a fs
                    else res_bind (action (co_Name c) fs) (\<lambda>x. Ok (Acted x)))))"

text \<open>
  \<open>App.Run\<close>. The first component is the result of \<open>Before\<close>, if it was called.
\<close>

definition app_Run ::
  "(flag_set \<Rightarrow> 'b) \<Rightarrow> (string \<Rightarrow> flag_set \<Rightarrow> 'a res) \<Rightarrow> cli_app \<Rightarrow> string list \<Rightarrow> ('b option \<times> 'a cli_outcome) res" where
  "app_Run before action app arguments =
     (let a = app_Setup app
      in res_bind (flagSet (ap_Flags a)) (\<lambda>fs.
         res_bind (go_slice_from 1 arguments) (\<lambda>rest.
           case fs_parse fs rest of (fs, err) \<Rightarrow>
             (case normalizeFlags (ap_Flags a) fs of
                Panic p \<Rightarrow> Panic p
              | Err nerr \<Rightarrow> Ok (None, UsageError nerr)
              | Ok fs \<Rightarrow>
                  (case err of
                     Some e \<Rightarrow> Ok (None, UsageError e)
                   | None \<Rightarrow>
                       if lookupBool ''help'' fs \<or> lookupBool ''h'' fs then Ok (None, AppHelp)
                       else if lookupBool ''version'' fs \<or> lookupBool ''v'' fs then Ok (None, AppVersion)
                       else res_bind
                         (case fs_args fs of
                            [] \<Rightarrow> Ok AppHelp
                          | name # _ \<Rightarrow>
                              (case app_Command a name of
                                 Some c \<Rightarrow> command_Run action a c (fs_args fs)
                               | None \<Rightarrow> help_action a fs)) (\<lambda>out. Ok (Some (before fs), out)))))))"

section \<open>Parsing flags that are given by name\<close>

text \<open>An option as it is written: with one or two dashes, its name, and its value in the next argument.\<close>

type_synonym option_arg = "bool \<times> string \<times> string"

primrec option_words :: "option_arg list \<Rightarrow> string list" where
  "option_words [] = []"
| "option_words (q # qs) = (case q of (long, name, x) \<Rightarrow> [(if long then ''--'' else ''-'') @ name, x]) @ option_words qs"

definition good_name :: "string \<Rightarrow> bool" where
  "good_name name \<longleftrightarrow> name \<noteq> [] \<and> hd name \<noteq> CHR ''-'' \<and> CHR ''='' \<notin> set name"

lemma split_value_good: "good_name name \<Longrightarrow> split_value name = (name, None)"
proof -
  assume "good_name name"
  then have tw: "takeWhile (\<lambda>c. c \<noteq> CHR ''='') name = name" by (auto simp: good_name_def takeWhile_eq_all_conv)
  show ?thesis unfolding split_value_def Let_def tw by simp
qed

lemma fs_parse_option:
  assumes "good_name name" and "gm_get (fs_formal fs) name = Some False"
  shows "fs_parse fs (((if long then ''--'' else ''-'') @ name) # x # args) = fs_parse (fs_set name x fs) args"
proof -
  obtain c cs where name: "name = c # cs" "c \<noteq> CHR ''-''" "c \<noteq> CHR ''=''"
    using assms(1) by (cases name) (auto simp: good_name_def)
  with assms split_value_good [OF assms(1)] show ?thesis by (cases long) simp_all
qed

lemma fs_set_formal [simp]: "fs_formal (fs_set name x fs) = fs_formal fs"
  by (simp add: fs_set_def)

definition set_options :: "option_arg list \<Rightarrow> flag_set \<Rightarrow> flag_set" where
  "set_options qs = fold (\<lambda>(long, name, x). fs_set name x) qs"

lemma set_options_simps [simp]:
  "set_options [] fs = fs" "set_options ((long, name, x) # qs) fs = set_options qs (fs_set name x fs)"
  by (simp_all add: set_options_def)

lemma fs_parse_options:
  assumes "list_all (\<lambda>(long, name, x). good_name name \<and> gm_get (fs_formal fs) name = Some False) qs"
  shows "fs_parse fs (option_words qs) = ((set_options qs fs)\<lparr>fs_args := []\<rparr>, None)"
  using assms
proof (induction qs arbitrary: fs)
  case Nil
  then show ?case by simp
next
  case (Cons q qs)
  obtain long name x where q: "q = (long, name, x)" by (cases q)
  with Cons.prems have "fs_parse fs (option_words (q # qs)) = fs_parse (fs_set name x fs) (option_words qs)"
    using fs_parse_option [of name fs long x "option_words qs"] by simp
  also have "\<dots> = ((set_options qs (fs_set name x fs))\<lparr>fs_args := []\<rparr>, None)"
    using Cons.prems by (intro Cons.IH) simp
  finally show ?case by (simp add: q)
qed

text \<open>The last value given under one of some names.\<close>

primrec given_or :: "string \<Rightarrow> string list \<Rightarrow> option_arg list \<Rightarrow> string" where
  "given_or z names [] = z"
| "given_or z names (q # qs) = (case q of (long, name, x) \<Rightarrow> given_or (if name \<in> set names then x else z) names qs)"

definition uses :: "string \<Rightarrow> option_arg list \<Rightarrow> bool" where
  "uses name qs \<longleftrightarrow> name \<in> (\<lambda>(long, name, x). name) ` set qs"

lemma uses_simps [simp]:
  "uses name [] = False" "uses name ((long, n, x) # qs) = (name = n \<or> uses name qs)"
  by (auto simp: uses_def)

lemma lookup_fs_set [simp]: "lookupString n (fs_set name x fs) = (if n = name then x else lookupString n fs)"
  by (simp add: lookupString_def fs_set_def gm_get_set)

lemma set_options_lookup: "lookupString n (set_options qs fs) = given_or (lookupString n fs) [n] qs"
  by (induction qs arbitrary: fs) auto

lemma set_options_actual: "n \<in> set (fs_actual (set_options qs fs)) \<longleftrightarrow> n \<in> set (fs_actual fs) \<or> uses n qs"
  by (induction qs arbitrary: fs) (auto simp: fs_set_def)

lemma given_or_unused: "\<not> uses n qs \<Longrightarrow> given_or z (n # names) qs = given_or z names qs"
  by (induction qs arbitrary: z) auto

lemma given_or_none: "\<not> uses n qs \<Longrightarrow> given_or z [n] qs = z"
  by (induction qs arbitrary: z) auto

lemma flag_positions_options:
  "list_all (\<lambda>(long, name, x). good_name name \<and> x \<noteq> ''--'') qs \<Longrightarrow>
    flag_positions i (Some k) (option_words qs) = (Some k, None)"
proof (induction qs arbitrary: i)
  case Nil
  then show ?case by simp
next
  case (Cons q qs)
  then show ?case by (cases q) (auto simp: good_name_def)
qed

lemma command_args_options:
  assumes "list_all (\<lambda>(long, name, x). good_name name \<and> x \<noteq> ''--'') qs" and "good_name name"
  shows "command_args (name # option_words qs) = option_words qs"
proof (cases qs)
  case Nil
  with assms(2) show ?thesis by (cases name) (auto simp: command_args_def good_name_def)
next
  case (Cons q qs')
  obtain long n x where q: "q = (long, n, x)" by (cases q)
  obtain c cs where n: "n = c # cs" "c \<noteq> CHR ''-''" using assms(1) Cons q by (cases n) (auto simp: good_name_def)
  have name: "\<not> prefix ''-'' name" "name \<noteq> ''--''" "name \<noteq> ''-''" using assms(2) by (cases name; auto simp: good_name_def)+
  have x: "x \<noteq> ''--''" using assms(1) Cons q by simp
  have "flag_positions 0 None (name # option_words qs) = (Some 1, None)"
    using flag_positions_options [of qs' 3 1] assms(1) name x n by (auto simp: Cons q numeral_3_eq_3)
  then show ?thesis by (simp add: command_args_def)
qed

end
