(* ===== verification/Interlock_Main.thy ===== *)
theory Interlock_Main
  imports Command Cli
begin

text \<open>
  \<open>main\<close> and the flags of \<open>interlock run\<close> (\<open>cmd/interlock/main.go\<close>, \<open>run.go\<close>, \<open>spec.go\<close>): the application
  with its commands, what \<open>runAction\<close> reads of its context, and how the arguments of the process lead to
  a running server. The text that \<open>interlock spec\<close> prints is part of the result.
\<close>

section \<open>The application\<close>

definition cmdSpec :: cli_command where
  "cmdSpec = \<lparr>co_Name = ''spec'', co_Aliases = [], co_Usage = ''generate a configuration file'', co_Flags = []\<rparr>"

definition cmdRun :: cli_command where
  "cmdRun = \<lparr>co_Name = ''run'', co_Aliases = [], co_Usage = ''run interlock'',
     co_Flags = [StringFlag ''config, c'' ''path to config file'' [],
       StringFlag ''discovery, k'' ''discovery address'' [],
       StringFlag ''discovery-tls-ca-cert'' ''discovery tls ca certificate'' [],
       StringFlag ''discovery-tls-cert'' ''discovery tls certificate'' [],
       StringFlag ''discovery-tls-key'' ''discovery tls key'' []]\<rparr>"

definition interlock_app :: cli_app where
  "interlock_app = \<lparr>ap_Name = ''interlock'', ap_Version = FullVersion, ap_Author = ''@ehazlett'',
     ap_Email = ''ejhazlett@gmail.com'', ap_Usage = ''an event driven extension system for docker'',
     ap_Flags = [BoolFlag ''debug, D'' ''Enable debug logging''], ap_Commands = [cmdSpec, cmdRun]\<rparr>"

text \<open>What \<open>runAction\<close> reads with \<open>c.String\<close>.\<close>

definition read_flags :: "flag_set \<Rightarrow> run_flags" where
  "read_flags c = \<lparr>fl_config = lookupString ''config'' c, fl_discovery = lookupString ''discovery'' c,
     fl_discovery_tls_ca_cert = lookupString ''discovery-tls-ca-cert'' c,
     fl_discovery_tls_cert = lookupString ''discovery-tls-cert'' c,
     fl_discovery_tls_key = lookupString ''discovery-tls-key'' c\<rparr>"

datatype cmd_output = Stopped | Printed string

definition interlock_action :: "('t, 'k, 'c) cmd_env \<Rightarrow> (config \<Rightarrow> string res) \<Rightarrow> string \<Rightarrow> flag_set \<Rightarrow> cmd_output res" where
  "interlock_action v toml_Encode name c =
     (if name = co_Name cmdSpec then res_bind (specAction toml_Encode) (\<lambda>s. Ok (Printed s))
      else res_bind (runAction v (read_flags c)) (\<lambda>_. Ok Stopped))"

text \<open>The first component is whether \<open>Before\<close> set the debug level.\<close>

definition interlock_main ::
  "('t, 'k, 'c) cmd_env \<Rightarrow> (config \<Rightarrow> string res) \<Rightarrow> string list \<Rightarrow> (bool option \<times> cmd_output cli_outcome) res" where
  "interlock_main v toml_Encode args =
     res_bind (app_Run (lookupBool ''debug'') (interlock_action v toml_Encode) interlock_app args) (\<lambda>(debug, out).
       case out of UsageError err \<Rightarrow> Panic err | _ \<Rightarrow> Ok (debug, out))"

section \<open>From the arguments to the flags\<close>

lemma app_flag_list:
  "ap_Flags (app_Setup interlock_app) = [BoolFlag ''debug, D'' ''Enable debug logging'', HelpFlag, VersionFlag]"
  by code_simp

lemma builtin_flag_names [simp]: "GetName HelpFlag = ''help, h''" "GetName VersionFlag = ''version, v''"
  by (simp_all add: HelpFlag_def VersionFlag_def)

lemma app_flag_set:
  "flagSet [BoolFlag ''debug, D'' ''Enable debug logging'', HelpFlag, VersionFlag] = Ok \<lparr>
     fs_formal = [(''debug'', True), (''D'', True), (''help'', True), (''h'', True), (''version'', True), (''v'', True)],
     fs_value = [(''debug'', ''false''), (''D'', ''false''), (''help'', ''false''), (''h'', ''false''),
       (''version'', ''false''), (''v'', ''false'')],
     fs_actual = [], fs_args = []\<rparr>"
  by code_simp

lemma app_commands:
  "app_Command (app_Setup interlock_app) ''run'' = Some cmdRun" "app_Command (app_Setup interlock_app) ''spec'' = Some cmdSpec"
  by code_simp+

definition run_flag_set :: flag_set where
  "run_flag_set = \<lparr>
     fs_formal = [(''config'', False), (''c'', False), (''discovery'', False), (''k'', False),
       (''discovery-tls-ca-cert'', False), (''discovery-tls-cert'', False), (''discovery-tls-key'', False),
       (''help'', True), (''h'', True)],
     fs_value = [(''config'', []), (''c'', []), (''discovery'', []), (''k'', []), (''discovery-tls-ca-cert'', []),
       (''discovery-tls-cert'', []), (''discovery-tls-key'', []), (''help'', ''false''), (''h'', ''false'')],
     fs_actual = [], fs_args = []\<rparr>"

lemma run_flags_declared: "flagSet (co_Flags cmdRun @ [HelpFlag]) = Ok run_flag_set"
  by code_simp

lemma flag_names_app:
  "flag_names ''debug, D'' = [''debug'', ''D'']" "flag_names ''help, h'' = [''help'', ''h'']"
  "flag_names ''version, v'' = [''version'', ''v'']" "flag_names ''config, c'' = [''config'', ''c'']"
  "flag_names ''discovery, k'' = [''discovery'', ''k'']"
  "flag_names ''discovery-tls-ca-cert'' = [''discovery-tls-ca-cert'']"
  "flag_names ''discovery-tls-cert'' = [''discovery-tls-cert'']"
  "flag_names ''discovery-tls-key'' = [''discovery-tls-key'']"
  by code_simp+

lemma normalize_pair:
  assumes "flag_names (GetName f) = [a, b]"
  shows "normalize_each V (f # flags) fs =
    (if a \<in> set V \<and> b \<in> set V then Err (''Cannot use two forms of the same flag: '' @ b @ '' '' @ a)
     else normalize_each V flags
       (if a \<in> set V then fs_set b (lookupString a fs) fs
        else if b \<in> set V then fs_set a (lookupString b fs) fs else fs))"
  using assms by (simp add: Let_def)

lemma normalize_single:
  "flag_names (GetName f) = [a] \<Longrightarrow> normalize_each V (f # flags) fs = normalize_each V flags fs"
  by (simp add: Let_def)

lemma given_or_cong: "set names = set names' \<Longrightarrow> given_or z names qs = given_or z names' qs"
  by (induction qs arbitrary: z) auto

definition run_names :: "string list" where
  "run_names = [''config'', ''c'', ''discovery'', ''k'', ''discovery-tls-ca-cert'', ''discovery-tls-cert'', ''discovery-tls-key'']"

definition given_flags :: "option_arg list \<Rightarrow> run_flags" where
  "given_flags qs = \<lparr>fl_config = given_or [] [''config'', ''c''] qs, fl_discovery = given_or [] [''discovery'', ''k''] qs,
     fl_discovery_tls_ca_cert = given_or [] [''discovery-tls-ca-cert''] qs,
     fl_discovery_tls_cert = given_or [] [''discovery-tls-cert''] qs,
     fl_discovery_tls_key = given_or [] [''discovery-tls-key''] qs\<rparr>"

lemma run_names_good: "list_all (\<lambda>n. good_name n \<and> gm_get (fs_formal run_flag_set) n = Some False) run_names"
  by code_simp

lemma lookup_args [simp]: "lookupString n (fs\<lparr>fs_args := as\<rparr>) = lookupString n fs"
  by (simp add: lookupString_def)

lemma lookupBool_eq: "lookupBool n fs = (strconv_ParseBool (lookupString n fs) = Some True)"
  by (auto simp: lookupBool_def lookupString_def strconv_ParseBool_def split: option.split)

lemma run_lookup:
  assumes "list_all (\<lambda>(long, name, x). name \<in> set run_names) qs"
  shows "lookupString ''help'' (set_options qs run_flag_set) = ''false''"
    and "lookupString ''h'' (set_options qs run_flag_set) = ''false''"
    and "n \<in> set run_names \<Longrightarrow> lookupString n (set_options qs run_flag_set) = given_or [] [n] qs"
proof -
  have u: "\<not> uses ''help'' qs" "\<not> uses ''h'' qs"
    using assms by (auto simp: uses_def list_all_iff run_names_def)
  have "lookupString ''help'' run_flag_set = ''false''" "lookupString ''h'' run_flag_set = ''false''"
    "list_all (\<lambda>n. lookupString n run_flag_set = []) run_names" by code_simp+
  with u show "lookupString ''help'' (set_options qs run_flag_set) = ''false''"
    and "lookupString ''h'' (set_options qs run_flag_set) = ''false''"
    and "n \<in> set run_names \<Longrightarrow> lookupString n (set_options qs run_flag_set) = given_or [] [n] qs"
    by (auto simp: set_options_lookup given_or_none list_all_iff)
qed

text \<open>What the flags of \<open>run\<close> are after they have been normalized.\<close>

lemma pair_given:
  assumes "\<not> (uses a qs \<and> uses b qs)"
  shows "(if uses a qs then given_or [] [a] qs else if uses b qs then given_or [] [b] qs else given_or [] [a] qs)
    = given_or [] [a, b] qs"
proof (cases "uses a qs")
  case True
  with assms have "given_or [] [b, a] qs = given_or [] [a] qs" by (simp add: given_or_unused)
  with True given_or_cong [of "[a, b]" "[b, a]" "[]" qs] show ?thesis by (simp add: insert_commute)
next
  case False
  then show ?thesis by (cases "uses b qs") (simp_all add: given_or_unused given_or_none)
qed

lemma run_normalized:
  assumes "list_all (\<lambda>(long, name, x). name \<in> set run_names) qs"
  defines "fs \<equiv> (set_options qs run_flag_set)\<lparr>fs_args := []\<rparr>"
  shows "(case normalizeFlags (co_Flags cmdRun @ [HelpFlag]) fs of
      Ok fs' \<Rightarrow> \<not> (uses ''config'' qs \<and> uses ''c'' qs) \<and> \<not> (uses ''discovery'' qs \<and> uses ''k'' qs)
        \<and> read_flags fs' = given_flags qs \<and> \<not> lookupBool ''h'' fs' \<and> \<not> lookupBool ''help'' fs'
    | Err e \<Rightarrow> e = (if uses ''config'' qs \<and> uses ''c'' qs then ''Cannot use two forms of the same flag: c config''
        else ''Cannot use two forms of the same flag: k discovery'')
        \<and> (uses ''config'' qs \<and> uses ''c'' qs \<or> uses ''discovery'' qs \<and> uses ''k'' qs)
    | Panic p \<Rightarrow> False)"
proof -
  have V: "n \<in> set (fs_actual fs) \<longleftrightarrow> uses n qs" for n
    unfolding fs_def by (simp add: set_options_actual run_flag_set_def)
  have no: "\<not> uses ''help'' qs" "\<not> uses ''h'' qs"
    using assms(1) by (auto simp: uses_def list_all_iff run_names_def)
  have look: "n \<in> set run_names \<Longrightarrow> lookupString n fs = given_or [] [n] qs"
    and hf: "lookupString ''help'' fs = ''false''" "lookupString ''h'' fs = ''false''" for n
    using run_lookup [OF assms(1)] by (simp_all add: fs_def)
  let ?copy = "\<lambda>a b fs. if uses a qs then fs_set b (lookupString a fs) fs
    else if uses b qs then fs_set a (lookupString b fs) fs else fs"
  let ?fs = "?copy ''discovery'' ''k'' (?copy ''config'' ''c'' fs)"
  have n: "normalizeFlags (co_Flags cmdRun @ [HelpFlag]) fs =
      (if uses ''config'' qs \<and> uses ''c'' qs then Err ''Cannot use two forms of the same flag: c config''
       else if uses ''discovery'' qs \<and> uses ''k'' qs then Err ''Cannot use two forms of the same flag: k discovery''
       else Ok ?fs)"
    by (simp add: normalizeFlags_def cmdRun_def HelpFlag_def normalize_pair normalize_single flag_names_app V no
        del: normalize_each.simps(2))
  have "read_flags ?fs = given_flags qs"
    if "\<not> (uses ''config'' qs \<and> uses ''c'' qs)" "\<not> (uses ''discovery'' qs \<and> uses ''k'' qs)"
    unfolding given_flags_def pair_given [OF that(1), symmetric] pair_given [OF that(2), symmetric]
    by (simp add: read_flags_def look run_names_def)
  moreover have "\<not> lookupBool ''h'' ?fs" "\<not> lookupBool ''help'' ?fs"
    by (simp_all add: lookupBool_eq hf strconv_ParseBool_def)
  ultimately show ?thesis unfolding n by simp
qed

lemma run_command:
  assumes "list_all (\<lambda>(long, name, x). name \<in> set run_names \<and> x \<noteq> ''--'') qs"
  shows "command_Run (interlock_action v enc) a cmdRun (''run'' # option_words qs) =
    (if uses ''config'' qs \<and> uses ''c'' qs then Ok (UsageError ''Cannot use two forms of the same flag: c config'')
     else if uses ''discovery'' qs \<and> uses ''k'' qs then Ok (UsageError ''Cannot use two forms of the same flag: k discovery'')
     else res_bind (runAction v (given_flags qs)) (\<lambda>_. Ok (Acted Stopped)))"
proof -
  have names: "list_all (\<lambda>(long, name, x). name \<in> set run_names) qs" using assms by (auto simp: list_all_iff)
  have good: "list_all (\<lambda>(long, name, x). good_name name \<and> x \<noteq> ''--'') qs"
    and declared: "list_all (\<lambda>(long, name, x). good_name name \<and> gm_get (fs_formal run_flag_set) name = Some False) qs"
    using assms run_names_good by (fastforce simp: list_all_iff)+
  have args: "command_args (''run'' # option_words qs) = option_words qs"
    by (rule command_args_options [OF good]) (simp add: good_name_def)
  have co: "co_Name cmdRun = ''run''" "co_Name cmdSpec = ''spec''" "co_Name helpCommand = ''help''"
    by (simp_all add: cmdRun_def cmdSpec_def helpCommand_def)
  note parts = command_Run_def run_flags_declared args fs_parse_options [OF declared] interlock_action_def co res_bind_assoc
  show ?thesis
    using run_normalized [OF names]
    by (cases "normalizeFlags (co_Flags cmdRun @ [HelpFlag]) ((set_options qs run_flag_set)\<lparr>fs_args := []\<rparr>)")
      (auto simp: parts)
qed

definition debug_words :: "string list list" where
  "debug_words = [[], [''--debug''], [''-D'']]"

lemma app_run_command:
  assumes "dbg \<in> set debug_words"
  shows "app_Run (lookupBool ''debug'') action interlock_app (prog # dbg @ ''run'' # args) =
    res_bind (command_Run action (app_Setup interlock_app) cmdRun (''run'' # args)) (\<lambda>out. Ok (Some (dbg \<noteq> []), out))"
  using assms
  by (auto simp: debug_words_def app_Run_def app_flag_set go_slice_from_def normalizeFlags_def app_flag_list flag_names_app split_value_def fs_set_def lookupBool_def lookupString_def strconv_ParseBool_def
      app_commands Let_def)

text \<open>C21: for every list of options of \<open>interlock run\<close>, each with one or two
  dashes, by its long or its short name, in any order and any number of times, the server is run with the
  last value given for each flag, an empty one where none was given, after the debug level was set if the
  program was called with \<open>--debug\<close> or \<open>-D\<close>. The long and the short name of a flag together are a usage
  error, which ends the process before anything is read.\<close>

theorem command_line_reaches_run:
  assumes "dbg \<in> set debug_words" and "list_all (\<lambda>(long, name, x). name \<in> set run_names \<and> x \<noteq> ''--'') qs"
  shows "interlock_main v toml_Encode (prog # dbg @ ''run'' # option_words qs) =
    (if uses ''config'' qs \<and> uses ''c'' qs then Panic ''Cannot use two forms of the same flag: c config''
     else if uses ''discovery'' qs \<and> uses ''k'' qs then Panic ''Cannot use two forms of the same flag: k discovery''
     else res_bind (runAction v (given_flags qs)) (\<lambda>_. Ok (Some (dbg \<noteq> []), Acted Stopped)))"
  by (simp add: interlock_main_def app_run_command [OF assms(1)] run_command [OF assms(2)] res_bind_assoc)

theorem command_line_reaches_run_witness:
  "interlock_main (sample_cmd_env ''A = 1'') (\<lambda>_. Ok []) [''interlock'', ''-D'', ''run'', ''--config'', ''/a'', ''-k'', ''etcd://h'', ''-config'', ''/b'']
     = res_bind (runAction (sample_cmd_env ''A = 1'') (sample_flags ''/b'' ''etcd://h'')) (\<lambda>_. Ok (Some True, Acted Stopped))
   \<and> interlock_main (sample_cmd_env []) (\<lambda>_. Ok []) [''interlock'', ''run'', ''-c'', ''/a'', ''--config'', ''/b'']
     = Panic ''Cannot use two forms of the same flag: c config''"
proof -
  let ?qs = "[(True, ''config'', ''/a''), (False, ''k'', ''etcd://h''), (False, ''config'', ''/b'')]"
  let ?rs = "[(False, ''c'', ''/a''), (True, ''config'', ''/b'')]"
  have d: "[''-D''] \<in> set debug_words" "[] \<in> set debug_words" by (simp_all add: debug_words_def)
  have q: "list_all (\<lambda>(long, name, x). name \<in> set run_names \<and> x \<noteq> ''--'') ?qs"
    and r: "list_all (\<lambda>(long, name, x). name \<in> set run_names \<and> x \<noteq> ''--'') ?rs" by code_simp+
  from command_line_reaches_run [OF d(1) q, of "sample_cmd_env ''A = 1''" "\<lambda>_. Ok []" "''interlock''"]
    command_line_reaches_run [OF d(2) r, of "sample_cmd_env []" "\<lambda>_. Ok []" "''interlock''"]
  show ?thesis by (simp add: given_flags_def sample_flags_def)
qed

text \<open>\<open>interlock spec\<close> prints the sample configuration; \<open>interlock\<close> alone prints the help.\<close>

lemma spec_command_prints:
  "interlock_main v toml_Encode [prog, ''spec''] =
    res_bind (specAction toml_Encode) (\<lambda>s. Ok (Some False, Acted (Printed s)))"
proof -
  have s: "flagSet (co_Flags cmdSpec @ [HelpFlag]) = Ok \<lparr>fs_formal = [(''help'', True), (''h'', True)],
      fs_value = [(''help'', ''false''), (''h'', ''false'')], fs_actual = [], fs_args = []\<rparr>"
    by code_simp
  have f: "co_Flags cmdSpec @ [HelpFlag] = [HelpFlag]" "co_Name cmdSpec = ''spec''" "co_Name helpCommand = ''help''"
    by (simp_all add: cmdSpec_def helpCommand_def)
  show ?thesis
    by (simp add: interlock_main_def app_Run_def app_flag_set go_slice_from_def normalizeFlags_def app_flag_list flag_names_app lookupBool_def strconv_ParseBool_def app_commands Let_def command_Run_def
        command_args_def s [unfolded f(1)] f interlock_action_def res_bind_assoc)
qed

lemma no_command_prints_help: "interlock_main v toml_Encode [prog] = Ok (Some False, AppHelp)"
  by (simp add: interlock_main_def app_Run_def app_flag_set go_slice_from_def normalizeFlags_def app_flag_list flag_names_app lookupBool_def strconv_ParseBool_def Let_def)

end
