(* ===== verification/Builtin_Templates.thy ===== *)
theory Builtin_Templates
  imports Go_Template
begin

text \<open>
  The texts of the three built-in templates (\<open>ext/lb/haproxy/template.go\<close>, \<open>ext/lb/nginx/template.go\<close>,
  \<open>ext/lb/nginx/template_nginxplus.go\<close>), line by line, and the templates that they parse to: the part
  before the first loop over the hosts, the body of that loop, the part between the loops, the body of
  the second loop, and the rest.
\<close>

definition tab :: string where "tab = [CHR 0x09]"

definition quote :: string where "quote = [CHR 0x27]"

definition backslash :: string where "backslash = [CHR 0x5C]"

section \<open>HAProxy\<close>

definition haproxy_lines :: "string list" where
  \<open>haproxy_lines = [
     ''# managed by interlock'',
     ''global'',
     tab @ ''log 127.0.0.1 local0'',
     tab @ ''log 127.0.0.1 local1 notice'',
     ''    {{ if .Config.SyslogAddr }}log {{ .Config.SyslogAddr }} local0'',
     ''    log-send-hostname{{ end }}'',
     ''    maxconn {{ .Config.MaxConn }}'',
     ''    pidfile {{ .Config.PidPath }}'',
     ''    ssl-server-verify {{ .Config.SSLServerVerify }}'',
     ''    tune.ssl.default-dh-param {{ .Config.SSLDefaultDHParam }}'',
     [],
     ''defaults'',
     ''    mode http'',
     ''    retries 3'',
     ''    option redispatch'',
     ''    option httplog'',
     ''    option dontlognull'',
     ''    option http-server-close'',
     ''    option forwardfor'',
     ''    timeout connect {{ .Config.ConnectTimeout }}'',
     ''    timeout client {{ .Config.ClientTimeout }}'',
     ''    timeout server {{ .Config.ServerTimeout }}'',
     [],
     ''frontend http-default'',
     ''    bind *:{{ .Config.Port }}'',
     ''    {{ if .Config.SSLCert }}bind *:{{ .Config.SSLPort }} ssl crt {{ .Config.SSLCert }} {{ .Config.SSLOpts }}{{ end }}'',
     ''    monitor-uri /haproxy?monitor'',
     ''    {{ if .Config.AdminUser }}stats realm Stats'',
     ''    stats auth {{ .Config.AdminUser }}:{{ .Config.AdminPass}}{{ end }}'',
     ''    stats enable'',
     ''    stats uri /haproxy?stats'',
     ''    stats refresh 5s'',
     ''    {{ range $host := .Hosts }}{{ if ne $host.ContextRoot.Path "" }}acl url{{ $host.ContextRoot.Name }} path_beg {{ $host.ContextRoot.Path }}'',
     ''    use_backend ctx{{ $host.ContextRoot.Name }} if url{{ $host.ContextRoot.Name }}{{ else }}'',
     ''    acl is_{{ $host.Name }} hdr_beg(host) {{ $host.Domain }}'',
     ''    use_backend {{ $host.Name }} if is_{{ $host.Name }}'',
     ''    {{ end }}'',
     ''    {{ end }}'',
     [],
     ''{{ range $host := .Hosts }}{{ if ne $host.ContextRoot.Path "" }}backend ctx{{ $host.ContextRoot.Name }}'',
     ''    acl missing_slash path_reg ^{{ $host.ContextRoot.Path }}[^/]*$'',
     ''    redirect code 301 prefix / drop-query append-slash if missing_slash'',
     ''    {{ if $host.ContextRootRewrite }}reqrep ^([^'' @ backslash @ '' :]*)'' @ backslash @ '' {{ $host.ContextRoot.Path }}/(.*)     '' @ backslash @ ''1'' @ backslash @ '' /'' @ backslash @ ''2{{ end }}{{ else }}'',
     ''    backend {{ $host.Name }}{{ end }}'',
     ''    http-response add-header X-Request-Start %Ts.%ms'',
     ''    http-request set-header X-Forwarded-Port %[dst_port]'',
     ''    http-request add-header X-Forwarded-Proto https if { ssl_fc }'',
     ''    balance {{ $host.BalanceAlgorithm }}'',
     ''    {{ range $option := $host.BackendOptions }}option {{ $option }}'',
     ''    {{ end }}'',
     ''    {{ if $host.Check }}option {{ $host.Check }}{{ end }}'',
     ''    {{ if $host.SSLOnly }}redirect scheme https code 301 if !{ ssl_fc }{{ end }}'',
     tab @ ''{{ if $host.SSLOnly }}http-response set-header Strict-Transport-Security "max-age=16000000; includeSubDomains; preload;"{{ end }}'',
     ''    {{ range $i,$up := $host.Upstreams }}server {{ $up.Container }} {{ $up.Addr }} check inter {{ $up.CheckInterval }}{{ if $host.SSLBackend }} ssl verify {{ $host.SSLBackendTLSVerify }} sni req.hdr(Host){{ end }}'',
     ''    {{ end }}'',
     ''{{ end }}'']\<close>

definition haproxyConfTemplate :: string where
  "haproxyConfTemplate = unlines haproxy_lines"

definition haproxy_head :: "node list" where
  \<open>haproxy_head =
    [Text (''# managed by interlock'' @ eol),
     Text (''global'' @ eol),
     Text (tab @ ''log 127.0.0.1 local0'' @ eol),
     Text (tab @ ''log 127.0.0.1 local1 notice'' @ eol),
     Text ''    '',
     If (PField [''Config'', ''SyslogAddr''])
       [Text ''log '',
        Action (PField [''Config'', ''SyslogAddr'']),
        Text ('' local0'' @ eol),
        Text ''    log-send-hostname'']
       [],
     Text eol,
     Text ''    maxconn '',
     Action (PField [''Config'', ''MaxConn'']),
     Text eol,
     Text ''    pidfile '',
     Action (PField [''Config'', ''PidPath'']),
     Text eol,
     Text ''    ssl-server-verify '',
     Action (PField [''Config'', ''SSLServerVerify'']),
     Text eol,
     Text ''    tune.ssl.default-dh-param '',
     Action (PField [''Config'', ''SSLDefaultDHParam'']),
     Text eol,
     Text eol,
     Text (''defaults'' @ eol),
     Text (''    mode http'' @ eol),
     Text (''    retries 3'' @ eol),
     Text (''    option redispatch'' @ eol),
     Text (''    option httplog'' @ eol),
     Text (''    option dontlognull'' @ eol),
     Text (''    option http-server-close'' @ eol),
     Text (''    option forwardfor'' @ eol),
     Text ''    timeout connect '',
     Action (PField [''Config'', ''ConnectTimeout'']),
     Text eol,
     Text ''    timeout client '',
     Action (PField [''Config'', ''ClientTimeout'']),
     Text eol,
     Text ''    timeout server '',
     Action (PField [''Config'', ''ServerTimeout'']),
     Text eol,
     Text eol,
     Text (''frontend http-default'' @ eol),
     Text ''    bind *:'',
     Action (PField [''Config'', ''Port'']),
     Text eol,
     Text ''    '',
     If (PField [''Config'', ''SSLCert''])
       [Text ''bind *:'',
        Action (PField [''Config'', ''SSLPort'']),
        Text '' ssl crt '',
        Action (PField [''Config'', ''SSLCert'']),
        Text '' '',
        Action (PField [''Config'', ''SSLOpts''])]
       [],
     Text eol,
     Text (''    monitor-uri /haproxy?monitor'' @ eol),
     Text ''    '',
     If (PField [''Config'', ''AdminUser''])
       [Text (''stats realm Stats'' @ eol),
        Text ''    stats auth '',
        Action (PField [''Config'', ''AdminUser'']),
        Text '':'',
        Action (PField [''Config'', ''AdminPass''])]
       [],
     Text eol,
     Text (''    stats enable'' @ eol),
     Text (''    stats uri /haproxy?stats'' @ eol),
     Text (''    stats refresh 5s'' @ eol),
     Text ''    '']\<close>

definition haproxy_front :: "node list" where
  \<open>haproxy_front =
    [If (PNe (PVar ''$host'' [''ContextRoot'', ''Path'']) (PStr []))
       [Text ''acl url'',
        Action (PVar ''$host'' [''ContextRoot'', ''Name'']),
        Text '' path_beg '',
        Action (PVar ''$host'' [''ContextRoot'', ''Path'']),
        Text eol,
        Text ''    use_backend ctx'',
        Action (PVar ''$host'' [''ContextRoot'', ''Name'']),
        Text '' if url'',
        Action (PVar ''$host'' [''ContextRoot'', ''Name''])]
       [Text eol,
        Text ''    acl is_'',
        Action (PVar ''$host'' [''Name'']),
        Text '' hdr_beg(host) '',
        Action (PVar ''$host'' [''Domain'']),
        Text eol,
        Text ''    use_backend '',
        Action (PVar ''$host'' [''Name'']),
        Text '' if is_'',
        Action (PVar ''$host'' [''Name'']),
        Text eol,
        Text ''    ''],
     Text eol,
     Text ''    '']\<close>

definition haproxy_mid :: "node list" where
  \<open>haproxy_mid =
    [Text eol,
     Text eol]\<close>

definition haproxy_back :: "node list" where
  \<open>haproxy_back =
    [If (PNe (PVar ''$host'' [''ContextRoot'', ''Path'']) (PStr []))
       [Text ''backend ctx'',
        Action (PVar ''$host'' [''ContextRoot'', ''Name'']),
        Text eol,
        Text ''    acl missing_slash path_reg ^'',
        Action (PVar ''$host'' [''ContextRoot'', ''Path'']),
        Text (''[^/]*$'' @ eol),
        Text (''    redirect code 301 prefix / drop-query append-slash if missing_slash'' @ eol),
        Text ''    '',
        If (PVar ''$host'' [''ContextRootRewrite''])
          [Text (''reqrep ^([^'' @ backslash @ '' :]*)'' @ backslash @ '' ''),
           Action (PVar ''$host'' [''ContextRoot'', ''Path'']),
           Text (''/(.*)     '' @ backslash @ ''1'' @ backslash @ '' /'' @ backslash @ ''2'')]
          []]
       [Text eol,
        Text ''    backend '',
        Action (PVar ''$host'' [''Name''])],
     Text eol,
     Text (''    http-response add-header X-Request-Start %Ts.%ms'' @ eol),
     Text (''    http-request set-header X-Forwarded-Port %[dst_port]'' @ eol),
     Text (''    http-request add-header X-Forwarded-Proto https if { ssl_fc }'' @ eol),
     Text ''    balance '',
     Action (PVar ''$host'' [''BalanceAlgorithm'']),
     Text eol,
     Text ''    '',
     Range [''$option''] (PVar ''$host'' [''BackendOptions''])
       [Text ''option '',
        Action (PVar ''$option'' []),
        Text eol,
        Text ''    ''],
     Text eol,
     Text ''    '',
     If (PVar ''$host'' [''Check''])
       [Text ''option '',
        Action (PVar ''$host'' [''Check''])]
       [],
     Text eol,
     Text ''    '',
     If (PVar ''$host'' [''SSLOnly''])
       [Text ''redirect scheme https code 301 if !{ ssl_fc }'']
       [],
     Text eol,
     Text tab,
     If (PVar ''$host'' [''SSLOnly''])
       [Text ''http-response set-header Strict-Transport-Security "max-age=16000000; includeSubDomains; preload;"'']
       [],
     Text eol,
     Text ''    '',
     Range [''$i'', ''$up''] (PVar ''$host'' [''Upstreams''])
       [Text ''server '',
        Action (PVar ''$up'' [''Container'']),
        Text '' '',
        Action (PVar ''$up'' [''Addr'']),
        Text '' check inter '',
        Action (PVar ''$up'' [''CheckInterval'']),
        If (PVar ''$host'' [''SSLBackend''])
          [Text '' ssl verify '',
           Action (PVar ''$host'' [''SSLBackendTLSVerify'']),
           Text '' sni req.hdr(Host)'']
          [],
        Text eol,
        Text ''    ''],
     Text eol]\<close>

definition haproxy_tail :: "node list" where
  \<open>haproxy_tail =
    [Text eol]\<close>

definition haproxy_template :: "node list" where
  "haproxy_template = haproxy_head @ [Range [''$host''] (PField [''Hosts'']) haproxy_front] @ haproxy_mid
     @ [Range [''$host''] (PField [''Hosts'']) haproxy_back] @ haproxy_tail"

lemma haproxy_parsed: "parse_template haproxyConfTemplate = Inr haproxy_template"
  unfolding haproxyConfTemplate_def by (rule parse_lines) code_simp

section \<open>Nginx\<close>

definition nginx_lines :: "string list" where
  \<open>nginx_lines = [
     ''# managed by interlock'',
     ''user  {{ .Config.User }};'',
     ''worker_processes  {{ .Config.WorkerProcesses }};'',
     ''worker_rlimit_nofile {{ .Config.RLimitNoFile }};'',
     [],
     ''error_log  /var/log/error.log warn;'',
     ''pid        {{ .Config.PidPath }};'',
     [],
     [],
     ''events {'',
     ''    worker_connections  {{ .Config.MaxConn }};'',
     ''}'',
     [],
     [],
     ''http {'',
     ''    include       /etc/nginx/mime.types;'',
     ''    default_type  application/octet-stream;'',
     ''    server_names_hash_bucket_size 128;'',
     ''    client_max_body_size 2048M;'',
     [],
     ''    log_format  main  '' @ quote @ ''$remote_addr - $remote_user [$time_local] "$request" '' @ quote,
     ''                      '' @ quote @ ''$status $body_bytes_sent "$http_referer" '' @ quote,
     ''                      '' @ quote @ ''"$http_user_agent" "$http_x_forwarded_for"'' @ quote @ '';'',
     [],
     ''    access_log  /var/log/nginx/access.log  main;'',
     [],
     ''    sendfile        on;'',
     ''    #tcp_nopush     on;'',
     [],
     ''    keepalive_timeout  65;'',
     [],
     ''    # If we receive X-Forwarded-Proto, pass it through; otherwise, pass along the'',
     ''    # scheme used to connect to this server'',
     ''    map $http_x_forwarded_proto $proxy_x_forwarded_proto {'',
     ''      default $http_x_forwarded_proto;'',
     ''      '' @ quote @ quote @ ''      $scheme;'',
     ''    }'',
     [],
     ''    #gzip  on;'',
     ''    proxy_connect_timeout {{ .Config.ProxyConnectTimeout }};'',
     ''    proxy_send_timeout {{ .Config.ProxySendTimeout }};'',
     ''    proxy_read_timeout {{ .Config.ProxyReadTimeout }};'',
     ''    proxy_set_header        X-Real-IP         $remote_addr;'',
     ''    proxy_set_header        X-Forwarded-For   $proxy_add_x_forwarded_for;'',
     ''    proxy_set_header        X-Forwarded-Proto $proxy_x_forwarded_proto;'',
     ''    proxy_set_header        Host              $http_host;'',
     ''    send_timeout {{ .Config.SendTimeout }};'',
     [],
     ''    # ssl'',
     ''    ssl_prefer_server_ciphers on;'',
     ''    ssl_ciphers {{ .Config.SSLCiphers }};'',
     ''    ssl_protocols {{ .Config.SSLProtocols }};'',
     ''    {{ if .Config.DHParam}}ssl_dhparam {{ .Config.DHParamPath }};{{ end }}'',
     [],
     ''    map $http_upgrade $connection_upgrade {'',
     ''        default upgrade;'',
     ''        '' @ quote @ quote @ ''      close;'',
     ''    }'',
     [],
     ''    # default host return 503'',
     ''    server {'',
     ''            listen {{ .Config.Port }};'',
     ''            server_name _;'',
     [],
     ''            location / {'',
     ''                return 503;'',
     ''            }'',
     [],
     tab @ ''    {{ range $host := .Hosts }}'',
     tab @ ''    {{ if ne $host.ContextRoot.Path "" }}'',
     tab @ ''    location {{ $host.ContextRoot.Path }} {'',
     tab @ tab @ ''{{ if $host.ContextRootRewrite }}rewrite ^([^.]*[^/])$ $1/ permanent;'',
     tab @ tab @ ''rewrite  ^{{ $host.ContextRoot.Path }}/(.*)  /$1 break;{{ end }}'',
     tab @ tab @ ''proxy_pass http://ctx{{ $host.ContextRoot.Name }};'',
     tab @ ''    }'',
     tab @ ''    {{ end }}'',
     tab @ ''    {{ end }}'',
     ''            location /nginx_status {'',
     ''                stub_status on;'',
     ''                access_log off;'',
     ''            }'',
     ''    }'',
     [],
     ''    {{ range $host := .Hosts }}'',
     ''    {{ if ne $host.ContextRoot.Path "" }}'',
     ''    upstream ctx{{ $host.ContextRoot.Name }} {'',
     ''        zone ctx{{ $host.Upstream.Name }}_backend 64k;'',
     [],
     ''        {{ range $up := $host.Upstream.Servers }}server {{ $up.Addr }};'',
     ''        {{ end }}'',
     ''    }{{ else }}'',
     ''    upstream {{ $host.Upstream.Name }} {'',
     ''        {{ if $host.IPHash }}ip_hash; {{else}}zone {{ $host.Upstream.Name }}_backend 64k;{{ end }}'',
     [],
     ''        {{ range $up := $host.Upstream.Servers }}server {{ $up.Addr }};'',
     ''        {{ end }}'',
     ''    }'',
     ''    server {'',
     ''        listen {{ $host.Port }};'',
     [],
     ''        server_name{{ range $name := $host.ServerNames }} {{ $name }}{{ end }};'',
     ''        {{ if $host.SSLOnly }}return 302 https://$server_name$request_uri;{{ else }}'',
     ''        location / {'',
     ''            {{ if $host.SSLBackend }}proxy_pass https://{{ $host.Upstream.Name }};{{ else }}proxy_pass http://{{ $host.Upstream.Name }};{{ end }}'',
     ''        }'',
     [],
     ''        {{ range $ws := $host.WebsocketEndpoints }}'',
     ''        location {{ $ws }} {'',
     ''            {{ if $host.SSLBackend }}proxy_pass https://{{ $host.Upstream.Name }};{{ else }}proxy_pass http://{{ $host.Upstream.Name }};{{ end }}'',
     ''            proxy_http_version 1.1;'',
     ''            proxy_set_header Upgrade $http_upgrade;'',
     ''            proxy_set_header Connection $connection_upgrade;'',
     ''        }'',
     [],
     ''        location /nginx_status {'',
     ''            stub_status on;'',
     ''            access_log off;'',
     ''        }'',
     [],
     ''        {{ end }}'',
     ''        {{ end }}'',
     ''    }'',
     ''    {{ if $host.SSL }}'',
     ''    server {'',
     ''        listen {{ $host.SSLPort }};'',
     ''        ssl on;'',
     ''        ssl_certificate {{ $host.SSLCert }};'',
     ''        ssl_certificate_key {{ $host.SSLCertKey }};'',
     ''        server_name{{ range $name := $host.ServerNames }} {{ $name }}{{ end }};'',
     [],
     ''        location / {'',
     ''            {{ if $host.SSLBackend }}proxy_pass https://{{ $host.Upstream.Name }};{{ else }}proxy_pass http://{{ $host.Upstream.Name }};{{ end }}'',
     ''        }'',
     [],
     ''        {{ range $ws := $host.WebsocketEndpoints }}'',
     ''        location {{ $ws }} {'',
     ''            {{ if $host.SSLBackend }}proxy_pass https://{{ $host.Upstream.Name }};{{ else }}proxy_pass http://{{ $host.Upstream.Name }};{{ end }}'',
     ''            proxy_http_version 1.1;'',
     ''            proxy_set_header Upgrade $http_upgrade;'',
     ''            proxy_set_header Connection $connection_upgrade;'',
     ''        }'',
     [],
     ''        location /nginx_status {'',
     ''            stub_status on;'',
     ''            access_log off;'',
     ''        }'',
     ''        {{ end }}'',
     ''    }'',
     ''    {{ end }}'',
     [],
     ''    {{ end }} {{/* end context root */}}'',
     ''    {{ end }} {{/* end host range */}}'',
     [],
     ''    include {{ .Config.ConfigBasePath }}/conf.d/*.conf;'',
     ''}'']\<close>

definition nginxConfTemplate :: string where
  "nginxConfTemplate = unlines nginx_lines"

definition nginx_head :: "node list" where
  \<open>nginx_head =
    [Text (''# managed by interlock'' @ eol),
     Text ''user  '',
     Action (PField [''Config'', ''User'']),
     Text ('';'' @ eol),
     Text ''worker_processes  '',
     Action (PField [''Config'', ''WorkerProcesses'']),
     Text ('';'' @ eol),
     Text ''worker_rlimit_nofile '',
     Action (PField [''Config'', ''RLimitNoFile'']),
     Text ('';'' @ eol),
     Text eol,
     Text (''error_log  /var/log/error.log warn;'' @ eol),
     Text ''pid        '',
     Action (PField [''Config'', ''PidPath'']),
     Text ('';'' @ eol),
     Text eol,
     Text eol,
     Text (''events {'' @ eol),
     Text ''    worker_connections  '',
     Action (PField [''Config'', ''MaxConn'']),
     Text ('';'' @ eol),
     Text (''}'' @ eol),
     Text eol,
     Text eol,
     Text (''http {'' @ eol),
     Text (''    include       /etc/nginx/mime.types;'' @ eol),
     Text (''    default_type  application/octet-stream;'' @ eol),
     Text (''    server_names_hash_bucket_size 128;'' @ eol),
     Text (''    client_max_body_size 2048M;'' @ eol),
     Text eol,
     Text (''    log_format  main  '' @ quote @ ''$remote_addr - $remote_user [$time_local] "$request" '' @ quote @ eol),
     Text (''                      '' @ quote @ ''$status $body_bytes_sent "$http_referer" '' @ quote @ eol),
     Text (''                      '' @ quote @ ''"$http_user_agent" "$http_x_forwarded_for"'' @ quote @ '';'' @ eol),
     Text eol,
     Text (''    access_log  /var/log/nginx/access.log  main;'' @ eol),
     Text eol,
     Text (''    sendfile        on;'' @ eol),
     Text (''    #tcp_nopush     on;'' @ eol),
     Text eol,
     Text (''    keepalive_timeout  65;'' @ eol),
     Text eol,
     Text (''    # If we receive X-Forwarded-Proto, pass it through; otherwise, pass along the'' @ eol),
     Text (''    # scheme used to connect to this server'' @ eol),
     Text (''    map $http_x_forwarded_proto $proxy_x_forwarded_proto {'' @ eol),
     Text (''      default $http_x_forwarded_proto;'' @ eol),
     Text (''      '' @ quote @ quote @ ''      $scheme;'' @ eol),
     Text (''    }'' @ eol),
     Text eol,
     Text (''    #gzip  on;'' @ eol),
     Text ''    proxy_connect_timeout '',
     Action (PField [''Config'', ''ProxyConnectTimeout'']),
     Text ('';'' @ eol),
     Text ''    proxy_send_timeout '',
     Action (PField [''Config'', ''ProxySendTimeout'']),
     Text ('';'' @ eol),
     Text ''    proxy_read_timeout '',
     Action (PField [''Config'', ''ProxyReadTimeout'']),
     Text ('';'' @ eol),
     Text (''    proxy_set_header        X-Real-IP         $remote_addr;'' @ eol),
     Text (''    proxy_set_header        X-Forwarded-For   $proxy_add_x_forwarded_for;'' @ eol),
     Text (''    proxy_set_header        X-Forwarded-Proto $proxy_x_forwarded_proto;'' @ eol),
     Text (''    proxy_set_header        Host              $http_host;'' @ eol),
     Text ''    send_timeout '',
     Action (PField [''Config'', ''SendTimeout'']),
     Text ('';'' @ eol),
     Text eol,
     Text (''    # ssl'' @ eol),
     Text (''    ssl_prefer_server_ciphers on;'' @ eol),
     Text ''    ssl_ciphers '',
     Action (PField [''Config'', ''SSLCiphers'']),
     Text ('';'' @ eol),
     Text ''    ssl_protocols '',
     Action (PField [''Config'', ''SSLProtocols'']),
     Text ('';'' @ eol),
     Text ''    '',
     If (PField [''Config'', ''DHParam''])
       [Text ''ssl_dhparam '',
        Action (PField [''Config'', ''DHParamPath'']),
        Text '';'']
       [],
     Text eol,
     Text eol,
     Text (''    map $http_upgrade $connection_upgrade {'' @ eol),
     Text (''        default upgrade;'' @ eol),
     Text (''        '' @ quote @ quote @ ''      close;'' @ eol),
     Text (''    }'' @ eol),
     Text eol,
     Text (''    # default host return 503'' @ eol),
     Text (''    server {'' @ eol),
     Text ''            listen '',
     Action (PField [''Config'', ''Port'']),
     Text ('';'' @ eol),
     Text (''            server_name _;'' @ eol),
     Text eol,
     Text (''            location / {'' @ eol),
     Text (''                return 503;'' @ eol),
     Text (''            }'' @ eol),
     Text eol,
     Text (tab @ ''    '')]\<close>

definition nginx_front :: "node list" where
  \<open>nginx_front =
    [Text eol,
     Text (tab @ ''    ''),
     If (PNe (PVar ''$host'' [''ContextRoot'', ''Path'']) (PStr []))
       [Text eol,
        Text (tab @ ''    location ''),
        Action (PVar ''$host'' [''ContextRoot'', ''Path'']),
        Text ('' {'' @ eol),
        Text (tab @ tab),
        If (PVar ''$host'' [''ContextRootRewrite''])
          [Text (''rewrite ^([^.]*[^/])$ $1/ permanent;'' @ eol),
           Text (tab @ tab @ ''rewrite  ^''),
           Action (PVar ''$host'' [''ContextRoot'', ''Path'']),
           Text ''/(.*)  /$1 break;'']
          [],
        Text eol,
        Text (tab @ tab @ ''proxy_pass http://ctx''),
        Action (PVar ''$host'' [''ContextRoot'', ''Name'']),
        Text ('';'' @ eol),
        Text (tab @ ''    }'' @ eol),
        Text (tab @ ''    '')]
       [],
     Text eol,
     Text (tab @ ''    '')]\<close>

definition nginx_mid :: "node list" where
  \<open>nginx_mid =
    [Text eol,
     Text (''            location /nginx_status {'' @ eol),
     Text (''                stub_status on;'' @ eol),
     Text (''                access_log off;'' @ eol),
     Text (''            }'' @ eol),
     Text (''    }'' @ eol),
     Text eol,
     Text ''    '']\<close>

definition nginx_back :: "node list" where
  \<open>nginx_back =
    [Text eol,
     Text ''    '',
     If (PNe (PVar ''$host'' [''ContextRoot'', ''Path'']) (PStr []))
       [Text eol,
        Text ''    upstream ctx'',
        Action (PVar ''$host'' [''ContextRoot'', ''Name'']),
        Text ('' {'' @ eol),
        Text ''        zone ctx'',
        Action (PVar ''$host'' [''Upstream'', ''Name'']),
        Text (''_backend 64k;'' @ eol),
        Text eol,
        Text ''        '',
        Range [''$up''] (PVar ''$host'' [''Upstream'', ''Servers''])
          [Text ''server '',
           Action (PVar ''$up'' [''Addr'']),
           Text ('';'' @ eol),
           Text ''        ''],
        Text eol,
        Text ''    }'']
       [Text eol,
        Text ''    upstream '',
        Action (PVar ''$host'' [''Upstream'', ''Name'']),
        Text ('' {'' @ eol),
        Text ''        '',
        If (PVar ''$host'' [''IPHash''])
          [Text ''ip_hash; '']
          [Text ''zone '',
           Action (PVar ''$host'' [''Upstream'', ''Name'']),
           Text ''_backend 64k;''],
        Text eol,
        Text eol,
        Text ''        '',
        Range [''$up''] (PVar ''$host'' [''Upstream'', ''Servers''])
          [Text ''server '',
           Action (PVar ''$up'' [''Addr'']),
           Text ('';'' @ eol),
           Text ''        ''],
        Text eol,
        Text (''    }'' @ eol),
        Text (''    server {'' @ eol),
        Text ''        listen '',
        Action (PVar ''$host'' [''Port'']),
        Text ('';'' @ eol),
        Text eol,
        Text ''        server_name'',
        Range [''$name''] (PVar ''$host'' [''ServerNames''])
          [Text '' '',
           Action (PVar ''$name'' [])],
        Text ('';'' @ eol),
        Text ''        '',
        If (PVar ''$host'' [''SSLOnly''])
          [Text ''return 302 https://$server_name$request_uri;'']
          [Text eol,
           Text (''        location / {'' @ eol),
           Text ''            '',
           If (PVar ''$host'' [''SSLBackend''])
             [Text ''proxy_pass https://'',
              Action (PVar ''$host'' [''Upstream'', ''Name'']),
              Text '';'']
             [Text ''proxy_pass http://'',
              Action (PVar ''$host'' [''Upstream'', ''Name'']),
              Text '';''],
           Text eol,
           Text (''        }'' @ eol),
           Text eol,
           Text ''        '',
           Range [''$ws''] (PVar ''$host'' [''WebsocketEndpoints''])
             [Text eol,
              Text ''        location '',
              Action (PVar ''$ws'' []),
              Text ('' {'' @ eol),
              Text ''            '',
              If (PVar ''$host'' [''SSLBackend''])
                [Text ''proxy_pass https://'',
                 Action (PVar ''$host'' [''Upstream'', ''Name'']),
                 Text '';'']
                [Text ''proxy_pass http://'',
                 Action (PVar ''$host'' [''Upstream'', ''Name'']),
                 Text '';''],
              Text eol,
              Text (''            proxy_http_version 1.1;'' @ eol),
              Text (''            proxy_set_header Upgrade $http_upgrade;'' @ eol),
              Text (''            proxy_set_header Connection $connection_upgrade;'' @ eol),
              Text (''        }'' @ eol),
              Text eol,
              Text (''        location /nginx_status {'' @ eol),
              Text (''            stub_status on;'' @ eol),
              Text (''            access_log off;'' @ eol),
              Text (''        }'' @ eol),
              Text eol,
              Text ''        ''],
           Text eol,
           Text ''        ''],
        Text eol,
        Text (''    }'' @ eol),
        Text ''    '',
        If (PVar ''$host'' [''SSL''])
          [Text eol,
           Text (''    server {'' @ eol),
           Text ''        listen '',
           Action (PVar ''$host'' [''SSLPort'']),
           Text ('';'' @ eol),
           Text (''        ssl on;'' @ eol),
           Text ''        ssl_certificate '',
           Action (PVar ''$host'' [''SSLCert'']),
           Text ('';'' @ eol),
           Text ''        ssl_certificate_key '',
           Action (PVar ''$host'' [''SSLCertKey'']),
           Text ('';'' @ eol),
           Text ''        server_name'',
           Range [''$name''] (PVar ''$host'' [''ServerNames''])
             [Text '' '',
              Action (PVar ''$name'' [])],
           Text ('';'' @ eol),
           Text eol,
           Text (''        location / {'' @ eol),
           Text ''            '',
           If (PVar ''$host'' [''SSLBackend''])
             [Text ''proxy_pass https://'',
              Action (PVar ''$host'' [''Upstream'', ''Name'']),
              Text '';'']
             [Text ''proxy_pass http://'',
              Action (PVar ''$host'' [''Upstream'', ''Name'']),
              Text '';''],
           Text eol,
           Text (''        }'' @ eol),
           Text eol,
           Text ''        '',
           Range [''$ws''] (PVar ''$host'' [''WebsocketEndpoints''])
             [Text eol,
              Text ''        location '',
              Action (PVar ''$ws'' []),
              Text ('' {'' @ eol),
              Text ''            '',
              If (PVar ''$host'' [''SSLBackend''])
                [Text ''proxy_pass https://'',
                 Action (PVar ''$host'' [''Upstream'', ''Name'']),
                 Text '';'']
                [Text ''proxy_pass http://'',
                 Action (PVar ''$host'' [''Upstream'', ''Name'']),
                 Text '';''],
              Text eol,
              Text (''            proxy_http_version 1.1;'' @ eol),
              Text (''            proxy_set_header Upgrade $http_upgrade;'' @ eol),
              Text (''            proxy_set_header Connection $connection_upgrade;'' @ eol),
              Text (''        }'' @ eol),
              Text eol,
              Text (''        location /nginx_status {'' @ eol),
              Text (''            stub_status on;'' @ eol),
              Text (''            access_log off;'' @ eol),
              Text (''        }'' @ eol),
              Text ''        ''],
           Text eol,
           Text (''    }'' @ eol),
           Text ''    '']
          [],
        Text eol,
        Text eol,
        Text ''    ''],
     Text '' '',
     Text eol,
     Text ''    '']\<close>

definition nginx_tail :: "node list" where
  \<open>nginx_tail =
    [Text '' '',
     Text eol,
     Text eol,
     Text ''    include '',
     Action (PField [''Config'', ''ConfigBasePath'']),
     Text (''/conf.d/*.conf;'' @ eol),
     Text (''}'' @ eol)]\<close>

definition nginx_template :: "node list" where
  "nginx_template = nginx_head @ [Range [''$host''] (PField [''Hosts'']) nginx_front] @ nginx_mid
     @ [Range [''$host''] (PField [''Hosts'']) nginx_back] @ nginx_tail"

lemma nginx_parsed: "parse_template nginxConfTemplate = Inr nginx_template"
  unfolding nginxConfTemplate_def by (rule parse_lines) code_simp

section \<open>Nginx Plus\<close>

definition nginxPlus_lines :: "string list" where
  \<open>nginxPlus_lines = [
     ''# managed by interlock'',
     ''user  {{ .Config.User }};'',
     ''worker_processes  {{ .Config.WorkerProcesses }};'',
     ''worker_rlimit_nofile {{ .Config.RLimitNoFile }};'',
     [],
     ''error_log  /var/log/error.log warn;'',
     ''pid        {{ .Config.PidPath }};'',
     [],
     [],
     ''events {'',
     ''    worker_connections  {{ .Config.MaxConn }};'',
     ''}'',
     [],
     [],
     ''http {'',
     ''    include       /etc/nginx/mime.types;'',
     ''    default_type  application/octet-stream;'',
     ''    server_names_hash_bucket_size 128;'',
     ''    client_max_body_size 2048M;'',
     [],
     ''    log_format  main  '' @ quote @ ''$remote_addr - $remote_user [$time_local] "$request" '' @ quote,
     ''                      '' @ quote @ ''$status $body_bytes_sent "$http_referer" '' @ quote,
     ''                      '' @ quote @ ''"$http_user_agent" "$http_x_forwarded_for"'' @ quote @ '';'',
     [],
     ''    access_log  /var/log/nginx/access.log  main;'',
     [],
     ''    sendfile        on;'',
     ''    #tcp_nopush     on;'',
     [],
     ''    keepalive_timeout  65;'',
     [],
     ''    # If we receive X-Forwarded-Proto, pass it through; otherwise, pass along the'',
     ''    # scheme used to connect to this server'',
     ''    map $http_x_forwarded_proto $proxy_x_forwarded_proto {'',
     ''      default $http_x_forwarded_proto;'',
     ''      '' @ quote @ quote @ ''      $scheme;'',
     ''    }'',
     [],
     ''    #gzip  on;'',
     ''    proxy_connect_timeout {{ .Config.ProxyConnectTimeout }};'',
     ''    proxy_send_timeout {{ .Config.ProxySendTimeout }};'',
     ''    proxy_read_timeout {{ .Config.ProxyReadTimeout }};'',
     ''    proxy_set_header        X-Real-IP         $remote_addr;'',
     ''    proxy_set_header        X-Forwarded-For   $proxy_add_x_forwarded_for;'',
     ''    proxy_set_header        X-Forwarded-Proto $proxy_x_forwarded_proto;'',
     ''    proxy_set_header        Host              $http_host;'',
     ''    send_timeout {{ .Config.SendTimeout }};'',
     [],
     ''    # ssl'',
     ''    ssl_prefer_server_ciphers on;'',
     ''    ssl_ciphers {{ .Config.SSLCiphers }};'',
     ''    ssl_protocols {{ .Config.SSLProtocols }};'',
     ''    {{ if .Config.DHParam}}ssl_dhparam {{ .Config.DHParamPath }};{{ end }}'',
     [],
     ''    map $http_upgrade $connection_upgrade {'',
     ''        default upgrade;'',
     ''        '' @ quote @ quote @ ''      close;'',
     ''    }'',
     [],
     ''    # default host return 503'',
     ''    server {'',
     ''            listen {{ .Config.Port }};'',
     ''            server_name _;'',
     [],
     tab @ ''    root /usr/share/nginx/html;'',
     [],
     tab @ ''    # nginxplus'',
     ''    '' @ tab @ ''    location = / {'',
     ''    '' @ tab @ ''        return 301 /status.html;'',
     ''    '' @ tab @ ''    }'',
     ''    '' @ tab @ ''    location = /status.html { }'',
     tab @ ''    # end nginxplus'',
     [],
     ''    '' @ tab @ ''    location /status {'',
     ''    '' @ tab @ ''        status;'',
     ''    '' @ tab @ ''    }'',
     tab @ ''    {{ range $host := .Hosts }}'',
     tab @ ''    {{ if ne $host.ContextRoot.Path "" }}'',
     tab @ ''    location {{ $host.ContextRoot.Path }} {'',
     tab @ tab @ ''{{ if $host.ContextRootRewrite }}rewrite ^([^.]*[^/])$ $1/ permanent;'',
     tab @ tab @ ''rewrite  ^{{ $host.ContextRoot.Path }}/(.*)  /$1 break;{{ end }}'',
     tab @ tab @ ''proxy_pass http://ctx{{ $host.ContextRoot.Name }};'',
     tab @ ''    }'',
     tab @ ''    {{ end }}'',
     tab @ ''    {{ end }}'',
     ''    }'',
     [],
     ''    {{ range $host := .Hosts }}'',
     ''    {{ if ne $host.ContextRoot.Path "" }}'',
     ''    upstream ctx{{ $host.ContextRoot.Name }} {'',
     ''        zone ctx{{ $host.Upstream.Name }}_backend 64k;'',
     [],
     ''        {{ range $up := $host.Upstream.Servers }}server {{ $up.Addr }};'',
     ''        {{ end }}'',
     ''    }{{ else }}'',
     ''    upstream {{ $host.Upstream.Name }} {'',
     ''        {{ if $host.IPHash }}ip_hash; {{else}}zone {{ $host.Upstream.Name }}_backend 64k;{{ end }}'',
     [],
     ''        {{ range $up := $host.Upstream.Servers }}server {{ $up.Addr }};'',
     ''        {{ end }}'',
     ''    }'',
     ''    server {'',
     ''        listen {{ $host.Port }};'',
     [],
     ''        server_name{{ range $name := $host.ServerNames }} {{ $name }}{{ end }};'',
     ''        {{ if $host.SSLOnly }}return 302 https://$server_name$request_uri;{{ else }}'',
     ''        location / {'',
     ''            {{ if $host.SSLBackend }}proxy_pass https://{{ $host.Upstream.Name }};{{ else }}proxy_pass http://{{ $host.Upstream.Name }};{{ end }}'',
     ''        }'',
     [],
     ''        status_zone {{ $host.Upstream.Name }}_backend;'',
     [],
     ''        {{ range $ws := $host.WebsocketEndpoints }}'',
     ''        location {{ $ws }} {'',
     ''            {{ if $host.SSLBackend }}proxy_pass https://{{ $host.Upstream.Name }};{{ else }}proxy_pass http://{{ $host.Upstream.Name }};{{ end }}'',
     ''            proxy_http_version 1.1;'',
     ''            proxy_set_header Upgrade $http_upgrade;'',
     ''            proxy_set_header Connection $connection_upgrade;'',
     ''        }'',
     [],
     ''    '' @ tab @ ''location /status {'',
     ''    '' @ tab @ ''    status;'',
     ''    '' @ tab @ ''}'',
     [],
     ''        {{ end }}'',
     ''        {{ end }}'',
     ''    }'',
     ''    {{ if $host.SSL }}'',
     ''    server {'',
     ''        listen {{ $host.SSLPort }};'',
     ''        ssl on;'',
     ''        ssl_certificate {{ $host.SSLCert }};'',
     ''        ssl_certificate_key {{ $host.SSLCertKey }};'',
     ''        server_name{{ range $name := $host.ServerNames }} {{ $name }}{{ end }};'',
     [],
     ''        location / {'',
     ''            {{ if $host.SSLBackend }}proxy_pass https://{{ $host.Upstream.Name }};{{ else }}proxy_pass http://{{ $host.Upstream.Name }};{{ end }}'',
     ''        }'',
     [],
     ''        {{ range $ws := $host.WebsocketEndpoints }}'',
     ''        location {{ $ws }} {'',
     ''            {{ if $host.SSLBackend }}proxy_pass https://{{ $host.Upstream.Name }};{{ else }}proxy_pass http://{{ $host.Upstream.Name }};{{ end }}'',
     ''            proxy_http_version 1.1;'',
     ''            proxy_set_header Upgrade $http_upgrade;'',
     ''            proxy_set_header Connection $connection_upgrade;'',
     ''        }'',
     [],
     ''        location /nginx_status {'',
     ''            stub_status on;'',
     ''            access_log off;'',
     ''        }'',
     ''        {{ end }}'',
     ''    }'',
     ''    {{ end }}'',
     [],
     ''    {{ end }} {{/* end context root */}}'',
     ''    {{ end }} {{/* end host range */}}'',
     [],
     ''    include {{ .Config.ConfigBasePath }}/conf.d/*.conf;'',
     ''}'']\<close>

definition nginxPlusConfTemplate :: string where
  "nginxPlusConfTemplate = unlines nginxPlus_lines"

definition nginxPlus_head :: "node list" where
  \<open>nginxPlus_head =
    [Text (''# managed by interlock'' @ eol),
     Text ''user  '',
     Action (PField [''Config'', ''User'']),
     Text ('';'' @ eol),
     Text ''worker_processes  '',
     Action (PField [''Config'', ''WorkerProcesses'']),
     Text ('';'' @ eol),
     Text ''worker_rlimit_nofile '',
     Action (PField [''Config'', ''RLimitNoFile'']),
     Text ('';'' @ eol),
     Text eol,
     Text (''error_log  /var/log/error.log warn;'' @ eol),
     Text ''pid        '',
     Action (PField [''Config'', ''PidPath'']),
     Text ('';'' @ eol),
     Text eol,
     Text eol,
     Text (''events {'' @ eol),
     Text ''    worker_connections  '',
     Action (PField [''Config'', ''MaxConn'']),
     Text ('';'' @ eol),
     Text (''}'' @ eol),
     Text eol,
     Text eol,
     Text (''http {'' @ eol),
     Text (''    include       /etc/nginx/mime.types;'' @ eol),
     Text (''    default_type  application/octet-stream;'' @ eol),
     Text (''    server_names_hash_bucket_size 128;'' @ eol),
     Text (''    client_max_body_size 2048M;'' @ eol),
     Text eol,
     Text (''    log_format  main  '' @ quote @ ''$remote_addr - $remote_user [$time_local] "$request" '' @ quote @ eol),
     Text (''                      '' @ quote @ ''$status $body_bytes_sent "$http_referer" '' @ quote @ eol),
     Text (''                      '' @ quote @ ''"$http_user_agent" "$http_x_forwarded_for"'' @ quote @ '';'' @ eol),
     Text eol,
     Text (''    access_log  /var/log/nginx/access.log  main;'' @ eol),
     Text eol,
     Text (''    sendfile        on;'' @ eol),
     Text (''    #tcp_nopush     on;'' @ eol),
     Text eol,
     Text (''    keepalive_timeout  65;'' @ eol),
     Text eol,
     Text (''    # If we receive X-Forwarded-Proto, pass it through; otherwise, pass along the'' @ eol),
     Text (''    # scheme used to connect to this server'' @ eol),
     Text (''    map $http_x_forwarded_proto $proxy_x_forwarded_proto {'' @ eol),
     Text (''      default $http_x_forwarded_proto;'' @ eol),
     Text (''      '' @ quote @ quote @ ''      $scheme;'' @ eol),
     Text (''    }'' @ eol),
     Text eol,
     Text (''    #gzip  on;'' @ eol),
     Text ''    proxy_connect_timeout '',
     Action (PField [''Config'', ''ProxyConnectTimeout'']),
     Text ('';'' @ eol),
     Text ''    proxy_send_timeout '',
     Action (PField [''Config'', ''ProxySendTimeout'']),
     Text ('';'' @ eol),
     Text ''    proxy_read_timeout '',
     Action (PField [''Config'', ''ProxyReadTimeout'']),
     Text ('';'' @ eol),
     Text (''    proxy_set_header        X-Real-IP         $remote_addr;'' @ eol),
     Text (''    proxy_set_header        X-Forwarded-For   $proxy_add_x_forwarded_for;'' @ eol),
     Text (''    proxy_set_header        X-Forwarded-Proto $proxy_x_forwarded_proto;'' @ eol),
     Text (''    proxy_set_header        Host              $http_host;'' @ eol),
     Text ''    send_timeout '',
     Action (PField [''Config'', ''SendTimeout'']),
     Text ('';'' @ eol),
     Text eol,
     Text (''    # ssl'' @ eol),
     Text (''    ssl_prefer_server_ciphers on;'' @ eol),
     Text ''    ssl_ciphers '',
     Action (PField [''Config'', ''SSLCiphers'']),
     Text ('';'' @ eol),
     Text ''    ssl_protocols '',
     Action (PField [''Config'', ''SSLProtocols'']),
     Text ('';'' @ eol),
     Text ''    '',
     If (PField [''Config'', ''DHParam''])
       [Text ''ssl_dhparam '',
        Action (PField [''Config'', ''DHParamPath'']),
        Text '';'']
       [],
     Text eol,
     Text eol,
     Text (''    map $http_upgrade $connection_upgrade {'' @ eol),
     Text (''        default upgrade;'' @ eol),
     Text (''        '' @ quote @ quote @ ''      close;'' @ eol),
     Text (''    }'' @ eol),
     Text eol,
     Text (''    # default host return 503'' @ eol),
     Text (''    server {'' @ eol),
     Text ''            listen '',
     Action (PField [''Config'', ''Port'']),
     Text ('';'' @ eol),
     Text (''            server_name _;'' @ eol),
     Text eol,
     Text (tab @ ''    root /usr/share/nginx/html;'' @ eol),
     Text eol,
     Text (tab @ ''    # nginxplus'' @ eol),
     Text (''    '' @ tab @ ''    location = / {'' @ eol),
     Text (''    '' @ tab @ ''        return 301 /status.html;'' @ eol),
     Text (''    '' @ tab @ ''    }'' @ eol),
     Text (''    '' @ tab @ ''    location = /status.html { }'' @ eol),
     Text (tab @ ''    # end nginxplus'' @ eol),
     Text eol,
     Text (''    '' @ tab @ ''    location /status {'' @ eol),
     Text (''    '' @ tab @ ''        status;'' @ eol),
     Text (''    '' @ tab @ ''    }'' @ eol),
     Text (tab @ ''    '')]\<close>

definition nginxPlus_front :: "node list" where
  \<open>nginxPlus_front =
    [Text eol,
     Text (tab @ ''    ''),
     If (PNe (PVar ''$host'' [''ContextRoot'', ''Path'']) (PStr []))
       [Text eol,
        Text (tab @ ''    location ''),
        Action (PVar ''$host'' [''ContextRoot'', ''Path'']),
        Text ('' {'' @ eol),
        Text (tab @ tab),
        If (PVar ''$host'' [''ContextRootRewrite''])
          [Text (''rewrite ^([^.]*[^/])$ $1/ permanent;'' @ eol),
           Text (tab @ tab @ ''rewrite  ^''),
           Action (PVar ''$host'' [''ContextRoot'', ''Path'']),
           Text ''/(.*)  /$1 break;'']
          [],
        Text eol,
        Text (tab @ tab @ ''proxy_pass http://ctx''),
        Action (PVar ''$host'' [''ContextRoot'', ''Name'']),
        Text ('';'' @ eol),
        Text (tab @ ''    }'' @ eol),
        Text (tab @ ''    '')]
       [],
     Text eol,
     Text (tab @ ''    '')]\<close>

definition nginxPlus_mid :: "node list" where
  \<open>nginxPlus_mid =
    [Text eol,
     Text (''    }'' @ eol),
     Text eol,
     Text ''    '']\<close>

definition nginxPlus_back :: "node list" where
  \<open>nginxPlus_back =
    [Text eol,
     Text ''    '',
     If (PNe (PVar ''$host'' [''ContextRoot'', ''Path'']) (PStr []))
       [Text eol,
        Text ''    upstream ctx'',
        Action (PVar ''$host'' [''ContextRoot'', ''Name'']),
        Text ('' {'' @ eol),
        Text ''        zone ctx'',
        Action (PVar ''$host'' [''Upstream'', ''Name'']),
        Text (''_backend 64k;'' @ eol),
        Text eol,
        Text ''        '',
        Range [''$up''] (PVar ''$host'' [''Upstream'', ''Servers''])
          [Text ''server '',
           Action (PVar ''$up'' [''Addr'']),
           Text ('';'' @ eol),
           Text ''        ''],
        Text eol,
        Text ''    }'']
       [Text eol,
        Text ''    upstream '',
        Action (PVar ''$host'' [''Upstream'', ''Name'']),
        Text ('' {'' @ eol),
        Text ''        '',
        If (PVar ''$host'' [''IPHash''])
          [Text ''ip_hash; '']
          [Text ''zone '',
           Action (PVar ''$host'' [''Upstream'', ''Name'']),
           Text ''_backend 64k;''],
        Text eol,
        Text eol,
        Text ''        '',
        Range [''$up''] (PVar ''$host'' [''Upstream'', ''Servers''])
          [Text ''server '',
           Action (PVar ''$up'' [''Addr'']),
           Text ('';'' @ eol),
           Text ''        ''],
        Text eol,
        Text (''    }'' @ eol),
        Text (''    server {'' @ eol),
        Text ''        listen '',
        Action (PVar ''$host'' [''Port'']),
        Text ('';'' @ eol),
        Text eol,
        Text ''        server_name'',
        Range [''$name''] (PVar ''$host'' [''ServerNames''])
          [Text '' '',
           Action (PVar ''$name'' [])],
        Text ('';'' @ eol),
        Text ''        '',
        If (PVar ''$host'' [''SSLOnly''])
          [Text ''return 302 https://$server_name$request_uri;'']
          [Text eol,
           Text (''        location / {'' @ eol),
           Text ''            '',
           If (PVar ''$host'' [''SSLBackend''])
             [Text ''proxy_pass https://'',
              Action (PVar ''$host'' [''Upstream'', ''Name'']),
              Text '';'']
             [Text ''proxy_pass http://'',
              Action (PVar ''$host'' [''Upstream'', ''Name'']),
              Text '';''],
           Text eol,
           Text (''        }'' @ eol),
           Text eol,
           Text ''        status_zone '',
           Action (PVar ''$host'' [''Upstream'', ''Name'']),
           Text (''_backend;'' @ eol),
           Text eol,
           Text ''        '',
           Range [''$ws''] (PVar ''$host'' [''WebsocketEndpoints''])
             [Text eol,
              Text ''        location '',
              Action (PVar ''$ws'' []),
              Text ('' {'' @ eol),
              Text ''            '',
              If (PVar ''$host'' [''SSLBackend''])
                [Text ''proxy_pass https://'',
                 Action (PVar ''$host'' [''Upstream'', ''Name'']),
                 Text '';'']
                [Text ''proxy_pass http://'',
                 Action (PVar ''$host'' [''Upstream'', ''Name'']),
                 Text '';''],
              Text eol,
              Text (''            proxy_http_version 1.1;'' @ eol),
              Text (''            proxy_set_header Upgrade $http_upgrade;'' @ eol),
              Text (''            proxy_set_header Connection $connection_upgrade;'' @ eol),
              Text (''        }'' @ eol),
              Text eol,
              Text (''    '' @ tab @ ''location /status {'' @ eol),
              Text (''    '' @ tab @ ''    status;'' @ eol),
              Text (''    '' @ tab @ ''}'' @ eol),
              Text eol,
              Text ''        ''],
           Text eol,
           Text ''        ''],
        Text eol,
        Text (''    }'' @ eol),
        Text ''    '',
        If (PVar ''$host'' [''SSL''])
          [Text eol,
           Text (''    server {'' @ eol),
           Text ''        listen '',
           Action (PVar ''$host'' [''SSLPort'']),
           Text ('';'' @ eol),
           Text (''        ssl on;'' @ eol),
           Text ''        ssl_certificate '',
           Action (PVar ''$host'' [''SSLCert'']),
           Text ('';'' @ eol),
           Text ''        ssl_certificate_key '',
           Action (PVar ''$host'' [''SSLCertKey'']),
           Text ('';'' @ eol),
           Text ''        server_name'',
           Range [''$name''] (PVar ''$host'' [''ServerNames''])
             [Text '' '',
              Action (PVar ''$name'' [])],
           Text ('';'' @ eol),
           Text eol,
           Text (''        location / {'' @ eol),
           Text ''            '',
           If (PVar ''$host'' [''SSLBackend''])
             [Text ''proxy_pass https://'',
              Action (PVar ''$host'' [''Upstream'', ''Name'']),
              Text '';'']
             [Text ''proxy_pass http://'',
              Action (PVar ''$host'' [''Upstream'', ''Name'']),
              Text '';''],
           Text eol,
           Text (''        }'' @ eol),
           Text eol,
           Text ''        '',
           Range [''$ws''] (PVar ''$host'' [''WebsocketEndpoints''])
             [Text eol,
              Text ''        location '',
              Action (PVar ''$ws'' []),
              Text ('' {'' @ eol),
              Text ''            '',
              If (PVar ''$host'' [''SSLBackend''])
                [Text ''proxy_pass https://'',
                 Action (PVar ''$host'' [''Upstream'', ''Name'']),
                 Text '';'']
                [Text ''proxy_pass http://'',
                 Action (PVar ''$host'' [''Upstream'', ''Name'']),
                 Text '';''],
              Text eol,
              Text (''            proxy_http_version 1.1;'' @ eol),
              Text (''            proxy_set_header Upgrade $http_upgrade;'' @ eol),
              Text (''            proxy_set_header Connection $connection_upgrade;'' @ eol),
              Text (''        }'' @ eol),
              Text eol,
              Text (''        location /nginx_status {'' @ eol),
              Text (''            stub_status on;'' @ eol),
              Text (''            access_log off;'' @ eol),
              Text (''        }'' @ eol),
              Text ''        ''],
           Text eol,
           Text (''    }'' @ eol),
           Text ''    '']
          [],
        Text eol,
        Text eol,
        Text ''    ''],
     Text '' '',
     Text eol,
     Text ''    '']\<close>

definition nginxPlus_tail :: "node list" where
  \<open>nginxPlus_tail =
    [Text '' '',
     Text eol,
     Text eol,
     Text ''    include '',
     Action (PField [''Config'', ''ConfigBasePath'']),
     Text (''/conf.d/*.conf;'' @ eol),
     Text (''}'' @ eol)]\<close>

definition nginxPlus_template :: "node list" where
  "nginxPlus_template = nginxPlus_head @ [Range [''$host''] (PField [''Hosts'']) nginxPlus_front] @ nginxPlus_mid
     @ [Range [''$host''] (PField [''Hosts'']) nginxPlus_back] @ nginxPlus_tail"

lemma nginxPlus_parsed: "parse_template nginxPlusConfTemplate = Inr nginxPlus_template"
  unfolding nginxPlusConfTemplate_def by (rule parse_lines) code_simp

end
