(* ===== verification/Templates.thy ===== *)
theory Templates
  imports Builtin_Templates Load_Balancer
begin

text \<open>
  Rendering a generated configuration with the built-in templates: what reflection sees of the
  configurations of the two backends, the template engine as an argument of \<open>SaveConfig\<close>, and what the
  rendered files say. The maps \<open>Rules\<close> and \<open>Networks\<close>, which no built-in template reads, are left out of
  the values.
\<close>

section \<open>Configurations as values\<close>

definition ext_value :: "ext_config \<Rightarrow> tval" where
  "ext_value c = VStruct [
     (''Name'', VStr (Name c)), (''ConfigPath'', VStr (ConfigPath c)),
     (''ConfigBasePath'', VStr (ConfigBasePath c)), (''PidPath'', VStr (PidPath c)),
     (''TemplatePath'', VStr (TemplatePath c)), (''BackendOverrideAddress'', VStr (BackendOverrideAddress c)),
     (''ConnectTimeout'', VInt (ConnectTimeout c)), (''ServerTimeout'', VInt (ServerTimeout c)),
     (''ClientTimeout'', VInt (ClientTimeout c)), (''MaxConn'', VInt (MaxConn c)), (''Port'', VInt (Port c)),
     (''SyslogAddr'', VStr (SyslogAddr c)), (''AdminUser'', VStr (AdminUser c)),
     (''AdminPass'', VStr (AdminPass c)), (''SSLCertPath'', VStr (SSLCertPath c)),
     (''SSLCert'', VStr (SSLCert c)), (''SSLPort'', VInt (SSLPort c)), (''SSLOpts'', VStr (SSLOpts c)),
     (''SSLDefaultDHParam'', VInt (SSLDefaultDHParam c)), (''SSLServerVerify'', VStr (SSLServerVerify c)),
     (''DHParam'', VBool (DHParam c)), (''DHParamPath'', VStr (DHParamPath c)),
     (''NginxPlusEnabled'', VBool (NginxPlusEnabled c)), (''User'', VStr (User c)),
     (''WorkerProcesses'', VInt (WorkerProcesses c)), (''RLimitNoFile'', VInt (RLimitNoFile c)),
     (''ProxyConnectTimeout'', VInt (ProxyConnectTimeout c)),
     (''ProxySendTimeout'', VInt (ProxySendTimeout c)), (''ProxyReadTimeout'', VInt (ProxyReadTimeout c)),
     (''SendTimeout'', VInt (SendTimeout c)), (''SSLCiphers'', VStr (SSLCiphers c)),
     (''SSLProtocols'', VStr (SSLProtocols c)), (''StatsInterval'', VStr (StatsInterval c)),
     (''StatsBackendType'', VStr (StatsBackendType c)),
     (''StatsPrometheusPushGatewayURL'', VStr (StatsPrometheusPushGatewayURL c)),
     (''StatsInfluxDBAddress'', VStr (StatsInfluxDBAddress c)),
     (''StatsInfluxDBUser'', VStr (StatsInfluxDBUser c)),
     (''StatsInfluxDBPassword'', VStr (StatsInfluxDBPassword c)),
     (''StatsInfluxDBDatabase'', VStr (StatsInfluxDBDatabase c)),
     (''StatsInfluxDBPrecision'', VStr (StatsInfluxDBPrecision c))]"

definition hp_context_value :: "hp_context_root option \<Rightarrow> tval" where
  "hp_context_value r = (case r of None \<Rightarrow> VNil
     | Some cr \<Rightarrow> VStruct [(''Name'', VStr (cr_Name cr)), (''Path'', VStr (cr_Path cr))])"

definition hp_upstream_value :: "hp_upstream \<Rightarrow> tval" where
  "hp_upstream_value u = VStruct [(''Container'', VStr (up_Container u)), (''Addr'', VStr (up_Addr u)),
     (''CheckInterval'', VInt (up_CheckInterval u))]"

definition hp_host_value :: "hp_host \<Rightarrow> tval" where
  "hp_host_value h = VStruct [(''Name'', VStr (h_Name h)), (''ContextRoot'', hp_context_value (h_ContextRoot h)),
     (''ContextRootRewrite'', VBool (h_ContextRootRewrite h)), (''Domain'', VStr (h_Domain h)),
     (''Check'', VStr (h_Check h)), (''BackendOptions'', VList (map VStr (h_BackendOptions h))),
     (''Upstreams'', VList (map hp_upstream_value (h_Upstreams h))), (''SSLOnly'', VBool (h_SSLOnly h)),
     (''SSLBackend'', VBool (h_SSLBackend h)), (''SSLBackendTLSVerify'', VStr (h_SSLBackendTLSVerify h)),
     (''BalanceAlgorithm'', VStr (h_BalanceAlgorithm h))]"

definition hp_value :: "hp_config \<Rightarrow> tval" where
  "hp_value c = VStruct [(''Hosts'', VList (map hp_host_value (hc_Hosts c))), (''Config'', ext_value (hc_Config c))]"

definition ng_context_value :: "ng_context_root option \<Rightarrow> tval" where
  "ng_context_value r = (case r of None \<Rightarrow> VNil
     | Some cr \<Rightarrow> VStruct [(''Name'', VStr (nr_cr_Name cr)), (''Path'', VStr (nr_cr_Path cr))])"

definition ng_upstream_value :: "ng_upstream \<Rightarrow> tval" where
  "ng_upstream_value u = VStruct [(''Name'', VStr (nu_Name u)),
     (''Servers'', VList (map (\<lambda>s. VStruct [(''Addr'', VStr (srv_Addr s))]) (nu_Servers u)))]"

definition ng_host_value :: "ng_host \<Rightarrow> tval" where
  "ng_host_value h = VStruct [(''ServerNames'', VList (map VStr (n_ServerNames h))), (''Port'', VInt (n_Port h)),
     (''ContextRoot'', ng_context_value (n_ContextRoot h)), (''ContextRootRewrite'', VBool (n_ContextRootRewrite h)),
     (''SSLPort'', VInt (n_SSLPort h)), (''SSL'', VBool (n_SSL h)), (''SSLCert'', VStr (n_SSLCert h)),
     (''SSLCertKey'', VStr (n_SSLCertKey h)), (''SSLOnly'', VBool (n_SSLOnly h)),
     (''SSLBackend'', VBool (n_SSLBackend h)), (''Upstream'', ng_upstream_value (n_Upstream h)),
     (''WebsocketEndpoints'', VList (map VStr (n_WebsocketEndpoints h))), (''IPHash'', VBool (n_IPHash h))]"

definition ng_value :: "ng_config \<Rightarrow> tval" where
  "ng_value c = VStruct [(''Hosts'', VList (map ng_host_value (nc_Hosts c))), (''Config'', ext_value (nc_Config c))]"

definition config_value :: "proxy_config \<Rightarrow> tval" where
  "config_value c = (case c of HAProxyConfig hc \<Rightarrow> hp_value hc | NginxConfig nc \<Rightarrow> ng_value nc)"

section \<open>The engine\<close>

definition go_engine :: template_engine where
  "go_engine = \<lparr>
     te_Parse = (\<lambda>s. case parse_template s of Inl err \<Rightarrow> Some err | Inr t \<Rightarrow> None),
     te_Execute = (\<lambda>s c. try_bind (parse_template s) (\<lambda>t. exec_template t (config_value c)))\<rparr>"

section \<open>Types\<close>

definition ext_ty :: ty where
  "ext_ty = TyStruct [
     (''Name'', TyStr), (''ConfigPath'', TyStr), (''ConfigBasePath'', TyStr), (''PidPath'', TyStr),
     (''TemplatePath'', TyStr), (''BackendOverrideAddress'', TyStr), (''ConnectTimeout'', TyInt),
     (''ServerTimeout'', TyInt), (''ClientTimeout'', TyInt), (''MaxConn'', TyInt), (''Port'', TyInt),
     (''SyslogAddr'', TyStr), (''AdminUser'', TyStr), (''AdminPass'', TyStr), (''SSLCertPath'', TyStr),
     (''SSLCert'', TyStr), (''SSLPort'', TyInt), (''SSLOpts'', TyStr), (''SSLDefaultDHParam'', TyInt),
     (''SSLServerVerify'', TyStr), (''DHParam'', TyBool), (''DHParamPath'', TyStr),
     (''NginxPlusEnabled'', TyBool), (''User'', TyStr), (''WorkerProcesses'', TyInt),
     (''RLimitNoFile'', TyInt), (''ProxyConnectTimeout'', TyInt), (''ProxySendTimeout'', TyInt),
     (''ProxyReadTimeout'', TyInt), (''SendTimeout'', TyInt), (''SSLCiphers'', TyStr),
     (''SSLProtocols'', TyStr), (''StatsInterval'', TyStr), (''StatsBackendType'', TyStr),
     (''StatsPrometheusPushGatewayURL'', TyStr), (''StatsInfluxDBAddress'', TyStr),
     (''StatsInfluxDBUser'', TyStr), (''StatsInfluxDBPassword'', TyStr), (''StatsInfluxDBDatabase'', TyStr),
     (''StatsInfluxDBPrecision'', TyStr)]"

definition context_ty :: ty where
  "context_ty = TyStruct [(''Name'', TyStr), (''Path'', TyStr)]"

definition hp_host_ty :: ty where
  "hp_host_ty = TyStruct [(''Name'', TyStr), (''ContextRoot'', context_ty), (''ContextRootRewrite'', TyBool),
     (''Domain'', TyStr), (''Check'', TyStr), (''BackendOptions'', TyList TyStr),
     (''Upstreams'', TyList (TyStruct [(''Container'', TyStr), (''Addr'', TyStr), (''CheckInterval'', TyInt)])),
     (''SSLOnly'', TyBool), (''SSLBackend'', TyBool), (''SSLBackendTLSVerify'', TyStr), (''BalanceAlgorithm'', TyStr)]"

definition ng_host_ty :: ty where
  "ng_host_ty = TyStruct [(''ServerNames'', TyList TyStr), (''Port'', TyInt), (''ContextRoot'', context_ty),
     (''ContextRootRewrite'', TyBool), (''SSLPort'', TyInt), (''SSL'', TyBool), (''SSLCert'', TyStr),
     (''SSLCertKey'', TyStr), (''SSLOnly'', TyBool), (''SSLBackend'', TyBool),
     (''Upstream'', TyStruct [(''Name'', TyStr), (''Servers'', TyList (TyStruct [(''Addr'', TyStr)]))]),
     (''WebsocketEndpoints'', TyList TyStr), (''IPHash'', TyBool)]"

definition config_ty :: "ty \<Rightarrow> ty" where
  "config_ty host = TyStruct [(''Hosts'', TyList host), (''Config'', ext_ty)]"

lemma haproxy_checked: "check_nodes [] (config_ty hp_host_ty) haproxy_template"
  by code_simp

lemma nginx_checked: "check_nodes [] (config_ty ng_host_ty) nginx_template"
  by code_simp

lemma nginxPlus_checked: "check_nodes [] (config_ty ng_host_ty) nginxPlus_template"
  by code_simp

lemma ext_value_typed: "has_type (ext_value c) ext_ty"
  unfolding ext_value_def ext_ty_def by (rule has_type_fields) simp

lemma hp_host_value_typed:
  assumes "h_ContextRoot h = Some cr"
  shows "has_type (hp_host_value h) hp_host_ty"
proof -
  have "has_type (hp_upstream_value u) (TyStruct [(''Container'', TyStr), (''Addr'', TyStr), (''CheckInterval'', TyInt)])" for u
    unfolding hp_upstream_value_def by (rule has_type_fields) simp
  moreover have "has_type (hp_context_value (h_ContextRoot h)) context_ty"
    unfolding assms hp_context_value_def option.case context_ty_def by (rule has_type_fields) simp
  ultimately show ?thesis
    unfolding hp_host_value_def hp_host_ty_def
    by (intro has_type_fields) (auto simp del: has_type_simps(5))
qed

lemma ng_host_value_typed:
  assumes "n_ContextRoot h = Some cr"
  shows "has_type (ng_host_value h) ng_host_ty"
proof -
  have srv: "has_type (VStruct [(''Addr'', VStr a)]) (TyStruct [(''Addr'', TyStr)])" for a
    by (rule has_type_fields) simp
  have "has_type (ng_upstream_value u) (TyStruct [(''Name'', TyStr), (''Servers'', TyList (TyStruct [(''Addr'', TyStr)]))])" for u
    unfolding ng_upstream_value_def by (rule has_type_fields) (auto simp del: has_type_simps(5) simp: srv)
  moreover have "has_type (ng_context_value (n_ContextRoot h)) context_ty"
    unfolding assms ng_context_value_def option.case context_ty_def by (rule has_type_fields) simp
  ultimately show ?thesis
    unfolding ng_host_value_def ng_host_ty_def
    by (intro has_type_fields) (auto simp del: has_type_simps(5))
qed

lemma config_typed:
  assumes "\<And>h. h \<in> set hosts \<Longrightarrow> has_type h host"
  shows "has_type (VStruct [(''Hosts'', VList hosts), (''Config'', ext_value c)]) (config_ty host)"
  unfolding config_ty_def
  by (rule has_type_fields) (auto simp del: has_type_simps(5) simp: assms ext_value_typed)

section \<open>Every generated configuration is rendered\<close>

definition builtin_env :: "backend_env \<Rightarrow> bool" where
  "builtin_env v \<longleftrightarrow> bv_haproxyConfTemplate v = haproxyConfTemplate
     \<and> bv_nginxConfTemplate v = nginxConfTemplate \<and> bv_nginxPlusConfTemplate v = nginxPlusConfTemplate"

lemma go_engine_parsed:
  assumes "parse_template s = Inr t"
  shows "te_Parse go_engine s = None" and "te_Execute go_engine s c = exec_template t (config_value c)"
  using assms by (simp_all add: go_engine_def)

lemma haproxy_executes:
  assumes "hp_GenerateProxyConfig cfg envs ord cs = Ok conf"
  shows "\<exists>out. exec_template haproxy_template (hp_value conf) = Inr out"
proof (rule exec_template_typed [OF _ haproxy_checked])
  have "has_type (hp_host_value h) hp_host_ty" if "h \<in> set (hc_Hosts conf)" for h
    using hp_context_root_set [OF assms that] hp_host_value_typed by blast
  then show "has_type (hp_value conf) (config_ty hp_host_ty)"
    unfolding hp_value_def by (intro config_typed) auto
qed

lemma nginx_conf_executes:
  assumes "list_all (\<lambda>h. n_ContextRoot h \<noteq> None) (nc_Hosts conf)"
  shows "\<exists>out. exec_template nginx_template (ng_value conf) = Inr out"
    and "\<exists>out. exec_template nginxPlus_template (ng_value conf) = Inr out"
proof -
  have "has_type (ng_host_value h) ng_host_ty" if "h \<in> set (nc_Hosts conf)" for h
    using assms that ng_host_value_typed by (auto simp: list_all_iff)
  then have v: "has_type (ng_value conf) (config_ty ng_host_ty)"
    unfolding ng_value_def by (intro config_typed) auto
  show "\<exists>out. exec_template nginx_template (ng_value conf) = Inr out"
    by (rule exec_template_typed [OF v nginx_checked])
  show "\<exists>out. exec_template nginxPlus_template (ng_value conf) = Inr out"
    by (rule exec_template_typed [OF v nginxPlus_checked])
qed

lemma nginx_executes:
  assumes "ng_GenerateProxyConfig cfg envs ord cs = Ok conf"
  shows "\<exists>out. exec_template nginx_template (ng_value conf) = Inr out"
    and "\<exists>out. exec_template nginxPlus_template (ng_value conf) = Inr out"
proof -
  have "list_all (\<lambda>h. n_ContextRoot h \<noteq> None) (nc_Hosts conf)"
    using ng_context_root_set [OF assms] by (fastforce simp: list_all_iff)
  then show "\<exists>out. exec_template nginx_template (ng_value conf) = Inr out"
    and "\<exists>out. exec_template nginxPlus_template (ng_value conf) = Inr out"
    by (rule nginx_conf_executes)+
qed

lemma haproxy_renders:
  assumes "builtin_env v" and "TemplatePath (hp_cfg p) = []"
  shows "render_config go_engine (hp_backend v p) (HAProxyConfig conf) =
    of_answer (exec_template haproxy_template (hp_value conf))"
  using assms
  by (simp add: render_config_def hp_backend_def hp_Template_def hp_Name_def hp_pluginName_def builtin_env_def
      go_engine_parsed [OF haproxy_parsed] is_nginx_config_def config_value_def)

lemma nginx_renders:
  assumes "builtin_env v" and "TemplatePath (ng_cfg p) = []"
  shows "render_config go_engine (ng_backend v p) (NginxConfig conf) =
    of_answer (exec_template (if NginxPlusEnabled (ng_cfg p) then nginxPlus_template else nginx_template) (ng_value conf))"
  using assms
  by (simp add: render_config_def ng_backend_def ng_Template_def ng_Name_def ng_pluginName_def builtin_env_def
      go_engine_parsed [OF nginx_parsed] go_engine_parsed [OF nginxPlus_parsed] is_nginx_config_def config_value_def)

lemma NewLoadBalancer_template:
  assumes "NewLoadBalancer isNotExist cid v c = Ok l"
  shows "(\<exists>p. lb_backend l = hp_backend v p \<and> TemplatePath (hp_cfg p) = TemplatePath c)
    \<or> (\<exists>p. lb_backend l = ng_backend v p \<and> TemplatePath (ng_cfg p) = TemplatePath c)"
  using assms
  by (auto simp: NewLoadBalancer_def select_backend_def NewHAProxyLoadBalancer_def NewNginxLoadBalancer_def Let_def
      go_res split: if_splits)

text \<open>C7: a load balancer that uses the built-in template of its kind renders every configuration
  that its generator gives, whatever the containers and their labels are, and copies it to every proxy:
  no field is missing, no pointer in it is nil, and saving does not fail.\<close>

theorem generated_config_saved:
  assumes "NewLoadBalancer isNotExist cid v c = Ok l" and "TemplatePath c = []" and "builtin_env v"
    and "be_GenerateProxyConfig (lb_backend l) cs = Ok conf"
  shows "\<exists>data. render_config go_engine (lb_backend l) conf = Ok data
    \<and> SaveConfig go_engine ans l conf proxies =
        (map (\<lambda>p. CopyToContainer (ct_ID p) (path_Dir (be_ConfigPath (lb_backend l)))
           (path_Base (be_ConfigPath (lb_backend l))) data) proxies, Ok ())"
proof -
  have "\<exists>data. render_config go_engine (lb_backend l) conf = Ok data"
    using NewLoadBalancer_template [OF assms(1)]
  proof (elim disjE exE conjE)
    fix p assume p: "lb_backend l = hp_backend v p" "TemplatePath (hp_cfg p) = TemplatePath c"
    with assms(4) obtain hc where hc: "conf = HAProxyConfig hc"
      "hp_GenerateProxyConfig (hp_cfg p) (bv_envs v) (bv_ord v) cs = Ok hc"
      by (auto simp: hp_backend_def go_res)
    with p assms(2) haproxy_renders [OF assms(3), of p hc] haproxy_executes [OF hc(2)] show ?thesis by auto
  next
    fix p assume p: "lb_backend l = ng_backend v p" "TemplatePath (ng_cfg p) = TemplatePath c"
    with assms(4) obtain nc where nc: "conf = NginxConfig nc"
      "ng_GenerateProxyConfig (ng_cfg p) (bv_envs v) (bv_ord v) cs = Ok nc"
      by (auto simp: ng_backend_def go_res)
    with p assms(2) nginx_renders [OF assms(3), of p nc] nginx_executes [OF nc(2)] show ?thesis
      by (cases "NginxPlusEnabled (ng_cfg p)") auto
  qed
  then show ?thesis using SaveConfig_rendered by blast
qed

definition builtin_backend_env :: backend_env where
  "builtin_backend_env = fleet_backend_env\<lparr>bv_haproxyConfTemplate := haproxyConfTemplate,
     bv_nginxConfTemplate := nginxConfTemplate, bv_nginxPlusConfTemplate := nginxPlusConfTemplate\<rparr>"

theorem generated_config_saved_witness:
  "\<exists>l conf data. NewLoadBalancer (\<lambda>_. False) (Ok ''nodeA'') builtin_backend_env (fleet_ext_config ''haproxy'') = Ok l
    \<and> be_GenerateProxyConfig (lb_backend l) fleet = Ok conf \<and> render_config go_engine (lb_backend l) conf = Ok data"
proof -
  have n: "Name (fleet_ext_config ''haproxy'') = ''haproxy''" by (simp add: fleet_ext_config_def)
  then obtain l where l: "NewLoadBalancer (\<lambda>_. False) (Ok ''nodeA'') builtin_backend_env (fleet_ext_config ''haproxy'') = Ok l"
    and "lb_backend l = hp_backend builtin_backend_env \<lparr>hp_cfg = (fleet_ext_config ''haproxy'')
       \<lparr>ConfigBasePath := path_Dir (ConfigPath (fleet_ext_config ''haproxy''))\<rparr>\<rparr>"
    by (simp add: NewLoadBalancer_def ttl_New_def ReloadThreshold_def select_backend_def
        NewHAProxyLoadBalancer_def Let_def)
  moreover have "is_ok (be_GenerateProxyConfig (hp_backend fleet_backend_env \<lparr>hp_cfg = (fleet_ext_config ''haproxy'')
       \<lparr>ConfigBasePath := path_Dir (ConfigPath (fleet_ext_config ''haproxy''))\<rparr>\<rparr>) fleet)"
    by code_simp
  ultimately obtain conf where conf: "be_GenerateProxyConfig (lb_backend l) fleet = Ok conf"
    by (auto simp: hp_backend_def builtin_backend_env_def elim: is_okE)
  have "TemplatePath (fleet_ext_config ''haproxy'') = []" by (simp add: fleet_ext_config_def set_defaults)
  moreover have "builtin_env builtin_backend_env" by (simp add: builtin_env_def builtin_backend_env_def)
  ultimately show ?thesis using l conf generated_config_saved [OF l _ _ conf] by blast
qed

end
