(* ===== verification/Rendered.thy ===== *)
theory Rendered
  imports Templates
begin

text \<open>
  What the rendered files say: every host is routed to a backend section that is in the file, and the
  section lists the servers of the host.
\<close>

section \<open>Parts of an output\<close>

lemma exec_nodes_append:
  "exec_nodes vars dot (ns @ ms) =
    try_bind (exec_nodes vars dot ns) (\<lambda>s. try_bind (exec_nodes vars dot ms) (\<lambda>t. Inr (s @ t)))"
proof (induction ns)
  case Nil
  then show ?case by (cases "exec_nodes vars dot ms") simp_all
next
  case (Cons n ns)
  then show ?case
    by (cases "exec_node vars dot n"; cases "exec_nodes vars dot ns"; cases "exec_nodes vars dot ms") simp_all
qed

lemma exec_nodes_split:
  assumes "exec_nodes vars dot (ns @ ms) = Inr out"
  obtains s t where "exec_nodes vars dot ns = Inr s" "exec_nodes vars dot ms = Inr t" "out = s @ t"
  using assms by (auto simp: exec_nodes_append try_bind_Inr)

text \<open>The output of \<open>k\<close> nodes from the \<open>i\<close>-th on is in the output.\<close>

lemma exec_part:
  assumes "exec_nodes vars dot ns = Inr out" and "exec_nodes vars dot (take k (drop i ns)) = Inr s"
  shows "sublist s out"
proof -
  from assms(1) have "exec_nodes vars dot (take i ns @ (take k (drop i ns) @ drop k (drop i ns))) = Inr out"
    by (simp only: append_take_drop_id)
  then obtain a b where ab: "exec_nodes vars dot (take k (drop i ns) @ drop k (drop i ns)) = Inr b" "out = a @ b"
    by (rule exec_nodes_split)
  from ab(1) obtain s' t where "exec_nodes vars dot (take k (drop i ns)) = Inr s'" "b = s' @ t"
    by (rule exec_nodes_split)
  with ab(2) assms(2) show ?thesis by (auto simp: sublist_def)
qed

lemma exec_node_part:
  assumes "exec_nodes vars dot ns = Inr out" and "n \<in> set ns"
  shows "\<exists>s. exec_node vars dot n = Inr s \<and> sublist s out"
proof -
  obtain ms ks where "ns = ms @ n # ks" using assms(2) by (auto simp: in_set_conv_decomp)
  with assms(1) obtain a b where "exec_nodes vars dot (n # ks) = Inr b" "out = a @ b"
    by (metis exec_nodes_split)
  then show ?thesis by (auto simp: try_bind_Inr sublist_def)
qed

lemma exec_range_part:
  assumes "exec_range xs vars i vs ns = Inr out" and "v \<in> set vs"
  shows "\<exists>j s. exec_nodes (bind_vars xs j v vars) v ns = Inr s \<and> sublist s out"
  using assms
proof (induction vs arbitrary: i out)
  case Nil
  then show ?case by simp
next
  case (Cons w vs)
  then obtain s t where st: "exec_nodes (bind_vars xs i w vars) w ns = Inr s" "exec_range xs vars (Suc i) vs ns = Inr t"
    "out = s @ t" by (auto simp: try_bind_Inr)
  show ?case
  proof (cases "v = w")
    case True
    then have "exec_nodes (bind_vars xs i v vars) v ns = Inr s \<and> sublist s out" using st by (simp add: sublist_append_rightI)
    then show ?thesis by blast
  next
    case False
    with Cons.prems(2) have "v \<in> set vs" by simp
    from Cons.IH [OF st(2) this] obtain j u where "exec_nodes (bind_vars xs j v vars) v ns = Inr u" "sublist u t" by blast
    then show ?thesis using st(3) by (meson sublist_append_leftI sublist_order.order_trans)
  qed
qed

lemma exec_branch:
  assumes "exec_nodes vars dot ns = Inr out" and "If p ms ks \<in> set ns" and "eval_pipe vars dot p = Inr (VBool c)"
  shows "\<exists>s. exec_nodes vars dot (if c then ms else ks) = Inr s \<and> sublist s out"
  using exec_node_part [OF assms(1,2)] assms(3) by (cases c) (simp_all add: is_true_def)

text \<open>The two loops over the hosts.\<close>

definition host_loops :: "node list \<Rightarrow> node list \<Rightarrow> node list \<Rightarrow> bool" where
  "host_loops t front back \<longleftrightarrow> (\<exists>hd md tl. t = hd @ [Range [''$host''] (PField [''Hosts'']) front] @ md
     @ [Range [''$host''] (PField [''Hosts'']) back] @ tl)"

lemma host_loops_part:
  assumes "exec_template t (VStruct ((''Hosts'', VList hs) # fs)) = Inr out" and "host_loops t front back" and "h \<in> set hs"
  shows "\<exists>s. exec_nodes [(''$host'', h)] h front = Inr s \<and> sublist s out"
    and "\<exists>s. exec_nodes [(''$host'', h)] h back = Inr s \<and> sublist s out"
proof -
  let ?dot = "VStruct ((''Hosts'', VList hs) # fs)"
  have loop: "\<exists>s. exec_nodes [(''$host'', h)] h ns = Inr s \<and> sublist s out"
    if range: "Range [''$host''] (PField [''Hosts'']) ns \<in> set t" for ns
  proof -
    obtain r where r: "exec_node [] ?dot (Range [''$host''] (PField [''Hosts'']) ns) = Inr r" "sublist r out"
      using exec_node_part [OF assms(1) [unfolded exec_template_def] range] by blast
    then have "exec_range [''$host''] [] 0 hs ns = Inr r" by (simp add: field_of_def)
    from exec_range_part [OF this assms(3)] r(2) show ?thesis
      by (auto simp: bind_vars_def intro: sublist_order.order_trans)
  qed
  from assms(2) show "\<exists>s. exec_nodes [(''$host'', h)] h front = Inr s \<and> sublist s out"
    and "\<exists>s. exec_nodes [(''$host'', h)] h back = Inr s \<and> sublist s out"
    by (auto simp: host_loops_def intro!: loop)
qed

primrec then_branch :: "node \<Rightarrow> node list" where
  "then_branch (Text s) = []"
| "then_branch (Action p) = []"
| "then_branch (If p ns ms) = ns"
| "then_branch (Range xs p ns) = []"

primrec else_branch :: "node \<Rightarrow> node list" where
  "else_branch (Text s) = []"
| "else_branch (Action p) = []"
| "else_branch (If p ns ms) = ms"
| "else_branch (Range xs p ns) = []"

abbreviation has_context_root :: pipe where
  "has_context_root \<equiv> PNe (PVar ''$host'' [''ContextRoot'', ''Path'']) (PStr [])"

section \<open>HAProxy\<close>

definition hp_backend_name :: "hp_host \<Rightarrow> hp_context_root \<Rightarrow> string" where
  "hp_backend_name h cr = (if cr_Path cr \<noteq> [] then ''ctx'' @ cr_Name cr else h_Name h)"

definition hp_acl_name :: "hp_host \<Rightarrow> hp_context_root \<Rightarrow> string" where
  "hp_acl_name h cr = (if cr_Path cr \<noteq> [] then ''url'' @ cr_Name cr else ''is_'' @ h_Name h)"

text \<open>The condition of a host and the rule that uses it.\<close>

definition hp_route_rule :: "hp_host \<Rightarrow> hp_context_root \<Rightarrow> string" where
  "hp_route_rule h cr = ''acl '' @ hp_acl_name h cr
     @ (if cr_Path cr \<noteq> [] then '' path_beg '' @ cr_Path cr else '' hdr_beg(host) '' @ h_Domain h) @ eol
     @ ''    use_backend '' @ hp_backend_name h cr @ '' if '' @ hp_acl_name h cr"

definition hp_server_line :: "hp_host \<Rightarrow> hp_upstream \<Rightarrow> string" where
  "hp_server_line h u = ''server '' @ up_Container u @ '' '' @ up_Addr u @ '' check inter '' @ int_dec (up_CheckInterval u)
     @ (if h_SSLBackend h then '' ssl verify '' @ h_SSLBackendTLSVerify h @ '' sni req.hdr(Host)'' else []) @ eol"

lemma haproxy_loops: "host_loops haproxy_template haproxy_front haproxy_back"
  unfolding host_loops_def haproxy_template_def by blast

lemma hp_context_cond:
  "h_ContextRoot h = Some cr \<Longrightarrow> eval_pipe [(''$host'', hp_host_value h)] dot has_context_root = Inr (VBool (cr_Path cr \<noteq> []))"
  by (simp add: hp_host_value_def hp_context_value_def field_of_def)

lemma haproxy_front_if:
  "If has_context_root (then_branch (hd haproxy_front)) (else_branch (hd haproxy_front)) \<in> set haproxy_front"
  by (simp add: haproxy_front_def)

lemma haproxy_front_routes:
  assumes "h_ContextRoot h = Some cr"
    and "exec_nodes [(''$host'', hp_host_value h)] (hp_host_value h) haproxy_front = Inr out"
  shows "sublist (hp_route_rule h cr) out"
proof -
  let ?e = "exec_nodes [(''$host'', hp_host_value h)] (hp_host_value h)"
  let ?b = "if cr_Path cr \<noteq> [] then then_branch (hd haproxy_front) else else_branch (hd haproxy_front)"
  let ?i = "if cr_Path cr \<noteq> [] then 0 else 1"
  obtain s where s: "?e ?b = Inr s" "sublist s out"
    using exec_branch [OF assms(2) haproxy_front_if hp_context_cond [OF assms(1)]] by blast
  have "?e (take 9 (drop ?i ?b)) = Inr ((if cr_Path cr \<noteq> [] then [] else ''    '') @ hp_route_rule h cr)"
    using assms(1)
    by (simp add: haproxy_front_def hp_host_value_def hp_context_value_def field_of_def print_value_def
        hp_backend_name_def hp_acl_name_def hp_route_rule_def)
  from exec_part [OF s(1) this] s(2) have "sublist ((if cr_Path cr \<noteq> [] then [] else ''    '') @ hp_route_rule h cr) out"
    by (rule sublist_order.order_trans)
  with sublist_append_leftI show ?thesis by (rule sublist_order.order_trans)
qed

lemma haproxy_back_if:
  "If has_context_root (then_branch (hd haproxy_back)) (else_branch (hd haproxy_back)) \<in> set haproxy_back"
  by (simp add: haproxy_back_def)

text \<open>The head of a backend section, and its body.\<close>

lemma haproxy_back_head:
  assumes "h_ContextRoot h = Some cr"
    and "exec_nodes [(''$host'', hp_host_value h)] (hp_host_value h) haproxy_back = Inr out"
  shows "\<exists>pre x body. out = pre @ ''backend '' @ hp_backend_name h cr @ eol @ x @ body
    \<and> exec_nodes [(''$host'', hp_host_value h)] (hp_host_value h) (drop 2 haproxy_back) = Inr body"
proof -
  let ?e = "exec_nodes [(''$host'', hp_host_value h)] (hp_host_value h)"
  have "?e (take 2 haproxy_back @ drop 2 haproxy_back) = Inr out" using assms(2) by (simp only: append_take_drop_id)
  then obtain a body where a: "?e (take 2 haproxy_back) = Inr a" and b: "?e (drop 2 haproxy_back) = Inr body" "out = a @ body"
    by (rule exec_nodes_split)
  have "\<exists>pre x. a = pre @ ''backend '' @ hp_backend_name h cr @ eol @ x"
  proof (cases "cr_Path cr = []")
    case True
    have "?e (take 2 haproxy_back) = Inr ((eol @ ''    '') @ ''backend '' @ hp_backend_name h cr @ eol @ [])"
      using True assms(1)
      by (simp add: haproxy_back_def hp_host_value_def hp_context_value_def field_of_def print_value_def is_true_def
          hp_backend_name_def)
    from this [unfolded a sum.inject] show ?thesis by (intro exI)
  next
    case False
    define rewrite where "rewrite = (if h_ContextRootRewrite h
      then ''reqrep ^([^'' @ backslash @ '' :]*)'' @ backslash @ '' '' @ cr_Path cr @ ''/(.*)     '' @ backslash @ ''1''
        @ backslash @ '' /'' @ backslash @ ''2'' else [])"
    have "?e (take 2 haproxy_back) = Inr ([] @ ''backend '' @ hp_backend_name h cr @ eol
        @ (''    acl missing_slash path_reg ^'' @ cr_Path cr @ ''[^/]*$'' @ eol
           @ ''    redirect code 301 prefix / drop-query append-slash if missing_slash'' @ eol @ ''    '' @ rewrite @ eol))"
      using False assms(1)
      by (simp add: haproxy_back_def hp_host_value_def hp_context_value_def field_of_def print_value_def is_true_def
          hp_backend_name_def rewrite_def)
    from this [unfolded a sum.inject] show ?thesis by (intro exI)
  qed
  with b show ?thesis by auto
qed

primrec range_body :: "node \<Rightarrow> node list" where
  "range_body (Text s) = []"
| "range_body (Action p) = []"
| "range_body (If p ns ms) = []"
| "range_body (Range xs p ns) = ns"

lemma haproxy_server_loop:
  "Range [''$i'', ''$up''] (PVar ''$host'' [''Upstreams'']) (range_body (haproxy_back ! 21)) \<in> set (drop 2 haproxy_back)"
  by (simp add: haproxy_back_def)

lemma haproxy_server_line:
  assumes "exec_nodes (bind_vars [''$i'', ''$up''] j (hp_upstream_value u) [(''$host'', hp_host_value h)])
    (hp_upstream_value u) (range_body (haproxy_back ! 21)) = Inr l"
  shows "l = hp_server_line h u @ ''    ''"
  using assms
  by (auto simp: haproxy_back_def bind_vars_def hp_upstream_value_def hp_host_value_def field_of_def print_value_def
      is_true_def hp_server_line_def split: if_splits)

lemma haproxy_body_servers:
  assumes "exec_nodes [(''$host'', hp_host_value h)] (hp_host_value h) (drop 2 haproxy_back) = Inr body"
    and "u \<in> set (h_Upstreams h)"
  shows "sublist (hp_server_line h u) body"
proof -
  let ?vars = "[(''$host'', hp_host_value h)]" and ?ns = "range_body (haproxy_back ! 21)"
  obtain s where s: "exec_node ?vars (hp_host_value h) (Range [''$i'', ''$up''] (PVar ''$host'' [''Upstreams'']) ?ns) = Inr s"
    "sublist s body"
    using exec_node_part [OF assms(1) haproxy_server_loop] by blast
  then have r: "exec_range [''$i'', ''$up''] ?vars 0 (map hp_upstream_value (h_Upstreams h)) ?ns = Inr s"
    by (simp add: hp_host_value_def field_of_def)
  have "hp_upstream_value u \<in> set (map hp_upstream_value (h_Upstreams h))" using assms(2) by simp
  from exec_range_part [OF r this] obtain j l where
    l: "exec_nodes (bind_vars [''$i'', ''$up''] j (hp_upstream_value u) ?vars) (hp_upstream_value u) ?ns = Inr l" "sublist l s"
    by blast
  have "sublist (hp_server_line h u) l" unfolding haproxy_server_line [OF l(1)] by (rule sublist_append_rightI)
  with l(2) s(2) show ?thesis using sublist_order.order_trans by blast
qed

lemma haproxy_body_redirect:
  assumes "exec_nodes [(''$host'', hp_host_value h)] (hp_host_value h) (drop 2 haproxy_back) = Inr body" and "h_SSLOnly h"
  shows "sublist ''redirect scheme https code 301 if !{ ssl_fc }'' body"
proof (rule exec_part [OF assms(1), of 1 13])
  show "exec_nodes [(''$host'', hp_host_value h)] (hp_host_value h) (take 1 (drop 13 (drop 2 haproxy_back)))
    = Inr ''redirect scheme https code 301 if !{ ssl_fc }''"
    using assms(2) by (simp add: haproxy_back_def hp_host_value_def field_of_def is_true_def)
qed

text \<open>
  In the file that the built-in HAProxy template gives, every host has a condition on its domain or path
  and a rule that sends the requests it holds for to a backend. The section of that backend is in the
  file, with one server line for every upstream of the host, and with the redirect to HTTPS when the
  host is restricted to it.
\<close>

lemma haproxy_host_rendered:
  assumes "builtin_env v" and "TemplatePath (hp_cfg p) = []"
    and "hp_GenerateProxyConfig (hp_cfg p) (bv_envs v) (bv_ord v) cs = Ok conf"
    and "render_config go_engine (hp_backend v p) (HAProxyConfig conf) = Ok out"
    and "h \<in> set (hc_Hosts conf)"
  shows "\<exists>cr sec. h_ContextRoot h = Some cr
    \<and> sublist (hp_route_rule h cr) out
    \<and> sublist (''backend '' @ hp_backend_name h cr @ eol @ sec) out
    \<and> (\<forall>u \<in> set (h_Upstreams h). sublist (hp_server_line h u) sec)
    \<and> (h_SSLOnly h \<longrightarrow> sublist ''redirect scheme https code 301 if !{ ssl_fc }'' sec)"
proof -
  obtain cr where cr: "h_ContextRoot h = Some cr" using hp_context_root_set [OF assms(3,5)] by blast
  have x: "exec_template haproxy_template (VStruct ((''Hosts'', VList (map hp_host_value (hc_Hosts conf)))
      # [(''Config'', ext_value (hc_Config conf))])) = Inr out"
    using assms(4) haproxy_renders [OF assms(1,2), of conf]
    by (cases "exec_template haproxy_template (hp_value conf)") (simp_all add: hp_value_def)
  have h: "hp_host_value h \<in> set (map hp_host_value (hc_Hosts conf))" using assms(5) by simp
  obtain f where f: "exec_nodes [(''$host'', hp_host_value h)] (hp_host_value h) haproxy_front = Inr f" "sublist f out"
    using host_loops_part(1) [OF x haproxy_loops h] by blast
  obtain b where b: "exec_nodes [(''$host'', hp_host_value h)] (hp_host_value h) haproxy_back = Inr b" "sublist b out"
    using host_loops_part(2) [OF x haproxy_loops h] by blast
  obtain pre y body where body: "b = pre @ ''backend '' @ hp_backend_name h cr @ eol @ y @ body"
    "exec_nodes [(''$host'', hp_host_value h)] (hp_host_value h) (drop 2 haproxy_back) = Inr body"
    using haproxy_back_head [OF cr b(1)] by blast
  show ?thesis
  proof (intro exI conjI)
    show "h_ContextRoot h = Some cr" by (rule cr)
    show "sublist (hp_route_rule h cr) out"
      using haproxy_front_routes [OF cr f(1)] f(2) by (rule sublist_order.order_trans)
    have "sublist (''backend '' @ hp_backend_name h cr @ eol @ y @ body) b"
      unfolding body(1) by (rule sublist_append_leftI)
    then show "sublist (''backend '' @ hp_backend_name h cr @ eol @ y @ body) out"
      using b(2) by (rule sublist_order.order_trans)
    show "\<forall>u \<in> set (h_Upstreams h). sublist (hp_server_line h u) (y @ body)"
      using haproxy_body_servers [OF body(2)] by (blast intro: sublist_appendI sublist_order.order_trans sublist_append_leftI)
    show "h_SSLOnly h \<longrightarrow> sublist ''redirect scheme https code 301 if !{ ssl_fc }'' (y @ body)"
      using haproxy_body_redirect [OF body(2)] sublist_append_leftI [of body y] sublist_order.order_trans by blast
  qed
qed

section \<open>Nginx\<close>

definition ng_upstream_name :: "ng_host \<Rightarrow> ng_context_root \<Rightarrow> string" where
  "ng_upstream_name h cr = (if nr_cr_Path cr \<noteq> [] then ''ctx'' @ nr_cr_Name cr else nu_Name (n_Upstream h))"

definition ng_pass :: "ng_host \<Rightarrow> string" where
  "ng_pass h = ''proxy_pass '' @ (if n_SSLBackend h then ''https://'' else ''http://'') @ nu_Name (n_Upstream h) @ '';''"

definition ng_server_line :: "ng_server \<Rightarrow> string" where
  "ng_server_line s = ''server '' @ srv_Addr s @ '';''"

definition nginx_bodies :: "(node list \<times> node list \<times> node list) list" where
  "nginx_bodies = [(nginx_template, nginx_front, nginx_back), (nginxPlus_template, nginxPlus_front, nginxPlus_back)]"

lemma nginx_loops: "(tm, front, back) \<in> set nginx_bodies \<Longrightarrow> host_loops tm front back"
  unfolding host_loops_def nginx_bodies_def nginx_template_def nginxPlus_template_def by auto

lemma nginx_bodies_choice:
  "\<exists>tm front rear. (tm, front, rear) \<in> set nginx_bodies \<and> (if enabled then nginxPlus_template else nginx_template) = tm"
  by (cases enabled) (auto simp: nginx_bodies_def)

lemma ng_context_cond:
  "n_ContextRoot h = Some cr \<Longrightarrow> eval_pipe [(''$host'', ng_host_value h)] dot has_context_root = Inr (VBool (nr_cr_Path cr \<noteq> []))"
  by (simp add: ng_host_value_def ng_context_value_def field_of_def)

text \<open>The branches for a host under a context root, and for any other host.\<close>

definition ctx_location :: "node list" where
  "ctx_location = then_branch (nginx_front ! 2)"

definition ctx_upstream :: "node list" where
  "ctx_upstream = then_branch (nginx_back ! 2)"

lemma nginx_branches:
  assumes "(tm, front, back) \<in> set nginx_bodies"
  shows "If has_context_root ctx_location [] \<in> set front"
    and "If has_context_root ctx_upstream (else_branch (back ! 2)) \<in> set back"
  using assms
  by (auto simp: nginx_bodies_def ctx_location_def ctx_upstream_def nginx_front_def nginxPlus_front_def nginx_back_def
      nginxPlus_back_def)

abbreviation ng_exec :: "ng_host \<Rightarrow> node list \<Rightarrow> string answer" where
  "ng_exec h \<equiv> exec_nodes [(''$host'', ng_host_value h)] (ng_host_value h)"

definition server_loop :: node where
  "server_loop = Range [''$up''] (PVar ''$host'' [''Upstream'', ''Servers''])
     [Text ''server '', Action (PVar ''$up'' [''Addr'']), Text ('';'' @ eol), Text ''        '']"

lemma server_loop_lines:
  assumes "ng_exec h ns = Inr out" and "server_loop \<in> set ns" and "s \<in> set (nu_Servers (n_Upstream h))"
  shows "sublist (ng_server_line s) out"
proof -
  let ?sv = "\<lambda>s. VStruct [(''Addr'', VStr (srv_Addr s))]"
  let ?ns = "[Text ''server '', Action (PVar ''$up'' [''Addr'']), Text ('';'' @ eol), Text ''        '']"
  obtain r where r: "exec_node [(''$host'', ng_host_value h)] (ng_host_value h) server_loop = Inr r" "sublist r out"
    using exec_node_part [OF assms(1,2)] by blast
  then have x: "exec_range [''$up''] [(''$host'', ng_host_value h)] 0 (map ?sv (nu_Servers (n_Upstream h))) ?ns = Inr r"
    by (simp add: server_loop_def ng_host_value_def ng_upstream_value_def field_of_def)
  have "?sv s \<in> set (map ?sv (nu_Servers (n_Upstream h)))" using assms(3) by simp
  from exec_range_part [OF x this] obtain j l where
    l: "exec_nodes (bind_vars [''$up''] j (?sv s) [(''$host'', ng_host_value h)]) (?sv s) ?ns = Inr l" "sublist l r"
    by blast
  have "l = ng_server_line s @ (eol @ ''        '')"
    using l(1) by (simp add: bind_vars_def field_of_def print_value_def ng_server_line_def)
  then have "sublist (ng_server_line s) l" by (simp only: sublist_append_rightI)
  with l(2) r(2) show ?thesis using sublist_order.order_trans by blast
qed

lemmas ng_values = ng_host_value_def ng_context_value_def ng_upstream_value_def field_of_def print_value_def

lemma nginx_upstream_head:
  assumes "(tm, front, back) \<in> set nginx_bodies" and "n_ContextRoot h = Some cr"
    and "ns = (if nr_cr_Path cr \<noteq> [] then ctx_upstream else else_branch (back ! 2))"
  shows "ng_exec h (take 4 ns) = Inr (eol @ ''    upstream '' @ ng_upstream_name h cr @ '' {'' @ eol)"
    and "server_loop \<in> set (drop 4 ns)"
proof -
  have "take 4 ns = [Text eol, Text (if nr_cr_Path cr \<noteq> [] then ''    upstream ctx'' else ''    upstream ''),
      Action (if nr_cr_Path cr \<noteq> [] then PVar ''$host'' [''ContextRoot'', ''Name''] else PVar ''$host'' [''Upstream'', ''Name'']),
      Text ('' {'' @ eol)]"
    using assms(1,3)
    by (auto simp: nginx_bodies_def ctx_upstream_def nginx_back_def nginxPlus_back_def)
  then show "ng_exec h (take 4 ns) = Inr (eol @ ''    upstream '' @ ng_upstream_name h cr @ '' {'' @ eol)"
    using assms(2) by (simp add: ng_values ng_upstream_name_def)
  show "server_loop \<in> set (drop 4 ns)"
    using assms(1,3)
    by (auto simp: nginx_bodies_def ctx_upstream_def nginx_back_def nginxPlus_back_def server_loop_def)
qed

lemma nginx_upstream_section:
  assumes "(tm, front, back) \<in> set nginx_bodies" and "n_ContextRoot h = Some cr" and "ng_exec h back = Inr out"
  shows "\<exists>sec. sublist (''    upstream '' @ ng_upstream_name h cr @ '' {'' @ eol @ sec) out
    \<and> (\<forall>s \<in> set (nu_Servers (n_Upstream h)). sublist (ng_server_line s) sec)"
proof -
  define ns where "ns = (if nr_cr_Path cr \<noteq> [] then ctx_upstream else else_branch (back ! 2))"
  obtain s where s: "ng_exec h ns = Inr s" "sublist s out"
    unfolding ns_def using exec_branch [OF assms(3) nginx_branches(2) [OF assms(1)] ng_context_cond [OF assms(2)]] by blast
  from s(1) have "ng_exec h (take 4 ns @ drop 4 ns) = Inr s" by (simp only: append_take_drop_id)
  then obtain a sec where sec: "ng_exec h (take 4 ns) = Inr a" "ng_exec h (drop 4 ns) = Inr sec" "s = a @ sec"
    by (rule exec_nodes_split)
  have "a = eol @ ''    upstream '' @ ng_upstream_name h cr @ '' {'' @ eol"
    using sec(1) unfolding nginx_upstream_head(1) [OF assms(1,2) ns_def] by (simp only: sum.inject)
  then have "s = eol @ (''    upstream '' @ ng_upstream_name h cr @ '' {'' @ eol @ sec)"
    using sec(3) by (simp only: append_assoc)
  then have "sublist (''    upstream '' @ ng_upstream_name h cr @ '' {'' @ eol @ sec) s"
    by (simp only: sublist_append_leftI)
  then have "sublist (''    upstream '' @ ng_upstream_name h cr @ '' {'' @ eol @ sec) out"
    using s(2) by (rule sublist_order.order_trans)
  moreover have "\<forall>s \<in> set (nu_Servers (n_Upstream h)). sublist (ng_server_line s) sec"
    using server_loop_lines [OF sec(2) nginx_upstream_head(2) [OF assms(1,2) ns_def]] by blast
  ultimately show ?thesis by blast
qed

lemma nginx_context_pass:
  assumes "(tm, front, back) \<in> set nginx_bodies" and "n_ContextRoot h = Some cr" and "nr_cr_Path cr \<noteq> []"
    and "ng_exec h front = Inr out"
  shows "sublist (''    location '' @ nr_cr_Path cr @ '' {'' @ eol) out"
    and "sublist (''proxy_pass http://'' @ ng_upstream_name h cr @ '';'') out"
proof -
  obtain s where s: "ng_exec h ctx_location = Inr s" "sublist s out"
    using exec_branch [OF assms(4) nginx_branches(1) [OF assms(1)] ng_context_cond [OF assms(2)]] assms(3) by auto
  have "ng_exec h (take 3 (drop 1 ctx_location)) = Inr (tab @ ''    location '' @ nr_cr_Path cr @ '' {'' @ eol)"
    using assms(2) by (simp add: ctx_location_def nginx_front_def ng_values)
  from exec_part [OF s(1) this] s(2) have "sublist (tab @ ''    location '' @ nr_cr_Path cr @ '' {'' @ eol) out"
    by (rule sublist_order.order_trans)
  with sublist_append_leftI show "sublist (''    location '' @ nr_cr_Path cr @ '' {'' @ eol) out"
    by (rule sublist_order.order_trans)
  have "ng_exec h (take 3 (drop 7 ctx_location)) = Inr ((tab @ tab) @ (''proxy_pass http://'' @ ng_upstream_name h cr @ '';'') @ eol)"
    using assms(2,3) by (simp add: ctx_location_def nginx_front_def ng_values ng_upstream_name_def)
  from exec_part [OF s(1) this] s(2)
  have "sublist ((tab @ tab) @ (''proxy_pass http://'' @ ng_upstream_name h cr @ '';'') @ eol) out"
    by (rule sublist_order.order_trans)
  with sublist_appendI show "sublist (''proxy_pass http://'' @ ng_upstream_name h cr @ '';'') out"
    by (rule sublist_order.order_trans)
qed

text \<open>The server block of a host that has no context root.\<close>

definition pass_branch :: node where
  "pass_branch = If (PVar ''$host'' [''SSLBackend''])
     [Text ''proxy_pass https://'', Action (PVar ''$host'' [''Upstream'', ''Name'']), Text '';'']
     [Text ''proxy_pass http://'', Action (PVar ''$host'' [''Upstream'', ''Name'']), Text '';'']"

lemma pass_branch_exec:
  "exec_node [(''$host'', ng_host_value h)] dot pass_branch = Inr (ng_pass h)"
  by (simp add: pass_branch_def ng_values is_true_def ng_pass_def)

lemma nginx_server_shape:
  assumes "(tm, front, back) \<in> set nginx_bodies"
  shows "\<exists>plain. If (PVar ''$host'' [''SSLOnly'']) [Text ''return 302 https://$server_name$request_uri;''] plain
      \<in> set (else_branch (back ! 2)) \<and> pass_branch \<in> set plain"
    and "take 3 (drop 17 (else_branch (back ! 2))) = [Text ''        server_name'',
      Range [''$name''] (PVar ''$host'' [''ServerNames'']) [Text '' '', Action (PVar ''$name'' [])], Text ('';'' @ eol)]"
  using assms
  by (auto simp: nginx_bodies_def nginx_back_def nginxPlus_back_def pass_branch_def)

lemma exec_names:
  "exec_range [''$name''] vars i (map VStr names) [Text '' '', Action (PVar ''$name'' [])] = Inr (concat (map (\<lambda>n. '' '' @ n) names))"
  by (induction names arbitrary: i) (simp_all add: bind_vars_def print_value_def)

lemma nginx_host_server:
  assumes "(tm, front, back) \<in> set nginx_bodies" and "n_ContextRoot h = Some cr" and "nr_cr_Path cr = []"
    and "ng_exec h back = Inr out"
  shows "sublist (''        server_name'' @ concat (map (\<lambda>n. '' '' @ n) (n_ServerNames h)) @ '';'' @ eol) out"
    and "sublist (if n_SSLOnly h then ''return 302 https://$server_name$request_uri;'' else ng_pass h) out"
proof -
  obtain s where s: "ng_exec h (else_branch (back ! 2)) = Inr s" "sublist s out"
    using exec_branch [OF assms(4) nginx_branches(2) [OF assms(1)] ng_context_cond [OF assms(2)]] assms(3) by auto
  have "ng_exec h (take 3 (drop 17 (else_branch (back ! 2)))) =
      Inr (''        server_name'' @ concat (map (\<lambda>n. '' '' @ n) (n_ServerNames h)) @ '';'' @ eol)"
    unfolding nginx_server_shape(2) [OF assms(1)] using exec_names by (simp add: ng_values)
  from exec_part [OF s(1) this] s(2)
  show "sublist (''        server_name'' @ concat (map (\<lambda>n. '' '' @ n) (n_ServerNames h)) @ '';'' @ eol) out"
    by (rule sublist_order.order_trans)
  obtain plain where plain: "If (PVar ''$host'' [''SSLOnly'']) [Text ''return 302 https://$server_name$request_uri;''] plain
      \<in> set (else_branch (back ! 2))" "pass_branch \<in> set plain"
    using nginx_server_shape(1) [OF assms(1)] by blast
  have "eval_pipe [(''$host'', ng_host_value h)] (ng_host_value h) (PVar ''$host'' [''SSLOnly'']) = Inr (VBool (n_SSLOnly h))"
    by (simp add: ng_values)
  from exec_branch [OF s(1) plain(1) this] obtain u where
    u: "ng_exec h (if n_SSLOnly h then [Text ''return 302 https://$server_name$request_uri;''] else plain) = Inr u" "sublist u s"
    by blast
  have "sublist (if n_SSLOnly h then ''return 302 https://$server_name$request_uri;'' else ng_pass h) u"
  proof (cases "n_SSLOnly h")
    case True
    with u(1) show ?thesis by simp
  next
    case False
    with u(1) have "ng_exec h plain = Inr u" by simp
    from exec_node_part [OF this plain(2)] False show ?thesis by (simp add: pass_branch_exec)
  qed
  with u(2) s(2) show "sublist (if n_SSLOnly h then ''return 302 https://$server_name$request_uri;'' else ng_pass h) out"
    using sublist_order.order_trans by blast
qed

text \<open>
  In the file that the built-in template for Nginx or for Nginx Plus gives, every host has its upstream
  section with one server line per server. A host under a context root has a location that passes
  requests on to that section; any other host has a server block with its server names, which redirects
  to HTTPS when the host is restricted to it and else passes requests on to the section.
\<close>

lemma nginx_host_rendered:
  assumes "builtin_env v" and "TemplatePath (ng_cfg p) = []"
    and "ng_GenerateProxyConfig (ng_cfg p) (bv_envs v) (bv_ord v) cs = Ok conf"
    and "render_config go_engine (ng_backend v p) (NginxConfig conf) = Ok out"
    and "h \<in> set (nc_Hosts conf)"
  shows "\<exists>cr sec. n_ContextRoot h = Some cr
    \<and> sublist (''    upstream '' @ ng_upstream_name h cr @ '' {'' @ eol @ sec) out
    \<and> (\<forall>s \<in> set (nu_Servers (n_Upstream h)). sublist (ng_server_line s) sec)
    \<and> (if nr_cr_Path cr \<noteq> []
       then sublist (''    location '' @ nr_cr_Path cr @ '' {'' @ eol) out
         \<and> sublist (''proxy_pass http://'' @ ng_upstream_name h cr @ '';'') out
       else sublist (''        server_name'' @ concat (map (\<lambda>n. '' '' @ n) (n_ServerNames h)) @ '';'' @ eol) out
         \<and> sublist (if n_SSLOnly h then ''return 302 https://$server_name$request_uri;'' else ng_pass h) out)"
proof -
  obtain cr where cr: "n_ContextRoot h = Some cr" using ng_context_root_set [OF assms(3,5)] by blast
  obtain tm front rear where tm: "(tm, front, rear) \<in> set nginx_bodies"
    "(if NginxPlusEnabled (ng_cfg p) then nginxPlus_template else nginx_template) = tm"
    using nginx_bodies_choice by blast
  have x: "exec_template tm (VStruct ((''Hosts'', VList (map ng_host_value (nc_Hosts conf)))
      # [(''Config'', ext_value (nc_Config conf))])) = Inr out"
    using assms(4) nginx_renders [OF assms(1,2), of conf] unfolding tm(2)
    by (cases "exec_template tm (ng_value conf)") (simp_all add: ng_value_def)
  have h: "ng_host_value h \<in> set (map ng_host_value (nc_Hosts conf))" using assms(5) by simp
  obtain f where f: "ng_exec h front = Inr f" "sublist f out"
    using host_loops_part(1) [OF x nginx_loops [OF tm(1)] h] by blast
  obtain b where b: "ng_exec h rear = Inr b" "sublist b out"
    using host_loops_part(2) [OF x nginx_loops [OF tm(1)] h] by blast
  obtain sec where sec: "sublist (''    upstream '' @ ng_upstream_name h cr @ '' {'' @ eol @ sec) b"
    "\<forall>s \<in> set (nu_Servers (n_Upstream h)). sublist (ng_server_line s) sec"
    using nginx_upstream_section [OF tm(1) cr b(1)] by blast
  note trans = sublist_order.order_trans
  show ?thesis
  proof (intro exI conjI)
    show "n_ContextRoot h = Some cr" by (rule cr)
    show "sublist (''    upstream '' @ ng_upstream_name h cr @ '' {'' @ eol @ sec) out" using sec(1) b(2) by (rule trans)
    show "\<forall>s \<in> set (nu_Servers (n_Upstream h)). sublist (ng_server_line s) sec" by (rule sec(2))
    show "if nr_cr_Path cr \<noteq> []
       then sublist (''    location '' @ nr_cr_Path cr @ '' {'' @ eol) out
         \<and> sublist (''proxy_pass http://'' @ ng_upstream_name h cr @ '';'') out
       else sublist (''        server_name'' @ concat (map (\<lambda>n. '' '' @ n) (n_ServerNames h)) @ '';'' @ eol) out
         \<and> sublist (if n_SSLOnly h then ''return 302 https://$server_name$request_uri;'' else ng_pass h) out"
    proof (cases "nr_cr_Path cr = []")
      case True
      with nginx_host_server [OF tm(1) cr True b(1)] show ?thesis using trans [OF _ b(2)] by (simp only: if_True if_False simp_thms)
    next
      case False
      with nginx_context_pass [OF tm(1) cr False f(1)] show ?thesis using trans [OF _ f(2)] by (simp only: if_True if_False simp_thms)
    qed
  qed
qed

section \<open>Websocket endpoints\<close>

definition ws_location :: "ng_host \<Rightarrow> string \<Rightarrow> string" where
  "ws_location h e = eol @ ''        location '' @ e @ '' {'' @ eol @ ''            '' @ ng_pass h @ eol
     @ ''            proxy_http_version 1.1;'' @ eol @ ''            proxy_set_header Upgrade $http_upgrade;'' @ eol
     @ ''            proxy_set_header Connection $connection_upgrade;'' @ eol @ ''        }'' @ eol @ eol"

definition status_location :: string where
  "status_location = ''        location /nginx_status {'' @ eol @ ''            stub_status on;'' @ eol
     @ ''            access_log off;'' @ eol @ ''        }'' @ eol @ eol"

definition ws_body :: "node list" where
  "ws_body = [Text eol, Text ''        location '', Action (PVar ''$ws'' []), Text ('' {'' @ eol), Text ''            '',
     pass_branch, Text eol, Text (''            proxy_http_version 1.1;'' @ eol),
     Text (''            proxy_set_header Upgrade $http_upgrade;'' @ eol),
     Text (''            proxy_set_header Connection $connection_upgrade;'' @ eol), Text (''        }'' @ eol), Text eol,
     Text (''        location /nginx_status {'' @ eol), Text (''            stub_status on;'' @ eol),
     Text (''            access_log off;'' @ eol), Text (''        }'' @ eol), Text eol, Text ''        '']"

lemma ws_body_exec:
  "exec_nodes [(''$ws'', VStr e), (''$host'', ng_host_value h)] dot ws_body = Inr (ws_location h e @ status_location @ ''        '')"
  by (simp add: ws_body_def pass_branch_def ng_values is_true_def ws_location_def status_location_def ng_pass_def)

lemma ws_loop_exec:
  "exec_range [''$ws''] [(''$host'', ng_host_value h)] i (map VStr es) ws_body =
    Inr (concat (map (\<lambda>e. ws_location h e @ status_location @ ''        '') es))"
  by (induction es arbitrary: i) (simp_all add: bind_vars_def ws_body_exec)

lemma nginx_ws_shape:
  "\<exists>plain. If (PVar ''$host'' [''SSLOnly'']) [Text ''return 302 https://$server_name$request_uri;''] plain
      \<in> set (else_branch (nginx_back ! 2)) \<and> Range [''$ws''] (PVar ''$host'' [''WebsocketEndpoints'']) ws_body \<in> set plain"
  by (simp add: nginx_back_def ws_body_def pass_branch_def)

text \<open>C32: in the server block of a plain host, the built-in Nginx template writes the location of
  the status page once for every websocket endpoint, inside the loop over the endpoints: a host with two
  endpoints has two locations \<open>/nginx_status\<close> in one server block, and a host without any has none.\<close>

theorem websocket_status_repeated:
  assumes "builtin_env v" and "TemplatePath (ng_cfg p) = []" and "\<not> NginxPlusEnabled (ng_cfg p)"
    and "render_config go_engine (ng_backend v p) (NginxConfig conf) = Ok out"
    and "h \<in> set (nc_Hosts conf)" and "n_ContextRoot h = Some cr" and "nr_cr_Path cr = []" and "\<not> n_SSLOnly h"
  shows "sublist (concat (map (\<lambda>e. ws_location h e @ status_location @ ''        '') (n_WebsocketEndpoints h))) out"
proof -
  have tm: "(nginx_template, nginx_front, nginx_back) \<in> set nginx_bodies" by (simp add: nginx_bodies_def)
  have x: "exec_template nginx_template (VStruct ((''Hosts'', VList (map ng_host_value (nc_Hosts conf)))
      # [(''Config'', ext_value (nc_Config conf))])) = Inr out"
    using assms(3,4) nginx_renders [OF assms(1,2), of conf]
    by (cases "exec_template nginx_template (ng_value conf)") (simp_all add: ng_value_def)
  have h: "ng_host_value h \<in> set (map ng_host_value (nc_Hosts conf))" using assms(5) by simp
  obtain b where b: "ng_exec h nginx_back = Inr b" "sublist b out"
    using host_loops_part(2) [OF x nginx_loops [OF tm] h] by blast
  obtain s where s: "ng_exec h (else_branch (nginx_back ! 2)) = Inr s" "sublist s b"
    using exec_branch [OF b(1) nginx_branches(2) [OF tm] ng_context_cond [OF assms(6)]] assms(7) by auto
  obtain plain where plain: "If (PVar ''$host'' [''SSLOnly'']) [Text ''return 302 https://$server_name$request_uri;''] plain
      \<in> set (else_branch (nginx_back ! 2))" "Range [''$ws''] (PVar ''$host'' [''WebsocketEndpoints'']) ws_body \<in> set plain"
    using nginx_ws_shape by blast
  have "eval_pipe [(''$host'', ng_host_value h)] (ng_host_value h) (PVar ''$host'' [''SSLOnly'']) = Inr (VBool False)"
    using assms(8) by (simp add: ng_values)
  from exec_branch [OF s(1) plain(1) this] obtain u where u: "ng_exec h plain = Inr u" "sublist u s" by auto
  have "exec_node [(''$host'', ng_host_value h)] (ng_host_value h) (Range [''$ws''] (PVar ''$host'' [''WebsocketEndpoints'']) ws_body)
      = Inr (concat (map (\<lambda>e. ws_location h e @ status_location @ ''        '') (n_WebsocketEndpoints h)))"
    using ws_loop_exec [of h 0 "n_WebsocketEndpoints h"] by (simp add: ng_values)
  with exec_node_part [OF u(1) plain(2)]
  have "sublist (concat (map (\<lambda>e. ws_location h e @ status_location @ ''        '') (n_WebsocketEndpoints h))) u" by simp
  with u(2) s(2) b(2) show ?thesis using sublist_order.order_trans by blast
qed

definition chat_host :: ng_host where
  "chat_host = \<lparr>n_ServerNames = [''chat.local''], n_Port = 80, n_ContextRoot = Some \<lparr>nr_cr_Name = [], nr_cr_Path = []\<rparr>,
     n_ContextRootRewrite = False, n_SSLPort = 443, n_SSL = False, n_SSLCert = [], n_SSLCertKey = [], n_SSLOnly = False,
     n_SSLBackend = False, n_Upstream = \<lparr>nu_Name = ''chat.local'', nu_Servers = [\<lparr>srv_Addr = ''10.0.0.1:8080''\<rparr>]\<rparr>,
     n_WebsocketEndpoints = [''/ws'', ''/feed''], n_IPHash = False\<rparr>"

definition chat_config :: ng_config where
  "chat_config = \<lparr>nc_Hosts = [chat_host], nc_Config = fleet_ext_config ''nginx'', nc_Networks = []\<rparr>"

theorem websocket_status_repeated_witness:
  "\<exists>out. render_config go_engine (ng_backend builtin_backend_env \<lparr>ng_cfg = fleet_ext_config ''nginx''\<rparr>) (NginxConfig chat_config) = Ok out
    \<and> sublist (status_location @ ''        '' @ ws_location chat_host ''/feed'' @ status_location) out"
proof -
  let ?p = "\<lparr>ng_cfg = fleet_ext_config ''nginx''\<rparr>" and ?v = builtin_backend_env
  have b: "builtin_env ?v" by (simp add: builtin_env_def builtin_backend_env_def)
  have tp: "TemplatePath (ng_cfg ?p) = []" "\<not> NginxPlusEnabled (ng_cfg ?p)"
    by (simp_all add: fleet_ext_config_def set_defaults)
  obtain out where out: "render_config go_engine (ng_backend ?v ?p) (NginxConfig chat_config) = Ok out"
    using nginx_renders [OF b tp(1), of chat_config] nginx_conf_executes(1) [of chat_config] tp(2)
    by (auto simp: chat_config_def chat_host_def)
  have "sublist (concat (map (\<lambda>e. ws_location chat_host e @ status_location @ ''        '') (n_WebsocketEndpoints chat_host))) out"
    by (rule websocket_status_repeated [OF b tp out, where cr = "\<lparr>nr_cr_Name = [], nr_cr_Path = []\<rparr>"])
      (simp_all add: chat_config_def chat_host_def)
  then have "sublist (ws_location chat_host ''/ws'' @ (status_location @ ''        '' @ ws_location chat_host ''/feed''
      @ status_location) @ ''        '') out"
    by (simp add: chat_host_def)
  with sublist_appendI have "sublist (status_location @ ''        '' @ ws_location chat_host ''/feed'' @ status_location) out"
    by (rule sublist_order.order_trans)
  with out show ?thesis by blast
qed

end
