(* ===== verification/Delivered.thy ===== *)
theory Delivered
  imports Rendered
begin

text \<open>
  From a container to the proxies: the generator, the built-in template and the update composed. A
  container that a backend serves is in the file that an update copies to every proxy, under a route
  that leads to it.
\<close>

section \<open>The backend of a constructed load balancer\<close>

lemma NewLoadBalancer_haproxy:
  assumes "NewLoadBalancer isNotExist cid v c = Ok l" and "Name c = ''haproxy''"
  shows "lb_backend l = hp_backend v \<lparr>hp_cfg = lb_cfg l\<rparr>" and "TemplatePath (lb_cfg l) = TemplatePath c"
  using assms by (auto simp: NewLoadBalancer_def select_backend_def NewHAProxyLoadBalancer_def Let_def go_res split: if_splits)

lemma NewLoadBalancer_nginx:
  assumes "NewLoadBalancer isNotExist cid v c = Ok l" and "Name c = ''nginx''"
  shows "lb_backend l = ng_backend v \<lparr>ng_cfg = lb_cfg l\<rparr>" and "TemplatePath (lb_cfg l) = TemplatePath c"
  using assms by (auto simp: NewLoadBalancer_def select_backend_def NewNginxLoadBalancer_def Let_def go_res split: if_splits)

section \<open>An update that goes through\<close>

text \<open>What an update does, with the built-in templates and after a successful generation.\<close>

lemma update_delivers:
  assumes "NewLoadBalancer isNotExist cid v c = Ok l"
    and "ue_ContainerList u = Inr cs" and "be_GenerateProxyConfig (lb_backend l) cs = Ok conf"
    and "ue_ProxyList u = Inr ps" and "list_all loggable (lb_proxies l ps)"
    and "render_config go_engine (lb_backend l) conf = Ok data"
  shows "\<exists>rest. lb_update go_engine u l = (lb_copies l data (lb_proxies l ps) @ rest, Ok ())
    \<and> set (signalled rest) \<subseteq> ct_ID ` set (lb_proxies l ps)"
proof -
  obtain nets restart rs where r: "set restart \<subseteq> set (lb_proxies l ps)" "signalled rs = map ct_ID restart"
    "lb_update go_engine u l = (lb_copies l data (lb_proxies l ps)
        @ connect_each (ue_ord u) 0 nets (lb_proxies l ps) @ SleepMs 1000 # rs, Ok ())"
    by (rule proxy_backend.update_effects [OF NewLoadBalancer_backend [OF assms(1)] refl assms(2-4,6,5)])
  let ?rest = "connect_each (ue_ord u) 0 nets (lb_proxies l ps) @ SleepMs 1000 # rs"
  have "set (signalled ?rest) = ct_ID ` set restart" by (simp add: r(2))
  also have "\<dots> \<subseteq> ct_ID ` set (lb_proxies l ps)" by (rule image_mono [OF r(1)])
  finally have s: "set (signalled ?rest) \<subseteq> ct_ID ` set (lb_proxies l ps)" .
  show ?thesis by (rule exI, rule conjI, rule r(3), rule s)
qed

lemma hp_served_host:
  assumes "hp_GenerateProxyConfig cfg envs ord cs = Ok hc"
    and "i < length cs" and "hp_served cfg (envs i) (cs ! i) = Some (d, config, up, net)"
    and "k \<in> insert d (set (AliasDomains (ord_aliases (envs i)) config))"
  obtains h where "h \<in> set (hc_Hosts hc)" and "h_Domain h = k" and "up \<in> set (h_Upstreams h)"
proof -
  have "(k, up) \<in> set (hp_upstream_writes cfg (envs i) (cs ! i))"
    using assms(3,4) by (auto simp: hp_upstream_writes_def)
  then have w: "(k, up) \<in> set (all_writes (\<lambda>i. hp_upstream_writes cfg (envs i)) 0 cs)"
    using assms(2) by (auto simp: set_all_writes)
  then have "k \<in> fst ` set (all_writes (\<lambda>i. hp_upstream_writes cfg (envs i)) 0 cs)" by (metis fst_conv imageI)
  then obtain h where h: "h \<in> set (hc_Hosts hc)" "h_Domain h = k" by (rule hp_host_ex [OF assms(1)])
  with w have "up \<in> set (h_Upstreams h)"
    by (simp add: hp_host_upstreams [OF assms(1)] hp_all_def set_values_at)
  with h show thesis by (rule that)
qed


lemma ng_served_host:
  assumes "ng_GenerateProxyConfig cfg envs ord cs = Ok nc"
    and "i < length cs" and "ng_served cfg (envs i) (cs ! i) = Some (d, config, addr, net)"
  obtains h where "h \<in> set (nc_Hosts nc)" and "n_Site h = d" and "\<lparr>srv_Addr = addr\<rparr> \<in> set (nu_Servers (n_Upstream h))"
    and "insert d (set (AliasDomains (ord_aliases (envs i)) config)) \<subseteq> set (n_ServerNames h)"
proof -
  have "(d, addr) \<in> set (ng_upstream_writes cfg (envs i) (cs ! i))"
    using assms(3) by (simp add: ng_upstream_writes_def)
  then have w: "(d, addr) \<in> set (all_writes (\<lambda>i. ng_upstream_writes cfg (envs i)) 0 cs)"
    using assms(2) by (auto simp: set_all_writes)
  then have "d \<in> fst ` set (all_writes (\<lambda>i. ng_upstream_writes cfg (envs i)) 0 cs)" by (metis fst_conv imageI)
  then obtain h where h: "h \<in> set (nc_Hosts nc)" "n_Site h = d" by (rule ng_host_ex [OF assms(1)])
  have "addr \<in> set (map srv_Addr (nu_Servers (n_Upstream h)))"
    using w unfolding ng_host_names(1) [OF assms(1) h(1)] by (simp add: h(2) ng_all_def set_values_at)
  then obtain s where s: "s \<in> set (nu_Servers (n_Upstream h))" "addr = srv_Addr s" by auto
  from s(2) have "\<lparr>srv_Addr = addr\<rparr> = s" by simp
  with s(1) have a: "\<lparr>srv_Addr = addr\<rparr> \<in> set (nu_Servers (n_Upstream h))" by (simp only:)
  have "(d, a) \<in> set (all_writes (\<lambda>i. ng_alias_writes cfg (envs i)) 0 cs)"
    if "a \<in> set (AliasDomains (ord_aliases (envs i)) config)" for a
    using that assms(2,3) by (auto simp: set_all_writes ng_list_writes_def intro!: exI [of _ i])
  then have "insert d (set (AliasDomains (ord_aliases (envs i)) config)) \<subseteq> set (n_ServerNames h)"
    unfolding ng_host_names(2) [OF assms(1) h(1)] by (auto simp: h(2) ng_all_def set_values_at)
  with h a show thesis by (rule that)
qed


section \<open>The sample fleet\<close>

definition fleet_cfg :: "string \<Rightarrow> ext_config" where
  "fleet_cfg name = (fleet_ext_config name)\<lparr>ConfigBasePath := path_Dir (ConfigPath (fleet_ext_config name))\<rparr>"

definition fleet_proxy :: "string \<Rightarrow> container" where
  "fleet_proxy name = (proxy_named ''proxy000001a'')\<lparr>ct_Labels := [(InterlockExtNameLabel, name)]\<rparr>"

definition fleet_round :: "string \<Rightarrow> update_env" where
  "fleet_round name = fleet_update\<lparr>ue_ProxyList := Inr [fleet_proxy name]\<rparr>"

lemma fleet_round_lists [simp]:
  "ue_ContainerList (fleet_round name) = Inr fleet" "ue_ProxyList (fleet_round name) = Inr [fleet_proxy name]"
  by (simp_all add: fleet_round_def fleet_update_def)

lemma fleet_template [simp]: "TemplatePath (fleet_ext_config name) = []"
  by (simp add: fleet_ext_config_def set_defaults)

lemma builtin_env_builtin [simp]: "builtin_env builtin_backend_env"
  by (simp add: builtin_env_def builtin_backend_env_def)

lemma fleet_proxy_loggable: "be_Name (lb_backend l) = name \<Longrightarrow>
    lb_proxies l [fleet_proxy name] = [fleet_proxy name] \<and> list_all loggable (lb_proxies l [fleet_proxy name])"
  by (simp add: fleet_proxy_def proxy_named_def loggable_def)

lemma fleet_lb_named:
  assumes "name = ''haproxy'' \<or> name = ''nginx''"
  obtains l where "NewLoadBalancer (\<lambda>_. False) (Ok ''nodeA'') builtin_backend_env (fleet_ext_config name) = Ok l"
    and "lb_cfg l = fleet_cfg name"
proof -
  have "Name (fleet_ext_config name) = name" by (simp add: fleet_ext_config_def)
  with assms that show thesis
    by (auto simp: NewLoadBalancer_def ttl_New_def ReloadThreshold_def select_backend_def fleet_cfg_def
        NewHAProxyLoadBalancer_def NewNginxLoadBalancer_def Let_def)
qed

lemma builtin_envs [simp]: "bv_envs builtin_backend_env = (\<lambda>_. fleet_env)" "bv_ord builtin_backend_env = (\<lambda>_. 0)"
  by (simp_all add: builtin_backend_env_def fleet_backend_env_def)

lemma fleet_generates:
  "is_ok (hp_GenerateProxyConfig (fleet_cfg ''haproxy'') (\<lambda>_. fleet_env) (\<lambda>_. 0) fleet)"
  "is_ok (ng_GenerateProxyConfig (fleet_cfg ''nginx'') (\<lambda>_. fleet_env) (\<lambda>_. 0) fleet)"
  by code_simp+

lemma fleet_served:
  "case hp_served (fleet_cfg ''haproxy'') fleet_env (fleet ! 0) of None \<Rightarrow> False | Some (d, config, up, net) \<Rightarrow>
     ''www.local'' \<in> set (AliasDomains (ord_aliases fleet_env) config) \<and> up_Addr up = ''10.0.0.1:8080''"
  "case ng_served (fleet_cfg ''nginx'') fleet_env (fleet ! 2) of None \<Rightarrow> False | Some (d, config, addr, net) \<Rightarrow>
     d = ''_shop_a'' \<and> addr = ''10.1.0.7:3000''"
  by code_simp+



section \<open>An alias of a host under a context root\<close>

lemma exec_range_append:
  assumes "exec_range xs vars i (vs @ ws) ns = Inr out"
  obtains s t where "exec_range xs vars i vs ns = Inr s" "exec_range xs vars (i + length vs) ws ns = Inr t" "out = s @ t"
proof -
  have "\<exists>s t. exec_range xs vars i vs ns = Inr s \<and> exec_range xs vars (i + length vs) ws ns = Inr t \<and> out = s @ t"
    using assms
  proof (induction vs arbitrary: i out)
    case Nil
    then show ?case by simp
  next
    case (Cons v vs)
    then obtain a b where ab: "exec_nodes (bind_vars xs i v vars) v ns = Inr a"
      "exec_range xs vars (Suc i) (vs @ ws) ns = Inr b" "out = a @ b" by (auto simp: try_bind_Inr)
    from Cons.IH [OF ab(2)] ab(1,3) show ?case by (fastforce simp: try_bind_Inr)
  qed
  then show thesis using that by blast
qed

text \<open>The outputs for two elements of a list, one after the other.\<close>

lemma exec_range_two:
  assumes "exec_range xs vars i vs ns = Inr out" and "v \<in> set vs" and "w \<in> set vs" and "v \<noteq> w"
    and "\<And>j u s. u \<in> {v, w} \<Longrightarrow> exec_nodes (bind_vars xs j u vars) u ns = Inr s \<Longrightarrow> sublist mark s"
  shows "\<exists>a b c. out = a @ mark @ b @ mark @ c"
  using assms(1-4)
proof (induction vs arbitrary: i out)
  case Nil
  then show ?case by simp
next
  case (Cons u vs)
  from Cons.prems(1) obtain s t where st: "exec_nodes (bind_vars xs i u vars) u ns = Inr s"
    "exec_range xs vars (Suc i) vs ns = Inr t" "out = s @ t" by (auto simp: try_bind_Inr)
  show ?case
  proof (cases "u \<in> {v, w}")
    case True
    from assms(5) [OF True st(1)] obtain a b where s: "s = a @ mark @ b" by (auto simp: sublist_def)
    obtain u' where u': "u' \<in> set vs" "u' \<in> {v, w}" using True Cons.prems(2-4) by auto
    from exec_range_part [OF st(2) u'(1)] obtain j r where "exec_nodes (bind_vars xs j u' vars) u' ns = Inr r"
      and r: "sublist r t" by blast
    from assms(5) [OF u'(2) this(1)] r obtain c d where "t = c @ mark @ d"
      using sublist_order.order_trans by (metis sublist_def)
    with s st(3) have "out = a @ mark @ (b @ c) @ mark @ d" by (simp only: append_assoc)
    then show ?thesis by (intro exI)
  next
    case False
    with Cons.prems(2,3) have "v \<in> set vs" "w \<in> set vs" by auto
    from Cons.IH [OF st(2) this Cons.prems(4)] obtain a b c where "t = a @ mark @ b @ mark @ c" by (elim exE)
    with st(3) have "out = (s @ a) @ mark @ b @ mark @ c" by (simp only: append_assoc)
    then show ?thesis by (intro exI)
  qed
qed

lemma hp_host_value_inj: "hp_host_value h = hp_host_value h' \<Longrightarrow> h_Domain h = h_Domain h'"
  by (simp add: hp_host_value_def)

definition hp_ctx_head :: "container_config \<Rightarrow> string" where
  "hp_ctx_head config = ''backend ctx'' @ contextRootName config @ eol"

lemma haproxy_two_sections:
  assumes "exec_template haproxy_template (VStruct ((''Hosts'', VList (map hp_host_value hs)) # fs)) = Inr out"
    and "h \<in> set hs" and "h' \<in> set hs" and "h_Domain h \<noteq> h_Domain h'"
    and "h_ContextRoot h = Some (hp_context config)" and "h_ContextRoot h' = Some (hp_context config)"
    and "ContextRoot config \<noteq> []"
  shows "\<exists>a b c. out = a @ hp_ctx_head config @ b @ hp_ctx_head config @ c"
proof -
  let ?dot = "VStruct ((''Hosts'', VList (map hp_host_value hs)) # fs)"
  have "Range [''$host''] (PField [''Hosts'']) haproxy_back \<in> set haproxy_template"
    by (simp add: haproxy_template_def)
  from exec_node_part [OF assms(1) [unfolded exec_template_def] this] obtain r where
    r: "exec_node [] ?dot (Range [''$host''] (PField [''Hosts'']) haproxy_back) = Inr r" "sublist r out" by blast
  then have x: "exec_range [''$host''] [] 0 (map hp_host_value hs) haproxy_back = Inr r" by (simp add: field_of_def)
  have "\<exists>a b c. r = a @ hp_ctx_head config @ b @ hp_ctx_head config @ c"
  proof (rule exec_range_two [OF x, of "hp_host_value h" "hp_host_value h'"])
    show "hp_host_value h \<in> set (map hp_host_value hs)" "hp_host_value h' \<in> set (map hp_host_value hs)"
      using assms(2,3) by simp_all
    show "hp_host_value h \<noteq> hp_host_value h'" using assms(4) hp_host_value_inj by blast
    fix j u s
    assume "u \<in> {hp_host_value h, hp_host_value h'}"
    then obtain g where g: "u = hp_host_value g" "h_ContextRoot g = Some (hp_context config)"
      using assms(5,6) by blast
    assume "exec_nodes (bind_vars [''$host''] j u []) u haproxy_back = Inr s"
    then have "exec_nodes [(''$host'', hp_host_value g)] (hp_host_value g) haproxy_back = Inr s"
      by (simp add: bind_vars_def g(1))
    from haproxy_back_head [OF g(2) this] obtain pre y body where
      "s = pre @ ''backend '' @ hp_backend_name g (hp_context config) @ eol @ y @ body" by blast
    moreover have "''backend '' @ hp_backend_name g (hp_context config) @ eol = hp_ctx_head config"
      using assms(7) by (simp add: hp_backend_name_def hp_context_def hp_ctx_head_def)
    ultimately have "s = pre @ hp_ctx_head config @ y @ body" by (metis append_assoc)
    then show "sublist (hp_ctx_head config) s" by (simp only: sublist_appendI)
  qed
  then obtain a b c where abc: "r = a @ hp_ctx_head config @ b @ hp_ctx_head config @ c" by (elim exE)
  from r(2) obtain p q where "out = p @ r @ q" by (auto simp: sublist_def)
  with abc have "out = (p @ a) @ hp_ctx_head config @ b @ hp_ctx_head config @ (c @ q)" by (simp only: append_assoc)
  then show ?thesis by (intro exI)
qed

lemma hp_last_context:
  assumes "hp_GenerateProxyConfig cfg envs ord (cs @ [cnt]) = Ok conf" and "h \<in> set (hc_Hosts conf)"
    and "hp_served cfg (envs (length cs)) cnt = Some (d, config, up, net)"
    and "h_Domain h \<in> insert d (set (AliasDomains (ord_aliases (envs (length cs))) config))"
  shows "h_ContextRoot h = Some (hp_context config)"
proof -
  let ?w = "\<lambda>i. hp_context_writes cfg (envs i)"
  obtain cInfo i where "hp_accepted (envs (length cs)) cnt = Some (d, cInfo, i)" "config = cj_Config cInfo"
    using hp_served_accepted [OF assms(3)] by blast
  then have w: "?w (length cs) cnt = (d, hp_context config)
      # map (\<lambda>a. (a, hp_context config)) (AliasDomains (ord_aliases (envs (length cs))) config)"
    using hp_accepted_named assms(3) by (fastforce simp: hp_context_writes_def hp_named_writes_def)
  have "hp_all ?w (cs @ [cnt]) k = hp_all ?w cs k @ values_at k (?w (length cs) cnt)" for k
    by (simp add: hp_all_def all_writes_append)
  moreover have "values_at (h_Domain h) (?w (length cs) cnt) \<noteq> []"
    using assms(4) unfolding w by (auto simp: values_at_empty image_image)
  moreover have "set (values_at (h_Domain h) (?w (length cs) cnt)) \<subseteq> {hp_context config}"
    unfolding w by (auto simp: set_values_at)
  ultimately have "hp_all ?w (cs @ [cnt]) (h_Domain h) \<noteq> [] \<and> last (hp_all ?w (cs @ [cnt]) (h_Domain h)) = hp_context config"
    using last_in_set by fastforce
  then show ?thesis using hp_host_attributes(8) [OF assms(1,2)] by (simp add: overwrite_def)
qed


definition shop_alias :: container_json where
  "shop_alias = app1\<lparr>cj_Config := fleet_labels [(InterlockContextRootLabel, ''/shop/a''), (InterlockNetworkLabel, ''blue''),
     (InterlockAliasDomainLabel @ ''.0'', ''shop.local'')]\<rparr>"

definition shop_env :: gen_env where
  "shop_env = fleet_env\<lparr>ContainerInspect := (\<lambda>cid. if cid = ''app1app1app1'' then Ok shop_alias else fleet_inspect cid)\<rparr>"


end
