(* ===== verification/Beacon_Machine.thy ===== *)
theory Beacon_Machine
  imports Beacon
begin

text \<open>
  The goroutines of the metrics extension (\<open>ext/beacon/beacon.go\<close>, \<open>stats.go\<close>): the ticker, whose
  collection starts one goroutine per monitored container and waits for all of them; these workers;
  and the event loop of the server, which calls \<open>HandleEvent\<close>. They share the map of monitored
  containers and the gauges. Each step of the machine is one action of one of them; a worker sets one
  gauge at a time, and the event loop resets one gauge at a time, as the client library locks a gauge
  for each \<open>With\<close> and each \<open>Reset\<close>. Any interleaving is allowed.

  The machine follows the runs in which Go does not notice that the map is read and written without a
  lock. Its range over the map is that of the language: an entry that is removed before it is reached
  is not produced, and one that is added may be produced or not.

  The engine's answers are fixed for each collection. \<open>bm_log\<close> is bookkeeping: the containers and the
  gauge settings of the current collection, in the order in which they took effect.
\<close>

section \<open>Workers\<close>

text \<open>
  Where the goroutine of a container is: at its start, before the next line of the statistics, or
  within the report of a line, with the settings or the batches that are left.
\<close>

datatype bm_worker =
    WkStart string
  | WkLines string "stats_json answer list"
  | WkWrites string "gauge_write list" "stats_json answer list"
  | WkBatches string "influx_point list list" "stats_json answer list"

primrec wk_id :: "bm_worker \<Rightarrow> string" where
  "wk_id (WkStart cid) = cid"
| "wk_id (WkLines cid ls) = cid"
| "wk_id (WkWrites cid ws ls) = cid"
| "wk_id (WkBatches cid bs ls) = cid"

text \<open>One action of a worker; it is gone once \<open>wg.Done\<close> has been called.\<close>

fun wk_step ::
  "collect_env \<Rightarrow> Beacon \<Rightarrow> bm_worker \<Rightarrow> beacon_world \<Rightarrow> (bm_worker option \<times> beacon_world) res" where
  "wk_step v b (WkStart cid) w =
     (case ce_Inspect v cid of
        Inl err \<Rightarrow> Ok (None, w)
      | Inr c \<Rightarrow>
          res_bind (ruleMatch (ce_compile v) (ce_rules v) b (cj_Config c)) (\<lambda>m.
            if \<not> m then Ok (None, w)
            else case ce_Stats v cid of
                   Inl err \<Rightarrow> Ok (None, w)
                 | Inr ls \<Rightarrow> Ok (Some (WkLines cid ls), w)))"
| "wk_step v b (WkLines cid []) w = Ok (None, w)"
| "wk_step v b (WkLines cid (l # ls)) w =
     (case l of
        Inl err \<Rightarrow> Ok (None, w)
      | Inr stats \<Rightarrow>
          res_bind (mk_stat (ce_stats_env v) cid stats) (\<lambda>s.
            case s of
              None \<Rightarrow> Ok (Some (WkLines cid ls), w)
            | Some s \<Rightarrow>
                if StatsBackendType (bn_cfg b) = ''prometheus'' then
                  Ok (Some (WkWrites cid (prometheus_writes (se_ord (ce_stats_env v)) s) ls), w)
                else if StatsBackendType (bn_cfg b) = ''influxdb'' then
                  (case sendInfluxDB (se_influx (ce_stats_env v)) (se_ord (ce_stats_env v)) b s of (batches, r) \<Rightarrow>
                     case r of
                       Panic p \<Rightarrow> Panic p
                     | _ \<Rightarrow> Ok (Some (WkBatches cid batches ls), w))
                else Ok (Some (WkLines cid ls), w)))"
| "wk_step v b (WkWrites cid [] ls) w = Ok (Some (WkLines cid ls), w)"
| "wk_step v b (WkWrites cid (g # ws) ls) w =
     (case g of (g, labels, x) \<Rightarrow>
        res_bind (gauge_set g labels x (bw_samples w)) (\<lambda>reg.
          Ok (Some (WkWrites cid ws ls), w\<lparr>bw_samples := reg\<rparr>)))"
| "wk_step v b (WkBatches cid [] ls) w = Ok (Some (WkLines cid ls), w)"
| "wk_step v b (WkBatches cid (p # bs) ls) w =
     Ok (Some (WkBatches cid bs ls), w\<lparr>bw_batches := bw_batches w @ [p]\<rparr>)"

fun wk_sets :: "bm_worker \<Rightarrow> gauge_write list" where
  "wk_sets (WkWrites cid (g # ws) ls) = [g]"
| "wk_sets wk = []"

section \<open>The machine\<close>

text \<open>
  The ticker ranges over the map with the ids that must still be produced and those that were
  produced; then it waits for the workers, and pushes if a gateway is configured.
\<close>

datatype bm_ticker = TkIdle | TkRange "string list" "string list" | TkWait | TkPush

record bm_state =
  bm_beacon :: Beacon
  bm_world :: beacon_world
  bm_env :: collect_env
  bm_ticker :: bm_ticker
  bm_workers :: "bm_worker list"
  bm_resetting :: "gauge_vec list"
  bm_pushed :: "samples list"
  bm_panic :: bool
  bm_log :: "(string \<times> gauge_write) list"

datatype bm_label =
    BTick collect_env
  | BRange string
  | BRangeEnd
  | BWork nat
  | BWaited
  | BPush
  | BEvent "container list answer" event_message
  | BReset

definition bm_init :: "collect_env \<Rightarrow> Beacon \<Rightarrow> bm_state" where
  "bm_init v b = \<lparr>bm_beacon = b, bm_world = \<lparr>bw_samples = [], bw_batches = []\<rparr>, bm_env = v,
     bm_ticker = TkIdle, bm_workers = [], bm_resetting = [], bm_pushed = [], bm_panic = False, bm_log = []\<rparr>"

definition ends_container :: "event_message \<Rightarrow> bool" where
  "ends_container e \<longleftrightarrow> em_Status e \<in> {''kill'', ''die'', ''stop'', ''destroy''}"

text \<open>The removal of an entry during a range.\<close>

fun tk_delete :: "string \<Rightarrow> bm_ticker \<Rightarrow> bm_ticker" where
  "tk_delete cid (TkRange must seen) = TkRange (removeAll cid must) (removeAll cid seen)"
| "tk_delete cid t = t"

definition bm_work :: "nat \<Rightarrow> bm_state \<Rightarrow> bm_state" where
  "bm_work i s =
     (let wk = bm_workers s ! i
      in case wk_step (bm_env s) (bm_beacon s) wk (bm_world s) of
           Ok (None, w) \<Rightarrow>
             s\<lparr>bm_workers := take i (bm_workers s) @ drop (Suc i) (bm_workers s), bm_world := w\<rparr>
         | Ok (Some wk', w) \<Rightarrow>
             s\<lparr>bm_workers := (bm_workers s)[i := wk'], bm_world := w,
               bm_log := bm_log s @ map (Pair (wk_id wk)) (wk_sets wk)\<rparr>
         | _ \<Rightarrow> s\<lparr>bm_panic := True\<rparr>)"

text \<open>
  The event loop's part of \<open>HandleEvent\<close> up to the first reset; the resets follow one by one.
\<close>

definition bm_event :: "container list answer \<Rightarrow> event_message \<Rightarrow> bm_state \<Rightarrow> bm_state" where
  "bm_event cs e s =
     s\<lparr>bm_beacon := fst (fst (bn_HandleEvent cs e (bm_beacon s) (bw_samples (bm_world s)))),
       bm_ticker := (if ends_container e then tk_delete (em_ID e) (bm_ticker s) else bm_ticker s),
       bm_resetting := (if ends_container e then allCounters else [])\<rparr>"

fun bm_act :: "bm_label \<Rightarrow> bm_state \<Rightarrow> bm_state option" where
  "bm_act (BTick v) s =
     (if bm_ticker s = TkIdle
      then Some (s\<lparr>bm_env := v, bm_ticker := TkRange (map fst (bn_monitored (bm_beacon s))) [], bm_log := []\<rparr>)
      else None)"
| "bm_act (BRange cid) s =
     (case bm_ticker s of
        TkRange must seen \<Rightarrow>
          if cid \<in> set (map fst (bn_monitored (bm_beacon s))) \<and> cid \<notin> set seen
          then Some (s\<lparr>bm_ticker := TkRange (removeAll cid must) (cid # seen),
                 bm_workers := bm_workers s @ [WkStart cid]\<rparr>)
          else None
      | _ \<Rightarrow> None)"
| "bm_act BRangeEnd s =
     (case bm_ticker s of
        TkRange [] seen \<Rightarrow> Some (s\<lparr>bm_ticker := TkWait\<rparr>)
      | _ \<Rightarrow> None)"
| "bm_act (BWork i) s = (if i < length (bm_workers s) then Some (bm_work i s) else None)"
| "bm_act BWaited s =
     (if bm_ticker s = TkWait \<and> bm_workers s = []
      then Some (s\<lparr>bm_ticker :=
        (if StatsPrometheusPushGatewayURL (bn_cfg (bm_beacon s)) \<noteq> [] then TkPush else TkIdle)\<rparr>)
      else None)"
| "bm_act BPush s =
     (if bm_ticker s = TkPush
      then Some (s\<lparr>bm_ticker := TkIdle, bm_pushed := bm_pushed s @ [bw_samples (bm_world s)]\<rparr>)
      else None)"
| "bm_act (BEvent cs e) s = (if bm_resetting s = [] then Some (bm_event cs e s) else None)"
| "bm_act BReset s =
     (case bm_resetting s of
        [] \<Rightarrow> None
      | g # gs \<Rightarrow> Some (s\<lparr>bm_resetting := gs,
          bm_world := (bm_world s)\<lparr>bw_samples := gauge_reset g (bw_samples (bm_world s))\<rparr>\<rparr>))"

text \<open>A panic in any goroutine ends the process.\<close>

definition bm_do :: "bm_label \<Rightarrow> bm_state \<Rightarrow> bm_state option" where
  "bm_do l s = (if bm_panic s then None else bm_act l s)"

inductive bm_run :: "bm_state \<Rightarrow> bm_label list \<Rightarrow> bm_state \<Rightarrow> bool" for s\<^sub>0 where
  bm_start: "bm_run s\<^sub>0 [] s\<^sub>0"
| bm_step: "bm_run s\<^sub>0 ls s \<Longrightarrow> bm_do l s = Some s' \<Longrightarrow> bm_run s\<^sub>0 (ls @ [l]) s'"

inductive_cases bm_run_NilE: "bm_run s [] s'"
inductive_cases bm_run_snocE: "bm_run s (ls @ [l]) s'"

fun bm_path :: "bm_label list \<Rightarrow> bm_state \<Rightarrow> bm_state option" where
  "bm_path [] s = Some s"
| "bm_path (l # ls) s = (case bm_do l s of None \<Rightarrow> None | Some s' \<Rightarrow> bm_path ls s')"

lemma bm_run_append: "bm_run t ls' u \<Longrightarrow> bm_run s ls t \<Longrightarrow> bm_run s (ls @ ls') u"
  by (induction rule: bm_run.induct) (auto simp: append_assoc [symmetric] simp del: append_assoc intro: bm_run.bm_step)

lemma bm_path_run: "bm_path ls s = Some s' \<Longrightarrow> bm_run s ls s'"
proof (induction ls arbitrary: s)
  case Nil
  then show ?case by (simp add: bm_start)
next
  case (Cons l ls)
  then obtain t where "bm_do l s = Some t" "bm_run t ls s'" by (auto split: option.splits)
  from bm_run_append [OF this(2) bm_step [OF bm_start this(1)]] show ?case by simp
qed

text \<open>The labels of the goroutines other than new events and new ticks.\<close>

primrec bm_quiet :: "bm_label \<Rightarrow> bool" where
  "bm_quiet (BTick v) = False"
| "bm_quiet (BRange cid) = True"
| "bm_quiet BRangeEnd = True"
| "bm_quiet (BWork i) = True"
| "bm_quiet BWaited = True"
| "bm_quiet BPush = True"
| "bm_quiet (BEvent cs e) = False"
| "bm_quiet BReset = True"

section \<open>What a worker does\<close>

definition set_samples :: "gauge_write list \<Rightarrow> samples \<Rightarrow> samples" where
  "set_samples ws reg = fold (\<lambda>w. gm_set (write_key w) (write_val w)) ws reg"

lemma set_samples_simps [simp]:
  "set_samples [] reg = reg"
  "set_samples (w # ws) reg = set_samples ws (gm_set (write_key w) (write_val w) reg)"
  "set_samples (ws @ ws') reg = set_samples ws' (set_samples ws reg)"
  by (simp_all add: set_samples_def)

text \<open>
  The settings of the lines of one response and of one worker, and whether they panic: with the
  Prometheus backend neither depends on what the other goroutines do.
\<close>

fun lines_sets :: "stats_env \<Rightarrow> string \<Rightarrow> stats_json answer list \<Rightarrow> gauge_write list res" where
  "lines_sets v cid [] = Ok []"
| "lines_sets v cid (Inl err # ls) = Ok []"
| "lines_sets v cid (Inr stats # ls) =
     res_bind (mk_stat v cid stats) (\<lambda>s.
       res_bind (lines_sets v cid ls) (\<lambda>ws.
         Ok ((case s of None \<Rightarrow> [] | Some s \<Rightarrow> prometheus_writes (se_ord v) s) @ ws)))"

definition cid_sets :: "collect_env \<Rightarrow> Beacon \<Rightarrow> string \<Rightarrow> gauge_write list res" where
  "cid_sets v b cid =
     (case ce_Inspect v cid of
        Inl err \<Rightarrow> Ok []
      | Inr c \<Rightarrow>
          res_bind (ruleMatch (ce_compile v) (ce_rules v) b (cj_Config c)) (\<lambda>m.
            if \<not> m then Ok []
            else case ce_Stats v cid of
                   Inl err \<Rightarrow> Ok []
                 | Inr ls \<Rightarrow> lines_sets (ce_stats_env v) cid ls))"

definition prometheus_backend :: "Beacon \<Rightarrow> bool" where
  "prometheus_backend b \<longleftrightarrow> StatsBackendType (bn_cfg b) = ''prometheus''"

lemma sendContainerStats_sets:
  assumes "prometheus_backend b"
  shows "sendContainerStats v b cid stats w = res_bind (mk_stat v cid stats) (\<lambda>s. Ok (w\<lparr>bw_samples :=
    set_samples (case s of None \<Rightarrow> [] | Some s \<Rightarrow> prometheus_writes (se_ord v) s) (bw_samples w)\<rparr>))"
  using assms
  by (cases "mk_stat v cid stats")
    (simp_all add: sendContainerStats_def prometheus_backend_def sendPrometheus_Ok set_samples_def split: option.split)

lemma stats_loop_sets:
  assumes "prometheus_backend b"
  shows "stats_loop v b cid ls w = Ok w' \<longleftrightarrow>
    (\<exists>ws. lines_sets v cid ls = Ok ws \<and> w' = w\<lparr>bw_samples := set_samples ws (bw_samples w)\<rparr>)"
proof (induction ls arbitrary: w)
  case Nil
  show ?case by auto
next
  case (Cons l ls)
  show ?case
  proof (cases l)
    case (Inl err)
    then show ?thesis by auto
  next
    case (Inr stats)
    show ?thesis
      by (cases "mk_stat v cid stats"; cases "lines_sets v cid ls")
        (auto simp: Inr sendContainerStats_sets [OF assms] Cons)
  qed
qed

lemma collect_one_sets:
  assumes "prometheus_backend b"
  shows "collect_one v b cid w = Ok w' \<longleftrightarrow>
    (\<exists>ws. cid_sets v b cid = Ok ws \<and> w' = w\<lparr>bw_samples := set_samples ws (bw_samples w)\<rparr>)"
proof (cases "ce_Inspect v cid")
  case (Inl err)
  then show ?thesis by (auto simp: collect_one_def cid_sets_def)
next
  case (Inr c)
  show ?thesis
    by (cases "ruleMatch (ce_compile v) (ce_rules v) b (cj_Config c)"; cases "ce_Stats v cid")
      (auto simp: collect_one_def cid_sets_def Inr stats_loop_sets [OF assms])
qed

text \<open>A sequential collection is the settings of its containers one after the other.\<close>

fun seq_sets :: "collect_env \<Rightarrow> Beacon \<Rightarrow> string list \<Rightarrow> (string \<times> gauge_write) list res" where
  "seq_sets v b [] = Ok []"
| "seq_sets v b (cid # cids) =
     res_bind (cid_sets v b cid) (\<lambda>ws.
       res_bind (seq_sets v b cids) (\<lambda>log. Ok (map (Pair cid) ws @ log)))"

lemma collect_all_sets:
  assumes "prometheus_backend b"
  shows "collect_all v b ms w = Ok w' \<longleftrightarrow>
    (\<exists>log. seq_sets v b (map fst ms) = Ok log \<and> w' = w\<lparr>bw_samples := set_samples (map snd log) (bw_samples w)\<rparr>)"
proof (induction ms arbitrary: w)
  case Nil
  then show ?case by auto
next
  case (Cons m ms)
  show ?case
    by (cases "cid_sets v b (fst m)"; cases "seq_sets v b (map fst ms)")
      (auto simp: go_res collect_one_sets [OF assms] Cons comp_def)
qed

text \<open>What is left to a worker; a report to Prometheus has no batches.\<close>

primrec wk_left :: "collect_env \<Rightarrow> Beacon \<Rightarrow> bm_worker \<Rightarrow> gauge_write list res" where
  "wk_left v b (WkStart cid) = cid_sets v b cid"
| "wk_left v b (WkLines cid ls) = lines_sets (ce_stats_env v) cid ls"
| "wk_left v b (WkWrites cid ws ls) =
     (if list_all write_ok ws then res_bind (lines_sets (ce_stats_env v) cid ls) (\<lambda>us. Ok (ws @ us))
      else Panic ''inconsistent labels'')"
| "wk_left v b (WkBatches cid bs ls) = Err ''no batches''"

lemma gauge_set_ok: "write_ok (g, labels, x) \<Longrightarrow>
    gauge_set g labels x reg = Ok (gm_set (write_key (g, labels, x)) (write_val (g, labels, x)) reg)"
  by (simp add: write_ok_def gauge_set_def gauge_key_def write_key_def write_val_def)

definition left_opt :: "collect_env \<Rightarrow> Beacon \<Rightarrow> bm_worker option \<Rightarrow> gauge_write list res" where
  "left_opt v b wk = (case wk of None \<Rightarrow> Ok [] | Some wk \<Rightarrow> wk_left v b wk)"

lemma left_opt_simps [simp]: "left_opt v b None = Ok []" "left_opt v b (Some wk) = wk_left v b wk"
  by (simp_all add: left_opt_def)

lemma wk_step_left:
  assumes "prometheus_backend b" and "wk_left v b wk = Ok ws"
  shows "\<exists>wk' ws'. wk_step v b wk w = Ok (wk', w\<lparr>bw_samples := set_samples (wk_sets wk) (bw_samples w)\<rparr>)
    \<and> left_opt v b wk' = Ok ws' \<and> ws = wk_sets wk @ ws' \<and> (\<forall>wk''. wk' = Some wk'' \<longrightarrow> wk_id wk'' = wk_id wk)"
  using assms
proof (induction v b wk w rule: wk_step.induct)
  case (1 v b cid w)
  show ?case
  proof (cases "ce_Inspect v cid")
    case (Inl err)
    with 1 show ?thesis by (simp add: cid_sets_def)
  next
    case (Inr c)
    with 1 obtain m where "ruleMatch (ce_compile v) (ce_rules v) b (cj_Config c) = Ok m"
      by (auto simp: cid_sets_def go_res)
    with 1 Inr show ?thesis
      by (cases m; cases "ce_Stats v cid") (simp_all add: cid_sets_def)
  qed
next
  case (3 v b cid l ls w)
  show ?case
  proof (cases l)
    case (Inl err)
    with 3 show ?thesis by simp
  next
    case (Inr stats)
    with 3 obtain s where "mk_stat (ce_stats_env v) cid stats = Ok s" by (auto simp: go_res)
    with 3 Inr show ?thesis
      by (cases s) (auto simp: go_res prometheus_backend_def prometheus_writes_ok)
  qed
next
  case (5 v b cid g ws' ls w)
  then show ?case
    by (cases g) (auto simp: go_res gauge_set_ok split: if_splits)
qed (auto simp: go_res)

section \<open>Orders of the settings\<close>

text \<open>The settings of one container within those of a collection.\<close>

definition proj :: "string \<Rightarrow> (string \<times> gauge_write) list \<Rightarrow> gauge_write list" where
  "proj cid log = map snd (filter (\<lambda>e. fst e = cid) log)"

lemma proj_simps [simp]:
  "proj cid [] = []"
  "proj cid (e # log) = (if fst e = cid then snd e # proj cid log else proj cid log)"
  "proj cid (log @ log') = proj cid log @ proj cid log'"
  by (simp_all add: proj_def)

lemma proj_Pair [simp]: "proj cid (map (Pair cid') ws) = (if cid' = cid then ws else [])"
  by (induction ws) auto

lemma proj_outside: "cid \<notin> fst ` set log \<Longrightarrow> proj cid log = []"
  by (induction log) auto

lemma set_proj: "g \<in> set (proj cid log) \<longleftrightarrow> (cid, g) \<in> set log"
  by (force simp: proj_def)

definition last_set :: "gauge_write list \<Rightarrow> sample_key \<Rightarrow> sample option" where
  "last_set ws k = map_of (rev (map write_sample ws)) k"

lemma set_samples_get:
  "gm_get (set_samples ws reg) k = (case last_set ws k of None \<Rightarrow> gm_get reg k | Some v \<Rightarrow> Some v)"
  by (simp add: set_samples_def last_set_def fold_set_get)

lemma last_set_snoc [simp]:
  "last_set [] k = None"
  "last_set (ws @ [g]) k = (if write_key g = k then Some (write_val g) else last_set ws k)"
  by (simp_all add: last_set_def)

lemma last_set_in: "last_set ws k = Some v \<Longrightarrow> \<exists>g \<in> set ws. write_key g = k \<and> write_val g = v"
  by (induction ws rule: rev_induct) (auto split: if_splits)

lemma last_set_None: "last_set ws k = None \<longleftrightarrow> (\<forall>g \<in> set ws. write_key g \<noteq> k)"
  by (induction ws rule: rev_induct) auto

text \<open>The last setting of a sample is the last one of some container.\<close>

lemma last_set_proj: "last_set (map snd log) k = Some v \<Longrightarrow> \<exists>cid. last_set (proj cid log) k = Some v"
proof (induction log rule: rev_induct)
  case Nil
  then show ?case by simp
next
  case (snoc e log)
  show ?case
  proof (cases "write_key (snd e) = k")
    case True
    with snoc.prems show ?thesis by (intro exI [of _ "fst e"]) simp
  next
    case False
    with snoc show ?thesis by auto
  qed
qed

definition settings_agree :: "(string \<times> gauge_write) set \<Rightarrow> bool" where
  "settings_agree S \<longleftrightarrow> (\<forall>cid g cid' g'. (cid, g) \<in> S \<longrightarrow> (cid', g') \<in> S \<longrightarrow> cid \<noteq> cid'
     \<longrightarrow> write_key g = write_key g' \<longrightarrow> write_val g = write_val g')"

text \<open>
  Two orders of the same settings, in which each container's settings keep their order, give the same
  samples when different containers agree where they set the same sample.
\<close>

lemma orders_agree:
  assumes same: "\<And>cid. proj cid log = proj cid log'" and agree: "settings_agree (set log)"
  shows "last_set (map snd log) k = last_set (map snd log') k"
proof (cases "last_set (map snd log) k")
  case None
  have "(cid, g) \<in> set log \<longleftrightarrow> (cid, g) \<in> set log'" for cid g
    using same [of cid] by (simp add: set_proj [symmetric])
  then have "set log = set log'" by auto
  with None have "last_set (map snd log') k = None" by (simp add: last_set_None)
  with None show ?thesis by simp
next
  case (Some v)
  then obtain cid where c: "last_set (proj cid log) k = Some v" using last_set_proj by blast
  then obtain g where g: "(cid, g) \<in> set log" "write_key g = k" "write_val g = v"
    using last_set_in by (metis set_proj)
  then have "(cid, g) \<in> set log'" using same by (metis set_proj)
  then have "snd (cid, g) \<in> set (map snd log')" by (auto simp: image_iff intro!: bexI)
  with g(2) have "last_set (map snd log') k \<noteq> None" by (auto simp: last_set_None)
  then obtain v' where v': "last_set (map snd log') k = Some v'" by blast
  then obtain cid' where c': "last_set (proj cid' log) k = Some v'" using last_set_proj same by metis
  then obtain g' where "(cid', g') \<in> set log" "write_key g' = k" "write_val g' = v'"
    using last_set_in by (metis set_proj)
  with g agree have "cid \<noteq> cid' \<Longrightarrow> v = v'" unfolding settings_agree_def by metis
  with c c' Some v' show ?thesis by (cases "cid = cid'") auto
qed

text \<open>Containers with different short ids agree: they share only the totals.\<close>

definition total_samples :: "stat \<Rightarrow> (sample_key \<times> sample) list" where
  "total_samples s =
     [((gv_fqName counterTotalContainers, [''totals'']), OfInt (st_NumContainers s)),
      ((gv_fqName counterTotalImages, [''totals'']), OfInt (st_NumImages s)),
      ((gv_fqName counterTotalNetworks, [''totals'']), OfInt (st_NumNetworks s)),
      ((gv_fqName counterTotalVolumes, [''totals'']), OfInt (st_NumVolumes s))]"

lemma mk_stat_totals:
  assumes "mk_stat v cid stats = Ok (Some s)"
  shows "\<exists>cs n m k. se_ContainerList v = Inr cs \<and> se_ImageList v = Inr n \<and> se_VolumeList v = Inr m
    \<and> se_NetworkList v = Inr k \<and> st_NumContainers s = int (length cs) \<and> st_NumImages s = int n
    \<and> st_NumVolumes s = int m \<and> st_NumNetworks s = int k"
  using assms
  by (cases "se_ContainerList v"; cases "se_ImageList v"; cases "se_VolumeList v"; cases "se_NetworkList v")
    (auto simp: mk_stat_def Let_def go_res split: sum.splits)

lemma mk_stat_same_totals:
  assumes "mk_stat v cid stats = Ok (Some s)" and "mk_stat v cid' stats' = Ok (Some s')"
  shows "total_samples s = total_samples s'"
  using mk_stat_totals [OF assms(1)] mk_stat_totals [OF assms(2)] by (auto simp: total_samples_def)

lemma totals_first:
  assumes "(k, x) \<in> set (container_samples s) \<union> (\<Union>(net, ns) \<in> set (st_Networks s). set (network_samples s net ns))"
    and "snd k = [''totals'']"
  shows "(k, x) \<in> set (total_samples s)"
proof -
  have "(k, x) \<notin> set (network_samples s net ns)" for net ns
    using assms(2) by (auto simp: network_samples_def)
  with assms(1) have "(k, x) \<in> set (container_samples s)" by blast
  then have "k = (fst k, [''totals'']) \<Longrightarrow> (k, x) \<in> set (total_samples s)"
    unfolding container_samples_def total_samples_def list.set insert_iff empty_iff prod.inject
    by (elim disjE conjE) simp_all
  with assms(2) show ?thesis by (metis prod.collapse)
qed

lemma total_samples_distinct: "distinct (map fst (total_samples s))"
  using container_names [of s] by (simp add: total_samples_def container_samples_def)

lemma container_sets_agree:
  assumes "mk_stat v cid stats = Ok (Some s)" and "g \<in> set (prometheus_writes (se_ord v) s)"
    and "mk_stat v cid' stats' = Ok (Some s')" and "g' \<in> set (prometheus_writes (se_ord v) s')"
    and "take 12 cid \<noteq> take 12 cid'" and "write_key g = write_key g'"
  shows "write_val g = write_val g'"
proof -
  have s: "write_sample g \<in> set (container_samples s) \<union> (\<Union>(net, ns) \<in> set (st_Networks s). set (network_samples s net ns))"
    using imageI [OF assms(2), of write_sample] unfolding prometheus_writes_samples .
  have s': "write_sample g' \<in> set (container_samples s') \<union> (\<Union>(net, ns) \<in> set (st_Networks s'). set (network_samples s' net ns))"
    using imageI [OF assms(4), of write_sample] unfolding prometheus_writes_samples .
  have t: "snd (write_key g) = [''totals'']"
    using sample_owner [OF s] sample_owner [OF s'] assms(5,6) mk_stat_ID [OF assms(1)] mk_stat_ID [OF assms(3)]
    by auto
  have "write_sample g \<in> set (total_samples s')"
    using totals_first [OF s t] mk_stat_same_totals [OF assms(1,3)] by simp
  moreover have "(write_key g, write_val g') \<in> set (total_samples s')"
    using totals_first [OF s'] t assms(6) by simp
  ultimately show ?thesis using total_samples_distinct [of s'] by (metis map_of_is_SomeI option.inject)
qed

lemma lines_sets_from:
  "lines_sets v cid ls = Ok ws \<Longrightarrow> g \<in> set ws
    \<Longrightarrow> \<exists>stats s. mk_stat v cid stats = Ok (Some s) \<and> g \<in> set (prometheus_writes (se_ord v) s)"
proof (induction v cid ls arbitrary: ws rule: lines_sets.induct)
  case (3 v cid stats ls)
  then obtain s ws' where s: "mk_stat v cid stats = Ok s" "lines_sets v cid ls = Ok ws'"
    "ws = (case s of None \<Rightarrow> [] | Some s \<Rightarrow> prometheus_writes (se_ord v) s) @ ws'"
    by (auto simp: go_res)
  with 3 show ?case by (cases s) auto
qed auto

lemma cid_sets_lines:
  assumes "cid_sets v b cid = Ok ws"
  shows "ws = [] \<or> (\<exists>ls. lines_sets (ce_stats_env v) cid ls = Ok ws)"
proof (cases "ce_Inspect v cid")
  case (Inl err)
  with assms show ?thesis by (simp add: cid_sets_def)
next
  case (Inr c)
  with assms obtain m where "ruleMatch (ce_compile v) (ce_rules v) b (cj_Config c) = Ok m"
    by (auto simp: cid_sets_def go_res)
  with assms Inr show ?thesis
    by (cases m; cases "ce_Stats v cid") (auto simp: cid_sets_def)
qed

lemma cid_sets_from:
  assumes "cid_sets v b cid = Ok ws" and "g \<in> set ws"
  shows "\<exists>stats s. mk_stat (ce_stats_env v) cid stats = Ok (Some s)
    \<and> g \<in> set (prometheus_writes (se_ord (ce_stats_env v)) s)"
proof -
  obtain ls where "lines_sets (ce_stats_env v) cid ls = Ok ws"
    using cid_sets_lines [OF assms(1)] assms(2) by (metis empty_iff empty_set)
  from lines_sets_from [OF this assms(2)] show ?thesis .
qed

lemma cid_sets_agree:
  assumes "inj_on (take 12) ids"
    and "\<And>cid g. (cid, g) \<in> S \<Longrightarrow> cid \<in> ids \<and> (\<exists>ws. cid_sets v b cid = Ok ws \<and> g \<in> set ws)"
  shows "settings_agree S"
  unfolding settings_agree_def
proof (intro allI impI)
  fix cid g cid' g'
  assume "(cid, g) \<in> S" and "(cid', g') \<in> S" and n: "cid \<noteq> cid'" and k: "write_key g = write_key g'"
  with assms(2) obtain ws ws' where c: "cid \<in> ids" "cid' \<in> ids"
    "cid_sets v b cid = Ok ws" "g \<in> set ws" "cid_sets v b cid' = Ok ws'" "g' \<in> set ws'"
    by blast
  from c(1,2) n assms(1) have "take 12 cid \<noteq> take 12 cid'" by (auto dest: inj_onD)
  with cid_sets_from [OF c(3,4)] cid_sets_from [OF c(5,6)] k show "write_val g = write_val g'"
    using container_sets_agree by blast
qed

section \<open>One collection\<close>

text \<open>
  A collection that has started the workers of \<open>seen\<close>, without events since its tick: the gauges hold
  the logged settings, and for each container the logged settings and those that are left to its
  worker are the ones it should make.
\<close>

definition collecting :: "collect_env \<Rightarrow> Beacon \<Rightarrow> samples \<Rightarrow> string set \<Rightarrow> bm_state \<Rightarrow> bool" where
  "collecting v b reg seen s \<longleftrightarrow>
     bm_env s = v \<and> bm_beacon s = b \<and> \<not> bm_panic s \<and> bm_resetting s = []
   \<and> seen \<subseteq> gm_keys (bn_monitored b)
   \<and> distinct (map wk_id (bm_workers s)) \<and> wk_id ` set (bm_workers s) \<subseteq> seen
   \<and> bw_samples (bm_world s) = set_samples (map snd (bm_log s)) reg
   \<and> (\<forall>wk \<in> set (bm_workers s). \<exists>ws. wk_left v b wk = Ok ws
        \<and> cid_sets v b (wk_id wk) = Ok (proj (wk_id wk) (bm_log s) @ ws))
   \<and> (\<forall>cid \<in> seen - wk_id ` set (bm_workers s). cid_sets v b cid = Ok (proj cid (bm_log s)))
   \<and> (\<forall>cid. cid \<notin> seen \<longrightarrow> proj cid (bm_log s) = [])
   \<and> (case bm_ticker s of
        TkRange must sn \<Rightarrow> set sn = seen \<and> set must = gm_keys (bn_monitored b) - seen
      | TkWait \<Rightarrow> seen = gm_keys (bn_monitored b)
      | _ \<Rightarrow> seen = gm_keys (bn_monitored b) \<and> bm_workers s = [])"

lemma collecting_tick:
  assumes "bm_do (BTick v) s = Some s'" and "bm_workers s = []" and "bm_resetting s = []"
  shows "collecting v (bm_beacon s) (bw_samples (bm_world s)) {} s'"
  using assms by (auto simp: bm_do_def collecting_def gm_keys_def split: if_splits)

lemma collecting_range:
  assumes "collecting v b reg seen s" and "bm_do (BRange cid) s = Some s'"
    and "cid_sets v b cid = Ok ws"
  shows "collecting v b reg (insert cid seen) s'"
proof -
  from assms(1,2) obtain must sn where t: "bm_ticker s = TkRange must sn"
    "cid \<in> gm_keys (bn_monitored b)" "cid \<notin> seen"
    and s': "s' = s\<lparr>bm_ticker := TkRange (removeAll cid must) (cid # sn),
      bm_workers := bm_workers s @ [WkStart cid]\<rparr>"
    by (auto simp: bm_do_def collecting_def gm_keys_def split: bm_ticker.splits if_splits)
  with assms(1,3) show ?thesis by (auto simp: collecting_def)
qed

lemma bm_workE:
  assumes "bm_do (BWork i) s = Some s'" and "prometheus_backend (bm_beacon s)"
    and "\<forall>wk \<in> set (bm_workers s). \<exists>ws. wk_left (bm_env s) (bm_beacon s) wk = Ok ws"
  obtains as wk bs wk' ws where "bm_workers s = as @ wk # bs"
    and "wk_left (bm_env s) (bm_beacon s) wk = Ok (wk_sets wk @ ws)" and "left_opt (bm_env s) (bm_beacon s) wk' = Ok ws"
    and "\<forall>wk''. wk' = Some wk'' \<longrightarrow> wk_id wk'' = wk_id wk"
    and "s' = s\<lparr>bm_workers := as @ (case wk' of None \<Rightarrow> [] | Some wk \<Rightarrow> [wk]) @ bs,
      bm_world := (bm_world s)\<lparr>bw_samples := set_samples (wk_sets wk) (bw_samples (bm_world s))\<rparr>,
      bm_log := bm_log s @ map (Pair (wk_id wk)) (wk_sets wk)\<rparr>"
proof -
  let ?wk = "bm_workers s ! i"
  from assms(1) have i: "i < length (bm_workers s)" and s': "s' = bm_work i s"
    by (auto simp: bm_do_def split: if_splits)
  have split: "bm_workers s = take i (bm_workers s) @ ?wk # drop (Suc i) (bm_workers s)"
    by (rule id_take_nth_drop [OF i])
  from assms(3) i obtain ws where "wk_left (bm_env s) (bm_beacon s) ?wk = Ok ws" by fastforce
  from wk_step_left [OF assms(2) this, of "bm_world s"] this obtain wk' ws' where
    st: "wk_step (bm_env s) (bm_beacon s) ?wk (bm_world s)
      = Ok (wk', (bm_world s)\<lparr>bw_samples := set_samples (wk_sets ?wk) (bw_samples (bm_world s))\<rparr>)"
    and l: "wk_left (bm_env s) (bm_beacon s) ?wk = Ok (wk_sets ?wk @ ws')"
      "left_opt (bm_env s) (bm_beacon s) wk' = Ok ws'" "\<forall>wk''. wk' = Some wk'' \<longrightarrow> wk_id wk'' = wk_id ?wk"
    by (elim exE conjE) simp
  show thesis
  proof (rule that [OF split l])
    show "s' = s\<lparr>bm_workers := take i (bm_workers s) @ (case wk' of None \<Rightarrow> [] | Some wk \<Rightarrow> [wk]) @ drop (Suc i) (bm_workers s),
      bm_world := (bm_world s)\<lparr>bw_samples := set_samples (wk_sets ?wk) (bw_samples (bm_world s))\<rparr>,
      bm_log := bm_log s @ map (Pair (wk_id ?wk)) (wk_sets ?wk)\<rparr>"
    proof (cases wk')
      case None
      from st None have "wk_sets ?wk = []" by (cases ?wk rule: wk_sets.cases) (auto simp: go_res split: prod.splits)
      with st None s' show ?thesis by (simp add: bm_work_def)
    next
      case (Some wk'')
      with st s' i show ?thesis by (simp add: bm_work_def upd_conv_take_nth_drop Let_def)
    qed
  qed
qed

lemma collecting_work:
  assumes c: "collecting v b reg seen s" and "bm_do (BWork i) s = Some s'" and "prometheus_backend b"
  shows "collecting v b reg seen s'"
proof -
  from c have v: "bm_env s = v" "bm_beacon s = b"
    and left: "\<forall>wk \<in> set (bm_workers s). \<exists>ws. wk_left (bm_env s) (bm_beacon s) wk = Ok ws"
    by (auto simp: collecting_def)
  with assms(2,3) obtain as wk bs wk' ws where w: "bm_workers s = as @ wk # bs"
    and l: "wk_left v b wk = Ok (wk_sets wk @ ws)" "left_opt v b wk' = Ok ws"
      "\<forall>wk''. wk' = Some wk'' \<longrightarrow> wk_id wk'' = wk_id wk"
    and s': "s' = s\<lparr>bm_workers := as @ (case wk' of None \<Rightarrow> [] | Some wk \<Rightarrow> [wk]) @ bs,
      bm_world := (bm_world s)\<lparr>bw_samples := set_samples (wk_sets wk) (bw_samples (bm_world s))\<rparr>,
      bm_log := bm_log s @ map (Pair (wk_id wk)) (wk_sets wk)\<rparr>"
    by (elim bm_workE) auto
  show ?thesis
  proof (cases wk')
    case None
    with c l w s' show ?thesis
      by (auto simp: collecting_def comp_def split: bm_ticker.splits)
  next
    case (Some wk'')
    with c l w s' show ?thesis
      by (auto simp: collecting_def comp_def split: bm_ticker.splits)
  qed
qed

lemma collecting_step:
  assumes c: "collecting v b reg seen s" and d: "bm_do l s = Some s'" and "bm_quiet l" and p: "prometheus_backend b"
    and all: "\<forall>cid \<in> gm_keys (bn_monitored b). \<exists>ws. cid_sets v b cid = Ok ws"
  shows "\<exists>seen'. collecting v b reg seen' s'"
proof (cases l)
  case (BRange cid)
  with c d have "cid \<in> gm_keys (bn_monitored b)"
    by (auto simp: bm_do_def collecting_def gm_keys_def split: bm_ticker.splits if_splits)
  with all obtain ws where "cid_sets v b cid = Ok ws" by blast
  from collecting_range [OF c _ this] d BRange show ?thesis by blast
next
  case BRangeEnd
  with c d have "collecting v b reg seen s'"
    by (auto simp: bm_do_def collecting_def split: bm_ticker.splits list.splits if_splits)
  then show ?thesis ..
next
  case (BWork i)
  with collecting_work [OF c _ p] d show ?thesis by blast
next
  case BWaited
  with c d have "collecting v b reg seen s'"
    by (auto simp: bm_do_def collecting_def split: if_splits)
  then show ?thesis ..
next
  case BPush
  with c d have "collecting v b reg seen s'"
    by (auto simp: bm_do_def collecting_def split: if_splits)
  then show ?thesis ..
next
  case BReset
  with c d show ?thesis by (simp add: bm_do_def collecting_def split: if_splits)
qed (use assms(3) in simp_all)

lemma collecting_run:
  assumes "bm_run s\<^sub>1 ls s'" and "list_all bm_quiet ls" and "collecting v b reg seen s\<^sub>1" and "prometheus_backend b"
    and "\<forall>cid \<in> gm_keys (bn_monitored b). \<exists>ws. cid_sets v b cid = Ok ws"
  shows "\<exists>seen'. collecting v b reg seen' s'"
  using assms(1,2)
proof (induction rule: bm_run.induct)
  case bm_start
  with assms(3) show ?case by blast
next
  case (bm_step ls s l s')
  then obtain seen' where "collecting v b reg seen' s" by auto
  from collecting_step [OF this bm_step.hyps(2) _ assms(4,5)] bm_step.prems show ?case by simp
qed

lemma seq_sets_proj:
  "seq_sets v b cids = Ok log \<Longrightarrow> distinct cids
    \<Longrightarrow> (\<forall>cid \<in> set cids. cid_sets v b cid = Ok (proj cid log)) \<and> (\<forall>cid. cid \<notin> set cids \<longrightarrow> proj cid log = [])"
proof (induction cids arbitrary: log)
  case Nil
  then show ?case by simp
next
  case (Cons c cids)
  then obtain ws log' where "cid_sets v b c = Ok ws" "seq_sets v b cids = Ok log'" "log = map (Pair c) ws @ log'"
    by (auto simp: go_res)
  with Cons.IH [of log'] Cons.prems(2) show ?case by auto
qed

section \<open>Invariants of every run\<close>

definition bm_inv :: "ext_config \<Rightarrow> bm_state \<Rightarrow> bool" where
  "bm_inv c s \<longleftrightarrow> gm_wf (bn_monitored (bm_beacon s)) \<and> bn_cfg (bm_beacon s) = c
   \<and> (bm_ticker s = TkIdle \<or> bm_ticker s = TkPush \<longrightarrow> bm_workers s = [])
   \<and> (\<forall>must seen. bm_ticker s = TkRange must seen \<longrightarrow>
        set must \<subseteq> gm_keys (bn_monitored (bm_beacon s)) - set seen)"

lemma gm_wf_del: "gm_wf m \<Longrightarrow> gm_wf (gm_del k m)"
  by (simp add: gm_wf_def distinct_delete)

lemma gm_wf_fold_set: "gm_wf m \<Longrightarrow> gm_wf (fold (\<lambda>c. gm_set (f c) v) cs m)"
  by (induction cs arbitrary: m) (simp_all add: gm_wf_set)

lemma bn_HandleEvent_wf:
  "gm_wf (bn_monitored b) \<Longrightarrow> gm_wf (bn_monitored (fst (fst (bn_HandleEvent cs e b reg))))"
  by (simp add: bn_HandleEvent_def gm_wf_set gm_wf_del gm_wf_fold_set split: sum.split)

lemma bn_HandleEvent_cfg: "bn_cfg (fst (fst (bn_HandleEvent cs e b reg))) = bn_cfg b"
  by (simp add: bn_HandleEvent_def split: sum.split)

lemma bn_HandleEvent_keys:
  "\<not> ends_container e \<Longrightarrow> gm_keys (bn_monitored b) \<subseteq> gm_keys (bn_monitored (fst (fst (bn_HandleEvent cs e b reg))))"
  "ends_container e \<Longrightarrow>
    gm_keys (bn_monitored (fst (fst (bn_HandleEvent cs e b reg)))) = gm_keys (bn_monitored b) - {em_ID e}"
  unfolding bn_HandleEvent_monitors ends_container_def monitor_step_def
  by (auto split: sum.split)

lemma bm_event_inv:
  assumes "bm_inv c s"
  shows "bm_inv c (bm_event cs e s)"
proof (cases "ends_container e")
  case True
  with assms show ?thesis
    by (cases "bm_ticker s")
      (auto simp: bm_inv_def bm_event_def bn_HandleEvent_wf bn_HandleEvent_cfg bn_HandleEvent_keys(2))
next
  case False
  from bn_HandleEvent_keys(1) [OF this] False assms show ?thesis
    by (fastforce simp: bm_inv_def bm_event_def bn_HandleEvent_wf bn_HandleEvent_cfg)
qed

lemma bm_work_frame [simp]:
  "bm_beacon (bm_work i s) = bm_beacon s" "bm_ticker (bm_work i s) = bm_ticker s"
  "bm_resetting (bm_work i s) = bm_resetting s" "bm_env (bm_work i s) = bm_env s"
  "bm_pushed (bm_work i s) = bm_pushed s"
  by (simp_all add: bm_work_def Let_def split: res.split prod.split option.split)

lemma bm_step_inv:
  assumes "bm_inv c s" and "bm_do l s = Some s'"
  shows "bm_inv c s'"
proof (cases l)
  case (BWork i)
  with assms have "s' = bm_work i s" "i < length (bm_workers s)" by (auto simp: bm_do_def split: if_splits)
  with assms(1) show ?thesis by (auto simp: bm_inv_def)
next
  case (BRange cid)
  with assms(2) obtain must seen where "bm_ticker s = TkRange must seen"
    "s' = s\<lparr>bm_ticker := TkRange (removeAll cid must) (cid # seen), bm_workers := bm_workers s @ [WkStart cid]\<rparr>"
    by (auto simp: bm_do_def split: if_splits bm_ticker.splits)
  with assms(1) show ?thesis unfolding bm_inv_def by fastforce
next
  case (BEvent cs e)
  with assms bm_event_inv show ?thesis by (auto simp: bm_do_def split: if_splits)
qed (use assms in \<open>auto simp: bm_do_def bm_inv_def gm_keys_def split: if_splits bm_ticker.splits list.splits\<close>)

lemma bm_run_inv: "bm_run s\<^sub>0 ls s \<Longrightarrow> bm_inv c s\<^sub>0 \<Longrightarrow> bm_inv c s"
  by (induction rule: bm_run.induct) (auto intro: bm_step_inv)

lemma NewBeacon_inv:
  assumes "NewBeacon containerID ParseDuration c = Ok b"
  shows "bm_inv (bn_cfg b) (bm_init v b) \<and> StatsBackendType (bn_cfg b) = StatsBackendType c"
  using assms
  by (cases containerID; cases "ParseDuration (StatsInterval c)")
    (auto simp: NewBeacon_def bm_inv_def bm_init_def split: if_splits)

section \<open>A collection does not depend on the interleaving\<close>

text \<open>C18: let a tick start a collection with the Prometheus backend, at a
  moment without a reset in progress, and let the collection of the monitored containers one after the
  other, in some order, succeed. If no event arrives, then no interleaving of the ticker and the workers
  panics, and once the workers are waited for, every sample is the one that the collection one after
  the other gives. The ids of the monitored containers are to differ in their first twelve characters.\<close>

theorem collection_interleavings_agree:
  assumes "NewBeacon containerID ParseDuration c = Ok b" and "StatsBackendType c = ''prometheus''"
    and "bm_run (bm_init v\<^sub>0 b) ls\<^sub>0 s" and "bm_resetting s = []" and "bm_do (BTick v) s = Some s\<^sub>1"
    and "bm_run s\<^sub>1 ls s'" and "list_all bm_quiet ls"
    and "inj_on (take 12) (gm_keys (bn_monitored (bm_beacon s)))"
    and "collectStats v ord (bm_beacon s) (bm_world s) = Ok w'"
  shows "\<not> bm_panic s' \<and> (bm_ticker s' \<in> {TkPush, TkIdle} \<longrightarrow>
    (\<forall>k. gm_get (bw_samples (bm_world s')) k = gm_get (bw_samples w') k))"
proof -
  let ?b = "bm_beacon s" and ?reg = "bw_samples (bm_world s)"
  let ?ids = "map fst (go_range ord (bn_monitored ?b))"
  from NewBeacon_inv [OF assms(1), of v\<^sub>0] bm_run_inv [OF assms(3)]
  have inv: "bm_inv (bn_cfg b) s" and cfg: "StatsBackendType (bn_cfg b) = StatsBackendType c" by auto
  then have p: "prometheus_backend ?b" by (simp add: bm_inv_def prometheus_backend_def assms(2))
  from inv assms(5) have w: "bm_workers s = []" by (auto simp: bm_inv_def bm_do_def split: if_splits)
  have ids: "set ?ids = gm_keys (bn_monitored ?b)" "distinct ?ids"
    using inv by (simp_all add: gm_keys_def bm_inv_def gm_wf_def)
  from assms(9) obtain log where log: "seq_sets v ?b ?ids = Ok log"
    "w' = (bm_world s)\<lparr>bw_samples := set_samples (map snd log) ?reg\<rparr>"
    unfolding collectStats_def collect_all_sets [OF p] by blast
  from seq_sets_proj [OF log(1) ids(2)]
  have seq: "\<forall>cid \<in> gm_keys (bn_monitored ?b). cid_sets v ?b cid = Ok (proj cid log)"
    "\<forall>cid. cid \<notin> gm_keys (bn_monitored ?b) \<longrightarrow> proj cid log = []"
    unfolding ids(1) by (rule conjunct1, elim conjE)
  from seq(1) have all: "\<forall>cid \<in> gm_keys (bn_monitored ?b). \<exists>ws. cid_sets v ?b cid = Ok ws" by blast
  obtain seen where c: "collecting v ?b ?reg seen s'"
    using collecting_run [OF assms(6,7) collecting_tick [OF assms(5) w assms(4)] p all] by blast
  have "gm_get (bw_samples (bm_world s')) k = gm_get (bw_samples w') k" if "bm_ticker s' \<in> {TkPush, TkIdle}" for k
  proof -
    from that c have "proj cid (bm_log s') = proj cid log" for cid
      using seq by (cases "cid \<in> gm_keys (bn_monitored ?b)") (auto simp: collecting_def)
    moreover have "settings_agree (set (bm_log s'))"
    proof (rule cid_sets_agree [OF assms(8)])
      fix cid g assume "(cid, g) \<in> set (bm_log s')"
      then have "g \<in> set (proj cid log)" using calculation by (simp add: set_proj [symmetric])
      with seq show "cid \<in> gm_keys (bn_monitored ?b) \<and> (\<exists>ws. cid_sets v ?b cid = Ok ws \<and> g \<in> set ws)"
        by (metis empty_iff empty_set)
    qed
    ultimately have "last_set (map snd (bm_log s')) k = last_set (map snd log) k" by (rule orders_agree)
    with c log(2) show ?thesis by (simp add: collecting_def set_samples_get)
  qed
  with c show ?thesis by (simp add: collecting_def)
qed

definition prometheus_config :: ext_config where
  "prometheus_config = (fleet_ext_config ''beacon'')\<lparr>StatsBackendType := ''prometheus'', StatsInterval := ''5s'',
     StatsPrometheusPushGatewayURL := [], Rules := [(''web'', \<lparr>Rule_Type = ''image'', Rule_Regex = ''web:1''\<rparr>)]\<rparr>"

definition two_collect :: collect_env where
  "two_collect = sample_collect\<lparr>ce_Inspect := (\<lambda>_. Inr web1)\<rparr>"

definition start_event :: "string \<Rightarrow> bm_label" where
  "start_event cid = BEvent (Inr []) \<lparr>em_Status = ''start'', em_ID = cid, em_Type = ''container'',
     em_Action = ''start'', em_Attributes = []\<rparr>"

definition metrics_beacon :: Beacon where
  "metrics_beacon = \<lparr>bn_cfg = prometheus_config\<lparr>ConfigBasePath := ''/etc/conf''\<rparr>, bn_monitored = []\<rparr>"

lemma metrics_beacon: "NewBeacon (Ok ''nodeA'') (\<lambda>_. Inr 5) prometheus_config = Ok metrics_beacon"
  by code_simp

definition two_started :: "bm_label list" where
  "two_started = [start_event ''web1web1web1'', start_event ''web2web2web2'']"

definition alternating :: "bm_label list" where
  "alternating = [BRange ''web2web2web2'', BWork 0, BRange ''web1web1web1'', BRangeEnd, BWork 1]
     @ concat (replicate 10 [BWork 0, BWork 1]) @ [BWork 0, BWork 0, BWaited]"

theorem collection_interleavings_agree_witness:
  "\<exists>s s\<^sub>1 s' w'. bm_run (bm_init two_collect metrics_beacon) two_started s \<and> bm_do (BTick two_collect) s = Some s\<^sub>1
    \<and> bm_run s\<^sub>1 alternating s' \<and> bm_ticker s' = TkIdle
    \<and> collectStats two_collect (\<lambda>_. 0) (bm_beacon s) (bm_world s) = Ok w'
    \<and> (\<forall>k. gm_get (bw_samples (bm_world s')) k = gm_get (bw_samples w') k)"
proof -
  have "case bm_path two_started (bm_init two_collect metrics_beacon) of None \<Rightarrow> False | Some s \<Rightarrow>
      bm_resetting s = [] \<and> map fst (bn_monitored (bm_beacon s)) = [''web1web1web1'', ''web2web2web2'']
      \<and> is_ok (collectStats two_collect (\<lambda>_. 0) (bm_beacon s) (bm_world s))
      \<and> (case bm_do (BTick two_collect) s of None \<Rightarrow> False | Some s\<^sub>1 \<Rightarrow>
          (case bm_path alternating s\<^sub>1 of None \<Rightarrow> False | Some s' \<Rightarrow> bm_ticker s' = TkIdle))"
    by code_simp
  then obtain s s\<^sub>1 s' where s: "bm_path two_started (bm_init two_collect metrics_beacon) = Some s"
      "bm_resetting s = []" "map fst (bn_monitored (bm_beacon s)) = [''web1web1web1'', ''web2web2web2'']"
      "is_ok (collectStats two_collect (\<lambda>_. 0) (bm_beacon s) (bm_world s))"
      "bm_do (BTick two_collect) s = Some s\<^sub>1" "bm_path alternating s\<^sub>1 = Some s'" "bm_ticker s' = TkIdle"
    by (auto split: option.splits)
  from s(4) obtain w' where w: "collectStats two_collect (\<lambda>_. 0) (bm_beacon s) (bm_world s) = Ok w'" by (rule is_okE)
  have "gm_keys (bn_monitored (bm_beacon s)) = set (map fst (bn_monitored (bm_beacon s)))" by (simp add: gm_keys_def)
  then have i: "inj_on (take 12) (gm_keys (bn_monitored (bm_beacon s)))" unfolding s(3) by simp
  have "StatsBackendType prometheus_config = ''prometheus''" by (simp add: prometheus_config_def)
  moreover have "list_all bm_quiet alternating" by code_simp
  ultimately show ?thesis
    using collection_interleavings_agree [OF metrics_beacon _ bm_path_run [OF s(1)] s(2,5) bm_path_run [OF s(6)] _ i w]
      s w bm_path_run by (intro exI conjI) auto
qed

section \<open>A collection ends\<close>

text \<open>A bound on the actions that are left to a worker, to the ticker and to the process.\<close>

fun lines_weight :: "stats_env \<Rightarrow> Beacon \<Rightarrow> string \<Rightarrow> stats_json answer list \<Rightarrow> nat" where
  "lines_weight v b cid [] = 1"
| "lines_weight v b cid (Inl err # ls) = 1"
| "lines_weight v b cid (Inr stats # ls) = 2 + lines_weight v b cid ls
     + (case mk_stat v cid stats of
          Ok (Some s) \<Rightarrow> length (prometheus_writes (se_ord v) s) + length (fst (sendInfluxDB (se_influx v) (se_ord v) b s))
        | _ \<Rightarrow> 0)"

primrec wk_weight :: "collect_env \<Rightarrow> Beacon \<Rightarrow> bm_worker \<Rightarrow> nat" where
  "wk_weight v b (WkStart cid) =
     1 + (case ce_Stats v cid of Inl err \<Rightarrow> 0 | Inr ls \<Rightarrow> lines_weight (ce_stats_env v) b cid ls)"
| "wk_weight v b (WkLines cid ls) = lines_weight (ce_stats_env v) b cid ls"
| "wk_weight v b (WkWrites cid ws ls) = 1 + length ws + lines_weight (ce_stats_env v) b cid ls"
| "wk_weight v b (WkBatches cid bs ls) = 1 + length bs + lines_weight (ce_stats_env v) b cid ls"

definition range_weight :: "collect_env \<Rightarrow> Beacon \<Rightarrow> string list \<Rightarrow> nat" where
  "range_weight v b seen = (\<Sum>cid \<leftarrow> filter (\<lambda>cid. cid \<notin> set seen) (map fst (bn_monitored b)). 1 + wk_weight v b (WkStart cid))"

definition bm_weight :: "bm_state \<Rightarrow> nat" where
  "bm_weight s =
     (if bm_panic s then 0
      else 1 + length (bm_resetting s) + (\<Sum>wk \<leftarrow> bm_workers s. wk_weight (bm_env s) (bm_beacon s) wk)
        + (case bm_ticker s of
             TkIdle \<Rightarrow> 0
           | TkPush \<Rightarrow> 1
           | TkWait \<Rightarrow> 2
           | TkRange must seen \<Rightarrow> 3 + range_weight (bm_env s) (bm_beacon s) seen))"

lemma lines_weight_pos: "0 < lines_weight v b cid ls"
  by (induction v b cid ls rule: lines_weight.induct) simp_all

lemma wk_weight_pos: "0 < wk_weight v b wk"
  by (cases wk) (simp_all add: lines_weight_pos)

lemma wk_step_weight:
  "wk_step v b wk w = Ok (wk', w') \<Longrightarrow> (case wk' of None \<Rightarrow> 0 | Some wk \<Rightarrow> wk_weight v b wk) < wk_weight v b wk"
proof (induction v b wk w rule: wk_step.induct)
  case (3 v b cid l ls w)
  show ?case
  proof (cases l)
    case (Inl err)
    with 3 show ?thesis by simp
  next
    case (Inr stats)
    with 3 obtain s where "mk_stat (ce_stats_env v) cid stats = Ok s" by (auto simp: go_res)
    with 3 Inr show ?thesis
      by (cases s) (auto split: if_splits prod.splits res.splits)
  qed
qed (auto simp: go_res lines_weight_pos split: sum.splits if_splits prod.splits)

lemma range_weight_seen:
  assumes "cid \<in> set (map fst (bn_monitored b))" and "cid \<notin> set seen"
  shows "1 + wk_weight v b (WkStart cid) + range_weight v b (cid # seen) \<le> range_weight v b seen"
proof -
  have "1 + f cid + (\<Sum>c \<leftarrow> filter (\<lambda>c. c \<notin> set (cid # seen)) cs. 1 + f c)
      \<le> (\<Sum>c \<leftarrow> filter (\<lambda>c. c \<notin> set seen) cs. 1 + f c)" if "cid \<in> set cs" for f :: "string \<Rightarrow> nat" and cs
    using that
  proof (induction cs)
    case Nil
    then show ?case by simp
  next
    case (Cons c cs)
    have le: "(\<Sum>c \<leftarrow> filter (\<lambda>c. c \<notin> set (cid # seen)) cs. 1 + f c)
        \<le> (\<Sum>c \<leftarrow> filter (\<lambda>c. c \<notin> set seen) cs. 1 + f c)"
      by (induction cs) auto
    show ?case
    proof (cases "c = cid")
      case True
      with le assms(2) show ?thesis by simp
    next
      case False
      with Cons show ?thesis by auto
    qed
  qed
  from this [OF assms(1), of "\<lambda>cid. wk_weight v b (WkStart cid)"] show ?thesis unfolding range_weight_def .
qed

lemma bm_work_weight:
  assumes "i < length (bm_workers s)" and "\<not> bm_panic s"
  shows "bm_weight (bm_work i s) < bm_weight s"
proof (cases "wk_step (bm_env s) (bm_beacon s) (bm_workers s ! i) (bm_world s)")
  case (Ok r)
  obtain wk' w' where r: "r = (wk', w')" by (cases r)
  let ?f = "wk_weight (bm_env s) (bm_beacon s)"
  have "sum_list (map ?f (bm_workers s)) = sum_list (map ?f (take i (bm_workers s))) + ?f (bm_workers s ! i)
      + sum_list (map ?f (drop (Suc i) (bm_workers s)))"
    by (subst id_take_nth_drop [OF assms(1)]) (simp only: map_append list.map sum_list_append sum_list.Cons add.assoc)
  with wk_step_weight [OF Ok [unfolded r]] Ok r assms show ?thesis
    by (cases wk'; cases "bm_ticker s") (simp_all add: bm_work_def bm_weight_def Let_def upd_conv_take_nth_drop)
next
  case (Err e)
  with assms show ?thesis by (simp add: bm_work_def bm_weight_def)
next
  case (Panic p)
  with assms show ?thesis by (simp add: bm_work_def bm_weight_def)
qed

lemma bm_quiet_weight:
  assumes "bm_do l s = Some s'" and "bm_quiet l"
  shows "bm_weight s' < bm_weight s"
proof (cases l)
  case (BRange cid)
  with assms(1) obtain must seen where s: "bm_ticker s = TkRange must seen" "\<not> bm_panic s"
    "cid \<in> set (map fst (bn_monitored (bm_beacon s)))" "cid \<notin> set seen"
    "s' = s\<lparr>bm_ticker := TkRange (removeAll cid must) (cid # seen), bm_workers := bm_workers s @ [WkStart cid]\<rparr>"
    by (auto simp: bm_do_def split: if_splits bm_ticker.splits)
  from range_weight_seen [OF s(3,4), of "bm_env s"] s show ?thesis
    by (simp add: bm_weight_def del: wk_weight.simps)
next
  case (BWork i)
  with assms(1) bm_work_weight show ?thesis by (auto simp: bm_do_def split: if_splits)
qed (use assms in \<open>auto simp: bm_do_def bm_weight_def split: if_splits bm_ticker.splits list.splits\<close>)

lemma bm_quiet_run_weight:
  "bm_run s ls s' \<Longrightarrow> list_all bm_quiet ls \<Longrightarrow> length ls + bm_weight s' \<le> bm_weight s"
proof (induction rule: bm_run.induct)
  case bm_start
  then show ?case by simp
next
  case (bm_step ls t l t')
  with bm_quiet_weight [OF bm_step.hyps(2)] show ?case by simp
qed

lemma bm_progress:
  assumes "bm_inv c s" and "\<not> bm_panic s" and "bm_ticker s \<noteq> TkIdle \<or> bm_resetting s \<noteq> []"
  shows "\<exists>l. bm_quiet l \<and> bm_do l s \<noteq> None"
proof (cases "bm_resetting s")
  case (Cons g gs)
  with assms(2) show ?thesis by (intro exI [of _ BReset]) (simp add: bm_do_def)
next
  case Nil
  show ?thesis
  proof (cases "bm_ticker s")
    case TkIdle
    with Nil assms(3) show ?thesis by simp
  next
    case (TkRange must seen)
    show ?thesis
    proof (cases must)
      case Nil
      with TkRange assms(2) show ?thesis by (intro exI [of _ BRangeEnd]) (simp add: bm_do_def)
    next
      case (Cons cid cids)
      with TkRange assms(1,2) show ?thesis
        by (intro exI [of _ "BRange cid"]) (auto simp: bm_do_def bm_inv_def gm_keys_def)
    qed
  next
    case TkWait
    show ?thesis
    proof (cases "bm_workers s = []")
      case True
      with TkWait assms(2) show ?thesis by (intro exI [of _ BWaited]) (simp add: bm_do_def)
    next
      case False
      with assms(2) show ?thesis by (intro exI [of _ "BWork 0"]) (simp add: bm_do_def)
    qed
  next
    case TkPush
    with assms(2) show ?thesis by (intro exI [of _ BPush]) (simp add: bm_do_def)
  qed
qed

text \<open>C19: in every reachable state of the extension, without further events and ticks, each
  action of a goroutine uses up a bound on the actions that are left, in any interleaving; and as long as the
  process has not panicked and the ticker is not back in its wait or a reset is not complete, some goroutine
  can go on.\<close>

theorem collection_ends:
  assumes "NewBeacon containerID ParseDuration c = Ok b" and "bm_run (bm_init v b) ls\<^sub>0 s"
    and "bm_run s ls s'" and "list_all bm_quiet ls"
  shows "length ls + bm_weight s' \<le> bm_weight s
    \<and> (bm_panic s' \<or> bm_ticker s' = TkIdle \<and> bm_resetting s' = [] \<or> (\<exists>l. bm_quiet l \<and> bm_do l s' \<noteq> None))"
proof -
  from NewBeacon_inv [OF assms(1)] bm_run_inv [OF assms(2)] bm_run_inv [OF assms(3)]
  have "bm_inv (bn_cfg b) s'" by blast
  with bm_progress bm_quiet_run_weight [OF assms(3,4)] show ?thesis by blast
qed

theorem collection_ends_witness:
  "\<exists>s s'. bm_run (bm_init two_collect metrics_beacon) (two_started @ [BTick two_collect]) s
    \<and> bm_run s [BRange ''web1web1web1'', BWork 0] s' \<and> 2 + bm_weight s' \<le> bm_weight s
    \<and> (\<exists>l. bm_quiet l \<and> bm_do l s' \<noteq> None)"
proof -
  have "case bm_path (two_started @ [BTick two_collect]) (bm_init two_collect metrics_beacon) of None \<Rightarrow> False | Some s \<Rightarrow>
      (case bm_path [BRange ''web1web1web1'', BWork 0] s of None \<Rightarrow> False | Some s' \<Rightarrow>
        \<not> bm_panic s' \<and> bm_ticker s' \<noteq> TkIdle)"
    by code_simp
  then obtain s s' where s: "bm_path (two_started @ [BTick two_collect]) (bm_init two_collect metrics_beacon) = Some s"
      "bm_path [BRange ''web1web1web1'', BWork 0] s = Some s'" "\<not> bm_panic s' \<and> bm_ticker s' \<noteq> TkIdle"
    by (auto split: option.splits)
  have "list_all bm_quiet [BRange ''web1web1web1'', BWork 0]" by simp
  from collection_ends [OF metrics_beacon bm_path_run [OF s(1)] bm_path_run [OF s(2)] this] s(3)
  show ?thesis using bm_path_run [OF s(1)] bm_path_run [OF s(2)] by (intro exI [of _ s] exI [of _ s'] conjI) auto
qed

section \<open>Samples of containers that have ended\<close>

text \<open>What a worker has left to set has the declared labels.\<close>

primrec wk_ok :: "bm_worker \<Rightarrow> bool" where
  "wk_ok (WkStart cid) = True"
| "wk_ok (WkLines cid ls) = True"
| "wk_ok (WkWrites cid ws ls) = list_all write_ok ws"
| "wk_ok (WkBatches cid bs ls) = True"

lemma wk_step_ok: "wk_step v b wk w = Ok (Some wk', w') \<Longrightarrow> wk_ok wk \<Longrightarrow> wk_ok wk'"
proof (induction v b wk w rule: wk_step.induct)
  case (3 v b cid l ls w)
  show ?case
  proof (cases l)
    case (Inl err)
    with 3 show ?thesis by simp
  next
    case (Inr stats)
    with 3 obtain s where "mk_stat (ce_stats_env v) cid stats = Ok s" by (auto simp: go_res)
    with 3 Inr show ?thesis
      by (cases s) (auto simp: prometheus_writes_ok split: if_splits prod.splits res.splits)
  qed
qed (auto simp: go_res split: sum.splits if_splits prod.splits)

lemma wk_step_has:
  "wk_step v b wk w = Ok (wk', w') \<Longrightarrow> gm_has (bw_samples w) k \<Longrightarrow> gm_has (bw_samples w') k"
proof (induction v b wk w rule: wk_step.induct)
  case (3 v b cid l ls w)
  show ?case
  proof (cases l)
    case (Inl err)
    with 3 show ?thesis by simp
  next
    case (Inr stats)
    with 3 obtain s where "mk_stat (ce_stats_env v) cid stats = Ok s" by (auto simp: go_res)
    with 3 Inr show ?thesis
      by (cases s) (auto split: if_splits prod.splits res.splits)
  qed
qed (auto simp: go_res gauge_set_def gm_has_set split: sum.splits if_splits prod.splits)

lemma bm_work_cases:
  assumes "i < length (bm_workers s)"
  obtains (Gone) w where "wk_step (bm_env s) (bm_beacon s) (bm_workers s ! i) (bm_world s) = Ok (None, w)"
      "bm_workers (bm_work i s) = take i (bm_workers s) @ drop (Suc i) (bm_workers s)" "bm_world (bm_work i s) = w"
    | (On) wk w where "wk_step (bm_env s) (bm_beacon s) (bm_workers s ! i) (bm_world s) = Ok (Some wk, w)"
      "bm_workers (bm_work i s) = (bm_workers s)[i := wk]" "bm_world (bm_work i s) = w"
    | (Stuck) "bm_workers (bm_work i s) = bm_workers s" "bm_world (bm_work i s) = bm_world s"
proof (cases "wk_step (bm_env s) (bm_beacon s) (bm_workers s ! i) (bm_world s)")
  case (Ok r)
  obtain wk' w where "r = (wk', w)" by (cases r)
  with Ok show ?thesis by (cases wk') (auto simp: bm_work_def Let_def intro: Gone On)
qed (simp_all add: bm_work_def Stuck)

definition workers_ok :: "bm_state \<Rightarrow> bool" where
  "workers_ok s \<longleftrightarrow> list_all wk_ok (bm_workers s)"

lemma workers_ok_step:
  assumes "workers_ok s" and "bm_do l s = Some s'"
  shows "workers_ok s'"
proof (cases l)
  case (BWork i)
  with assms(2) have i: "i < length (bm_workers s)" "s' = bm_work i s" by (auto simp: bm_do_def split: if_splits)
  from assms(1) have ok: "\<forall>wk \<in> set (bm_workers s). wk_ok wk" by (simp add: workers_ok_def list_all_iff)
  from i(1) show ?thesis
  proof (cases rule: bm_work_cases)
    case (Gone w)
    with ok i(2) show ?thesis by (auto simp: workers_ok_def list_all_iff dest: in_set_takeD in_set_dropD)
  next
    case (On wk w)
    with ok i have "wk_ok wk" by (auto intro: wk_step_ok)
    with On ok i(2) show ?thesis by (auto simp: workers_ok_def list_all_iff dest: set_update_subset_insert [THEN subsetD])
  next
    case Stuck
    with assms(1) i(2) show ?thesis by (simp add: workers_ok_def)
  qed
qed (use assms in \<open>auto simp: bm_do_def workers_ok_def bm_event_def split: if_splits bm_ticker.splits list.splits\<close>)

lemma workers_ok_run: "bm_run (bm_init v b) ls s \<Longrightarrow> workers_ok s"
  by (induction rule: bm_run.induct) (auto simp: workers_ok_def bm_init_def intro: workers_ok_step [unfolded workers_ok_def])

text \<open>A sample stays as long as no container ends.\<close>

primrec bm_ends :: "bm_label \<Rightarrow> bool" where
  "bm_ends (BTick v) = False"
| "bm_ends (BRange cid) = False"
| "bm_ends BRangeEnd = False"
| "bm_ends (BWork i) = False"
| "bm_ends BWaited = False"
| "bm_ends BPush = False"
| "bm_ends (BEvent cs e) = ends_container e"
| "bm_ends BReset = False"

definition sample_kept :: "sample_key \<Rightarrow> bm_state \<Rightarrow> bool" where
  "sample_kept k s \<longleftrightarrow> bm_resetting s = [] \<and> gm_has (bw_samples (bm_world s)) k"

lemma sample_kept_step:
  assumes "sample_kept k s" and "bm_do l s = Some s'" and "\<not> bm_ends l"
  shows "sample_kept k s'"
proof (cases l)
  case (BWork i)
  with assms(2) have i: "i < length (bm_workers s)" "s' = bm_work i s" by (auto simp: bm_do_def split: if_splits)
  from i(1) show ?thesis
    by (cases rule: bm_work_cases) (use assms(1) i(2) in \<open>auto simp: sample_kept_def intro: wk_step_has\<close>)
qed (use assms in \<open>auto simp: bm_do_def sample_kept_def bm_event_def split: if_splits bm_ticker.splits list.splits\<close>)

lemma sample_kept_run:
  "bm_run s\<^sub>1 ls s \<Longrightarrow> sample_kept k s\<^sub>1 \<Longrightarrow> list_all (\<lambda>l. \<not> bm_ends l) ls \<Longrightarrow> sample_kept k s"
  by (induction rule: bm_run.induct) (auto intro: sample_kept_step)

lemma bm_path_append: "bm_path (ls @ ls') s = Option.bind (bm_path ls s) (bm_path ls')"
  by (induction ls arbitrary: s) (simp_all split: option.split)

lemma bm_path_resets:
  "\<not> bm_panic s \<Longrightarrow> bm_resetting s = gs \<Longrightarrow>
    bm_path (replicate (length gs) BReset) s = Some (s\<lparr>bm_resetting := [],
      bm_world := (bm_world s)\<lparr>bw_samples := fold gauge_reset gs (bw_samples (bm_world s))\<rparr>\<rparr>)"
  by (induction gs arbitrary: s) (simp_all add: bm_do_def)

definition ending :: "container list answer \<Rightarrow> event_message \<Rightarrow> nat \<Rightarrow> bm_label list" where
  "ending cs e i = BEvent cs e # replicate (length allCounters) BReset @ [BWork i]"

text \<open>C20: whenever the worker of a container is about to set a gauge, and no
  reset is in progress, the end of this container can be handled completely, with its reset of all gauges,
  before the worker goes on. The container is then not monitored any more, and still the sample is set;
  it stays, whatever else happens, until some container ends again.\<close>

theorem ended_container_reported:
  assumes "bm_run (bm_init v b) ls\<^sub>0 s" and "\<not> bm_panic s" and "bm_resetting s = []"
    and "i < length (bm_workers s)" and "bm_workers s ! i = WkWrites cid (g # ws) ls"
    and "ends_container e" and "em_ID e = cid"
  shows "\<exists>s'. bm_path (ending cs e i) s = Some s' \<and> cid \<notin> gm_keys (bn_monitored (bm_beacon s'))
    \<and> bm_resetting s' = [] \<and> gm_get (bw_samples (bm_world s')) (write_key g) = Some (write_val g)
    \<and> (\<forall>ls' s''. bm_run s' ls' s'' \<longrightarrow> list_all (\<lambda>l. \<not> bm_ends l) ls' \<longrightarrow>
          gm_has (bw_samples (bm_world s'')) (write_key g))"
proof -
  let ?s = "bm_event cs e s"
  let ?t = "?s\<lparr>bm_resetting := [],
    bm_world := (bm_world ?s)\<lparr>bw_samples := fold gauge_reset allCounters (bw_samples (bm_world ?s))\<rparr>\<rparr>"
  let ?s' = "bm_work i ?t"
  have ev: "bm_do (BEvent cs e) s = Some ?s" using assms(2,3) by (simp add: bm_do_def)
  have f: "\<not> bm_panic ?s" "bm_resetting ?s = allCounters" "bm_workers ?s = bm_workers s"
    using assms(2,6) by (simp_all add: bm_event_def)
  have w: "bm_do (BWork i) ?t = Some ?s'" using f(1,3) assms(4) by (simp add: bm_do_def)
  have path: "bm_path (ending cs e i) s = Some ?s'"
    using ev w by (simp add: ending_def bm_path_append bm_path_resets [OF f(1,2)])
  have keys: "cid \<notin> gm_keys (bn_monitored (bm_beacon ?s'))"
    using bn_HandleEvent_keys(2) [OF assms(6)] assms(7) by (simp add: bm_event_def)
  have "wk_ok (bm_workers s ! i)" using workers_ok_run [OF assms(1)] assms(4)
    by (simp add: workers_ok_def list_all_length)
  then have "write_ok g" by (simp add: assms(5))
  then have "wk_step (bm_env ?t) (bm_beacon ?t) (bm_workers ?t ! i) (bm_world ?t)
      = Ok (Some (WkWrites cid ws ls),
          (bm_world ?t)\<lparr>bw_samples := gm_set (write_key g) (write_val g) (bw_samples (bm_world ?t))\<rparr>)"
    by (cases g) (simp add: f(3) assms(5) gauge_set_ok)
  then have set: "bw_samples (bm_world ?s') = gm_set (write_key g) (write_val g) (bw_samples (bm_world ?t))"
    by (simp add: bm_work_def Let_def)
  then have kept: "sample_kept (write_key g) ?s'" by (simp add: sample_kept_def gm_has_set)
  have "gm_has (bw_samples (bm_world s'')) (write_key g)"
    if "bm_run ?s' ls' s''" "list_all (\<lambda>l. \<not> bm_ends l) ls'" for ls' s''
    using sample_kept_run [OF that(1) kept that(2)] by (simp add: sample_kept_def)
  with path keys set show ?thesis by (intro exI [of _ ?s']) (simp add: gm_get_set)
qed

definition reporting :: "bm_label list" where
  "reporting = [start_event ''web1web1web1'', BTick two_collect, BRange ''web1web1web1'', BRangeEnd]
     @ replicate 6 (BWork 0)"

definition die_web1 :: event_message where
  "die_web1 = \<lparr>em_Status = ''die'', em_ID = ''web1web1web1'', em_Type = ''container'', em_Action = ''die'',
     em_Attributes = []\<rparr>"

theorem ended_container_reported_witness:
  "\<exists>s s'. bm_run (bm_init two_collect metrics_beacon) reporting s \<and> bm_path (ending (Inr []) die_web1 0) s = Some s'
    \<and> ''web1web1web1'' \<notin> gm_keys (bn_monitored (bm_beacon s'))
    \<and> gm_has (bw_samples (bm_world s')) (gv_fqName counterCpuTotalUsage, [''web1web1web1'', ''web:1'', ''web1'', ''cpu''])"
proof -
  have "case bm_path reporting (bm_init two_collect metrics_beacon) of None \<Rightarrow> False | Some s \<Rightarrow>
      \<not> bm_panic s \<and> bm_resetting s = [] \<and> 0 < length (bm_workers s) \<and>
      (case bm_workers s ! 0 of WkWrites cid (g # ws) ls \<Rightarrow> cid = ''web1web1web1'' \<and>
        write_key g = (gv_fqName counterCpuTotalUsage, [''web1web1web1'', ''web:1'', ''web1'', ''cpu'']) | _ \<Rightarrow> False)"
    by code_simp
  then obtain s g ws ls where s: "bm_path reporting (bm_init two_collect metrics_beacon) = Some s"
      "\<not> bm_panic s" "bm_resetting s = []" "0 < length (bm_workers s)"
      "bm_workers s ! 0 = WkWrites ''web1web1web1'' (g # ws) ls"
      "write_key g = (gv_fqName counterCpuTotalUsage, [''web1web1web1'', ''web:1'', ''web1'', ''cpu''])"
    by (auto split: option.splits bm_worker.splits list.splits)
  have e: "ends_container die_web1" "em_ID die_web1 = ''web1web1web1''"
    by (simp_all add: ends_container_def die_web1_def)
  obtain s' where s': "bm_path (ending (Inr []) die_web1 0) s = Some s'"
      "''web1web1web1'' \<notin> gm_keys (bn_monitored (bm_beacon s'))"
      "gm_get (bw_samples (bm_world s')) (write_key g) = Some (write_val g)"
    using ended_container_reported [OF bm_path_run [OF s(1)] s(2-5) e, of "Inr []"] by (elim exE conjE)
  then have "gm_has (bw_samples (bm_world s')) (write_key g)" by (simp add: gm_has_def)
  with s' s(6) bm_path_run [OF s(1)] show ?thesis by (intro exI [of _ s] exI [of _ s'] conjI) simp_all
qed

end
