(* ===== verification/Spec2Isabelle.thy ===== *)
theory Spec2Isabelle
  imports Multi_Balancer Interlock_Main Delivered Beacon_Machine
begin

text \<open>
  A verification development for Interlock, an event-driven extension system for Docker. Interlock
  listens to the events of a Docker engine or Swarm cluster (or polls it), reads the labels of the
  running containers, generates configurations for HAProxy or Nginx proxies, copies them into the proxy
  containers and reloads these; a second extension, the beacon, reports container statistics.

  \<^bold>\<open>The program and its model.\<close> The Go code under \<open>src/\<close> is translated function by function; the
  definitions keep the source's names, with a short prefix where HAProxy (\<open>hp\<close>), Nginx (\<open>ng\<close>), the load
  balancer (\<open>lb\<close>) or the beacon (\<open>bn\<close>) use the same name.

  \<^item> \<open>Prelude\<close>, \<open>Go_Strings\<close>, \<open>Go_Net\<close>, \<open>Go_Path\<close>, \<open>Go_Template\<close>: what the code uses of Go. A fallible
    function gives \<open>Ok\<close>, \<open>Err\<close> (a returned error) or \<open>Panic\<close> (a panic or \<open>log.Fatal\<close>, which end the
    process). A Go map is an association list without duplicate keys, and every loop over one takes an
    \<open>order\<close> as an argument, so that a theorem holds for all iteration orders. \<open>Go_Template\<close> has a parser,
    an evaluator and a type check for the part of \<open>text/template\<close> that the built-in templates use.
  \<^item> \<open>Docker_Types\<close>: the engine's answers, and the calls with an effect as a recorded list.
  \<^item> \<open>Ext_Config\<close> (\<open>config/\<close>): the configuration records, the defaults, \<open>ParseConfig\<close>.
  \<^item> \<open>Lb_Labels\<close>, \<open>Lb_Network\<close> (\<open>ext/ext.go\<close>, \<open>ext/lb/utils/\<close>): the labels, and the address of a container.
  \<^item> \<open>Gen_Loop\<close>: the loop over the containers that both generators share, as locales that the two
    backends interpret; \<open>Sample_Fleet\<close> has the containers on which the witnesses run.
  \<^item> \<open>Haproxy\<close>, \<open>Nginx\<close> (\<open>generate.go\<close>, \<open>config.go\<close> of each): \<open>GenerateProxyConfig\<close>, whole.
  \<^item> \<open>Backends\<close> (\<open>haproxy.go\<close>, \<open>iptables.go\<close>, \<open>nginx.go\<close>): reload, template choice, firewall rules.
  \<^item> \<open>Builtin_Templates\<close>, \<open>Templates\<close>, \<open>Rendered\<close> (\<open>template.go\<close>, \<open>template_nginxplus.go\<close>): the texts of
    the three templates, what they parse to, and what the rendered files say. \<open>Delivered\<close> composes the
    generator, the template and the update.
  \<^item> \<open>Node_Id\<close> (\<open>utils/node_id.go\<close>), \<open>Ttl_Cache\<close> (the cache that delays reloads), \<open>Load_Balancer\<close> and
    \<open>Reload_Machine\<close> (\<open>ext/lb/lb.go\<close>): construction, update, event handler, the shares of the nodes; the
    goroutines that decide when an update runs, as a step relation. \<open>Multi_Balancer\<close> has the same for
    any number of load balancers in one process, which share a package variable.
  \<^item> \<open>Beacon_Metrics\<close>, \<open>Beacon\<close> (\<open>ext/beacon/\<close>): gauges, rules, collection, reports.
    \<open>Beacon_Machine\<close> has the goroutines of a collection and of the event loop, as a step relation.
  \<^item> \<open>Server\<close>, \<open>Server_Channels\<close> (\<open>server/\<close>, \<open>events/\<close>): extensions, dispatch, poller, node list; the
    goroutines of \<open>NewServer\<close> and their channels without a buffer, as a step relation.
  \<^item> \<open>Docker_Client\<close> (\<open>client/\<close>, \<open>version/\<close>), \<open>Command\<close> (\<open>cmd/interlock\<close>): the client of the engine, and where
    the configuration comes from. \<open>Cli\<close> is the part of the command-line package that selects a command
    and parses its flags; \<open>Interlock_Main\<close> is \<open>main\<close>, from the arguments of the process on.

  \<^bold>\<open>What is shown.\<close> The generators: exactly which hosts, upstreams and attributes a configuration has
  for any list of containers and any answers of the engine, when generation fails, and which container
  makes it panic. The templates: every generated configuration is rendered, every host is routed to a
  section that exists and lists its servers. The update: the new configuration is copied everywhere
  before any proxy is reloaded, an error leaves the proxies alone, and the nodes share the proxies
  without overlap. The three composed: every container that a generator serves is in the file that every
  proxy is given, under a route that leads to it. The reload machine: in every interleaving no request
  is lost, an update comes only after a quiet period, and one can always be completed. A process with
  one load balancer refines it; with several, the quiet period remains, but a load balancer can be cut
  off from its cache, and requests can be lost. The command line: the flags reach the server as given.
  The server: the poller notices exactly the changes of ids and ports, without cluster errors the
  goroutines always come to rest, with cluster errors they can block each other for ever. The beacon:
  which samples a collection writes, and for which containers; its goroutines end, and give the samples
  of a collection without concurrency in every interleaving without events, while an event in between
  can leave samples of a container that has ended. The configuration: defaults are complete and stable,
  the sources have a fixed order.
  Where the code does something else than it means to or than its documents say, the theorem states
  what it does.

  \<^bold>\<open>Interfaces.\<close> \<open>Gen_Loop\<close> states the generator loop and its recorded writes; \<open>Ttl_Cache\<close> an expiring
  store; \<open>Load_Balancer\<close> a proxy backend; \<open>Server\<close> an event extension. Each is interpreted on the
  definitions of the code, and the properties of the components rest on these interpretations.

  \<^bold>\<open>Parameters.\<close> The engine, the shell, the file system, regular expressions, the TOML coder, durations,
  addresses, digests, key-value stores and the statistics backends are arguments of the definitions;
  theorems hold for all of them, under named hypotheses where something documented is needed.

  \<^bold>\<open>Loops and bounds.\<close> Loops over lists are structural recursion. The only loop that may not end is the
  wait for the cluster, a partial function whose value is \<open>None\<close> then; the theorem says exactly when it
  ends. The retries of the code (five tries to see a connection, five to disconnect) are its own bounds.
  Integers are unbounded except for the 64-bit counters of the statistics; the others are sizes, ports
  and times far below the limits of Go's \<open>int\<close>.

  \<^bold>\<open>Not modelled.\<close> The help texts of the command line, and the flags of the command-line package that the
  program does not use (environment variables, subcommands, completion). The HTTP listener and the
  Prometheus and InfluxDB clients are outside the program; only what is handed to them is modelled. The
  step relations do not have the end of the process when Go notices an unlocked map access. Log messages are left out. Templates of the user's own are rendered by the template
  engine that \<open>SaveConfig\<close> takes as an argument, about which nothing is assumed.
\<close>

section \<open>One container that stops the whole program\<close>



end
